(* ===== verification/Prelude.thy ===== *)
theory Prelude
  imports Main "HOL-Library.Word"
begin

unbundle bit_operations_syntax

text \<open>
  What the component theories share: names for Rust's integer types, the result type of
  fallible code with the sequencing that Rust's question-mark operator stands for, the
  collections of rewrite rules, and generic lemmas on lists, options and words.
\<close>

section \<open>Collections of rewrite rules\<close>

named_theorems net_simps \<open>characteristic equations of the network data types\<close>
named_theorems nft_guards \<open>what a rule of the packet filter checks\<close>
named_theorems chain_simps \<open>the rules each builder adds to each chain\<close>
named_theorems tsm_simps \<open>projections of the tunnel state machine's operations\<close>
named_theorems constraint_simps \<open>characteristic equations of constraints and queries\<close>

section \<open>Integer types\<close>

type_synonym u8 = "8 word"
type_synonym u16 = "16 word"
type_synonym u32 = "32 word"
type_synonym u64 = "64 word"
type_synonym u128 = "128 word"

section \<open>Results\<close>

text \<open>\<^verbatim>\<open>Result<T, E>\<close>: \<open>Inl\<close> is \<^verbatim>\<open>Err\<close>, \<open>Inr\<close> is \<^verbatim>\<open>Ok\<close>.\<close>

type_synonym ('e, 'a) result = "'e + 'a"

definition and_then :: "('e, 'a) result \<Rightarrow> ('a \<Rightarrow> ('e, 'b) result) \<Rightarrow> ('e, 'b) result" where
  "and_then r f = (case r of Inl e \<Rightarrow> Inl e | Inr a \<Rightarrow> f a)"

lemma and_then_simps [simp]:
  "and_then (Inl e) f = Inl e"
  "and_then (Inr a) f = f a"
  by (simp_all add: and_then_def)

lemma and_then_eq_Inr: "and_then r f = Inr b \<longleftrightarrow> (\<exists>a. r = Inr a \<and> f a = Inr b)"
  by (cases r) auto

lemma and_then_eq_Inl:
  "and_then r f = Inl e \<longleftrightarrow> r = Inl e \<or> (\<exists>a. r = Inr a \<and> f a = Inl e)"
  by (cases r) auto

lemma and_then_InrE [elim!]:
  assumes "and_then r f = Inr b"
  obtains a where "r = Inr a" and "f a = Inr b"
  using assms by (auto simp: and_then_eq_Inr)

lemma and_then_ok:
  assumes "\<exists>a. r = Inr a" and "\<And>a. \<exists>b. f a = Inr b"
  shows "\<exists>b. and_then r f = Inr b"
  using assms by (auto simp: and_then_eq_Inr)

definition ok_of :: "('e, 'a) result \<Rightarrow> 'a option" where
  "ok_of r = (case r of Inl e \<Rightarrow> None | Inr a \<Rightarrow> Some a)"

definition is_err :: "('e, 'a) result \<Rightarrow> bool" where
  "is_err r = (case r of Inl e \<Rightarrow> True | Inr a \<Rightarrow> False)"

lemma is_err_simps [simp]: "is_err (Inl e)" "\<not> is_err (Inr a)"
  by (simp_all add: is_err_def)

lemma ok_of_simps [simp]: "ok_of (Inl e) = None" "ok_of (Inr a) = Some a"
  by (simp_all add: ok_of_def)

text \<open>A loop whose body may fail: the first error ends it.\<close>

fun fold_result :: "('x \<Rightarrow> 's \<Rightarrow> ('e, 's) result) \<Rightarrow> 'x list \<Rightarrow> 's \<Rightarrow> ('e, 's) result" where
  "fold_result f [] s = Inr s"
| "fold_result f (x # xs) s = and_then (f x s) (fold_result f xs)"

lemma fold_result_append:
  "fold_result f (xs @ ys) s = and_then (fold_result f xs s) (fold_result f ys)"
  by (induction xs arbitrary: s) (auto simp: and_then_def split: sum.splits)

lemma fold_result_ok:
  assumes "\<And>x s. \<exists>s'. f x s = Inr s'"
  shows "\<exists>s'. fold_result f xs s = Inr s'"
proof (induction xs arbitrary: s)
  case (Cons x xs)
  obtain s' where "f x s = Inr s'" using assms by blast
  with Cons show ?case by simp
qed simp

section \<open>Lists\<close>

lemma filter_concat_map: "filter P (concat (map f xs)) = concat (map (\<lambda>x. filter P (f x)) xs)"
  by (induction xs) auto

text \<open>\<^verbatim>\<open>slice::split\<close> on one separator, and \<^verbatim>\<open>Iterator::find_map\<close>.\<close>

fun split_on :: "'a \<Rightarrow> 'a list \<Rightarrow> 'a list list" where
  "split_on c [] = [[]]"
| "split_on c (x # xs) =
     (if x = c then [] # split_on c xs
      else (case split_on c xs of [] \<Rightarrow> [[x]] | y # ys \<Rightarrow> (x # y) # ys))"

fun find_map :: "('a \<Rightarrow> 'b option) \<Rightarrow> 'a list \<Rightarrow> 'b option" where
  "find_map f [] = None"
| "find_map f (x # xs) = (case f x of Some y \<Rightarrow> Some y | None \<Rightarrow> find_map f xs)"

lemma find_map_Some: "find_map f xs = Some y \<Longrightarrow> \<exists>x \<in> set xs. f x = Some y"
  by (induction xs) (auto split: option.splits)

lemma find_map_None: "find_map f xs = None \<longleftrightarrow> (\<forall>x \<in> set xs. f x = None)"
  by (induction xs) (auto split: option.splits)

text \<open>A loop that changes each element in turn and carries a state along.\<close>

fun map_state :: "('x \<Rightarrow> 's \<Rightarrow> 'y \<times> 's) \<Rightarrow> 'x list \<Rightarrow> 's \<Rightarrow> 'y list \<times> 's" where
  "map_state f [] s = ([], s)"
| "map_state f (x # xs) s =
     (let (y, s1) = f x s; (ys, s2) = map_state f xs s1 in (y # ys, s2))"

lemma map_state_append:
  "map_state f (xs @ ys) s =
     (let (xs', s1) = map_state f xs s; (ys', s2) = map_state f ys s1 in (xs' @ ys', s2))"
  by (induction xs arbitrary: s) (simp_all add: case_prod_beta Let_def)

lemma map_state_map: "map_state f (map g xs) = map_state (f \<circ> g) xs"
proof
  show "map_state f (map g xs) s = map_state (f \<circ> g) xs s" for s
    by (induction xs arbitrary: s) (simp_all add: case_prod_beta Let_def)
qed

lemma map_state_concat:
  "map_state f (concat xss) s =
     (concat (fst (map_state (map_state f) xss s)), snd (map_state (map_state f) xss s))"
  by (induction xss arbitrary: s) (simp_all add: case_prod_beta Let_def map_state_append)

lemma map_state_project:
  assumes "\<And>x s. g (fst (f x s)) = fst (f' x s) \<and> snd (f x s) = snd (f' x s)"
  shows "map g (fst (map_state f xs s)) = fst (map_state f' xs s) \<and>
         snd (map_state f xs s) = snd (map_state f' xs s)"
  by (induction xs arbitrary: s) (simp_all add: case_prod_beta Let_def assms)

lemma length_map_state [simp]: "length (fst (map_state f xs s)) = length xs"
  by (induction xs arbitrary: s) (simp_all add: case_prod_beta Let_def)

text \<open>\<^verbatim>\<open>str::trim\<close>, for the white space of ASCII.\<close>

definition is_whitespace :: "char \<Rightarrow> bool" where
  "is_whitespace c \<longleftrightarrow> c \<in> {CHR 0x09, CHR 0x0A, CHR 0x0B, CHR 0x0C, CHR 0x0D, CHR '' ''}"

definition str_trim :: "string \<Rightarrow> string" where
  "str_trim s = rev (dropWhile is_whitespace (rev (dropWhile is_whitespace s)))"

lemma split_on_not_Nil [simp]: "split_on c xs \<noteq> []"
  by (induction xs) (auto split: list.splits)

lemma split_on_segments: "seg \<in> set (split_on c xs) \<Longrightarrow> c \<notin> set seg"
  by (induction xs arbitrary: seg) (auto split: if_splits list.splits)

lemma remdups_adj_sort_distinct:
  fixes xs :: "'a :: linorder list"
  shows "distinct (remdups_adj (sort xs))" and "set (remdups_adj (sort xs)) = set xs"
    and "sorted (remdups_adj (sort xs))"
proof -
  have aux: "sorted ys \<Longrightarrow> distinct (remdups_adj ys)" for ys :: "'a list"
    by (induction ys rule: remdups_adj.induct) auto
  show "distinct (remdups_adj (sort xs))"
    by (rule aux) simp
  show "set (remdups_adj (sort xs)) = set xs"
    by simp
  show "sorted (remdups_adj (sort xs))"
    by (rule sorted_remdups_adj) simp
qed

end
