(* ===== verification/Net_Types.thy ===== *)
theory Net_Types
  imports Prelude "HOL-Library.Product_Lexorder"
begin

text \<open>
  The network data types of \<^verbatim>\<open>talpid-types\<close> (\<^verbatim>\<open>src/talpid-types/src/net/\<close> and
  \<^verbatim>\<open>tunnel.rs\<close>), the tunnel metadata and events of \<^verbatim>\<open>talpid-tunnel\<close> and the DNS
  configuration of \<^verbatim>\<open>talpid-core/src/dns/mod.rs\<close>, with the operations on them that the
  tunnel state machine and the firewall call. The build modelled is the Linux one: items the
  source compiles for other targets only are absent.
\<close>

section \<open>Addresses and endpoints\<close>

text \<open>\<^verbatim>\<open>IpAddr\<close>: the order Rust derives compares the family first, then the octets.\<close>

datatype ip_addr = V4 u32 | V6 u128

primrec is_ipv4 :: "ip_addr \<Rightarrow> bool" where
  "is_ipv4 (V4 a) = True"
| "is_ipv4 (V6 a) = False"

definition ipv4_addr :: "nat \<Rightarrow> nat \<Rightarrow> nat \<Rightarrow> nat \<Rightarrow> u32" where
  "ipv4_addr a b c d = word_of_nat (((a * 256 + b) * 256 + c) * 256 + d)"

definition ipv6_addr ::
  "nat \<Rightarrow> nat \<Rightarrow> nat \<Rightarrow> nat \<Rightarrow> nat \<Rightarrow> nat \<Rightarrow> nat \<Rightarrow> nat \<Rightarrow> u128" where
  "ipv6_addr a b c d e f g h =
     word_of_nat (fold (\<lambda>seg acc. acc * 65536 + seg) [a, b, c, d, e, f, g, h] 0)"

text \<open>An IP network: its address and the length of its prefix.\<close>

datatype ip_network = NetV4 u32 nat | NetV6 u128 nat

definition prefix_mask :: "nat \<Rightarrow> 'a :: len word" where
  "prefix_mask p = push_bit (LENGTH('a) - p) (- 1)"

primrec net_ip :: "ip_network \<Rightarrow> ip_addr" where
  "net_ip (NetV4 a p) = V4 a"
| "net_ip (NetV6 a p) = V6 a"

primrec net_mask :: "ip_network \<Rightarrow> ip_addr" where
  "net_mask (NetV4 a p) = V4 (prefix_mask p)"
| "net_mask (NetV6 a p) = V6 (prefix_mask p)"

fun net_contains :: "ip_network \<Rightarrow> ip_addr \<Rightarrow> bool" where
  "net_contains (NetV4 a p) (V4 x) = (x AND prefix_mask p = a AND prefix_mask p)"
| "net_contains (NetV6 a p) (V6 x) = (x AND prefix_mask p = a AND prefix_mask p)"
| "net_contains _ _ = False"

text \<open>\<^verbatim>\<open>SocketAddr\<close>, built from an address and a port.\<close>

datatype socket_addr = SocketAddr (sa_ip: ip_addr) (sa_port: u16)

datatype transport_protocol = Udp | Tcp

datatype endpoint = Endpoint (ep_address: socket_addr) (ep_protocol: transport_protocol)

definition endpoint_new :: "ip_addr \<Rightarrow> u16 \<Rightarrow> transport_protocol \<Rightarrow> endpoint" where
  "endpoint_new address port protocol = Endpoint (SocketAddr address port) protocol"

definition endpoint_from_socket_address :: "socket_addr \<Rightarrow> transport_protocol \<Rightarrow> endpoint" where
  "endpoint_from_socket_address address protocol = Endpoint address protocol"

text \<open>
  \<^verbatim>\<open>Endpoint\<close> derives \<^verbatim>\<open>Ord\<close>: the lexicographic order of family, address, port and
  protocol, which \<open>endpoint_key\<close> spells out.
\<close>

fun ip_key :: "ip_addr \<Rightarrow> nat \<times> nat" where
  "ip_key (V4 a) = (0, unat a)"
| "ip_key (V6 a) = (1, unat a)"

definition protocol_key :: "transport_protocol \<Rightarrow> nat" where
  "protocol_key p = (case p of Udp \<Rightarrow> 0 | Tcp \<Rightarrow> 1)"

definition endpoint_key :: "endpoint \<Rightarrow> (nat \<times> nat) \<times> nat \<times> nat" where
  "endpoint_key e =
     (ip_key (sa_ip (ep_address e)), unat (sa_port (ep_address e)), protocol_key (ep_protocol e))"

lemma ip_key_inject [simp]: "ip_key a = ip_key b \<longleftrightarrow> a = b"
  by (cases a; cases b) (auto simp: word_unat_eq_iff)

lemma endpoint_key_inject: "endpoint_key a = endpoint_key b \<longleftrightarrow> a = b"
proof -
  obtain ia pa ta ib pb tb where
    a: "a = Endpoint (SocketAddr ia pa) ta" and b: "b = Endpoint (SocketAddr ib pb) tb"
    by (metis endpoint.exhaust socket_addr.exhaust)
  show ?thesis
    by (cases ta; cases tb) (auto simp: a b endpoint_key_def protocol_key_def word_unat_eq_iff)
qed

instantiation endpoint :: linorder
begin

definition less_eq_endpoint :: "endpoint \<Rightarrow> endpoint \<Rightarrow> bool" where
  "less_eq_endpoint a b \<longleftrightarrow> endpoint_key a \<le> endpoint_key b"

definition less_endpoint :: "endpoint \<Rightarrow> endpoint \<Rightarrow> bool" where
  "less_endpoint a b \<longleftrightarrow> endpoint_key a < endpoint_key b"

instance
proof
  fix x y z :: endpoint
  show "x < y \<longleftrightarrow> x \<le> y \<and> \<not> y \<le> x"
    by (auto simp: less_eq_endpoint_def less_endpoint_def)
  show "x \<le> x"
    by (simp add: less_eq_endpoint_def)
  show "x \<le> y \<Longrightarrow> y \<le> z \<Longrightarrow> x \<le> z"
    unfolding less_eq_endpoint_def by (rule order_trans)
  show "x \<le> y \<Longrightarrow> y \<le> x \<Longrightarrow> x = y"
    by (simp add: less_eq_endpoint_def flip: endpoint_key_inject)
  show "x \<le> y \<or> y \<le> x"
    unfolding less_eq_endpoint_def by (rule linear)
qed

end

section \<open>Allowed traffic\<close>

datatype allowed_clients = ClientsRoot | ClientsAll

definition allow_all :: "allowed_clients \<Rightarrow> bool" where
  "allow_all c \<longleftrightarrow> c = ClientsAll"

record allowed_endpoint =
  ae_endpoint :: endpoint
  ae_clients :: allowed_clients

datatype allowed_tunnel_traffic =
  TrafficNone
| TrafficAll
| TrafficOne endpoint
| TrafficTwo endpoint endpoint

definition traffic_all :: "allowed_tunnel_traffic \<Rightarrow> bool" where
  "traffic_all t \<longleftrightarrow> t = TrafficAll"

text \<open>\<^verbatim>\<open>allowed_nets.rs\<close>: what the \<^verbatim>\<open>Allow LAN\<close> setting opens.\<close>

definition ALLOWED_LAN_NETS :: "ip_network list" where
  "ALLOWED_LAN_NETS =
    [NetV4 (ipv4_addr 10 0 0 0) 8,
     NetV4 (ipv4_addr 172 16 0 0) 12,
     NetV4 (ipv4_addr 192 168 0 0) 16,
     NetV4 (ipv4_addr 169 254 0 0) 16,
     NetV6 (ipv6_addr 0xfe80 0 0 0 0 0 0 0) 10,
     NetV6 (ipv6_addr 0xfc00 0 0 0 0 0 0 0) 7]"

definition ALLOWED_LAN_MULTICAST_NETS :: "ip_network list" where
  "ALLOWED_LAN_MULTICAST_NETS =
    [NetV4 (ipv4_addr 255 255 255 255) 32,
     NetV4 (ipv4_addr 224 0 0 0) 24,
     NetV4 (ipv4_addr 239 0 0 0) 8,
     NetV6 (ipv6_addr 0xff01 0 0 0 0 0 0 0) 16,
     NetV6 (ipv6_addr 0xff02 0 0 0 0 0 0 0) 16,
     NetV6 (ipv6_addr 0xff03 0 0 0 0 0 0 0) 16,
     NetV6 (ipv6_addr 0xff04 0 0 0 0 0 0 0) 16,
     NetV6 (ipv6_addr 0xff05 0 0 0 0 0 0 0) 16]"

section \<open>Connectivity\<close>

datatype ip_version = IpV4 | IpV6

primrec ip_version_of :: "ip_addr \<Rightarrow> ip_version" where
  "ip_version_of (V4 a) = IpV4"
| "ip_version_of (V6 a) = IpV6"

datatype ip_availability = Ipv4 | Ipv6 | Ipv4AndIpv6

definition avail_has_ipv4 :: "ip_availability \<Rightarrow> bool" where
  "avail_has_ipv4 a \<longleftrightarrow> a = Ipv4 \<or> a = Ipv4AndIpv6"

definition avail_has_ipv6 :: "ip_availability \<Rightarrow> bool" where
  "avail_has_ipv6 a \<longleftrightarrow> a = Ipv6 \<or> a = Ipv4AndIpv6"

datatype connectivity = Offline | PresumeOnline | Online ip_availability

definition is_offline :: "connectivity \<Rightarrow> bool" where
  "is_offline c \<longleftrightarrow> c = Offline"

definition is_online :: "connectivity \<Rightarrow> bool" where
  "is_online c \<longleftrightarrow> \<not> is_offline c"

primrec availability :: "connectivity \<Rightarrow> ip_availability option" where
  "availability (Online a) = Some a"
| "availability PresumeOnline = Some Ipv4"
| "availability Offline = None"

definition has_ipv4 :: "connectivity \<Rightarrow> bool" where
  "has_ipv4 c = (case map_option avail_has_ipv4 (availability c) of None \<Rightarrow> False | Some b \<Rightarrow> b)"

definition has_ipv6 :: "connectivity \<Rightarrow> bool" where
  "has_ipv6 c = (case map_option avail_has_ipv6 (availability c) of None \<Rightarrow> False | Some b \<Rightarrow> b)"

definition has_family :: "connectivity \<Rightarrow> ip_version \<Rightarrow> bool" where
  "has_family c v = (case v of IpV4 \<Rightarrow> has_ipv4 c | IpV6 \<Rightarrow> has_ipv6 c)"

fun connectivity_new :: "bool \<Rightarrow> bool \<Rightarrow> connectivity" where
  "connectivity_new True True = Online Ipv4AndIpv6"
| "connectivity_new True False = Online Ipv4"
| "connectivity_new False True = Online Ipv6"
| "connectivity_new False False = Offline"

lemma connectivity_new_spec:
  "has_ipv4 (connectivity_new v4 v6) = v4"
  "has_ipv6 (connectivity_new v4 v6) = v6"
  "is_offline (connectivity_new v4 v6) = (\<not> v4 \<and> \<not> v6)"
  by (cases v4; cases v6; simp add: has_ipv4_def has_ipv6_def avail_has_ipv4_def
      avail_has_ipv6_def is_offline_def)+

lemma availability_None_iff: "availability c = None \<longleftrightarrow> is_offline c"
  by (cases c) (auto simp: is_offline_def)

section \<open>Proxies and obfuscation\<close>

datatype proxy_type = ProxyShadowsocks | ProxyCustom

record proxy_endpoint =
  pe_endpoint :: endpoint
  pe_proxy_type :: proxy_type

text \<open>Lengths are in bytes: the strings of the model are byte strings.\<close>

datatype proxy_error = InvalidSocksAuthValues string

record socks_auth =
  auth_username :: string
  auth_password :: string

definition socks_auth_new :: "string \<Rightarrow> string \<Rightarrow> (proxy_error, socks_auth) result" where
  "socks_auth_new username password =
     (if \<not> (1 \<le> length password \<and> length password \<le> 255)
      then Inl (InvalidSocksAuthValues ''Password length should between 1 and 255 bytes'')
      else if \<not> (1 \<le> length username \<and> length username \<le> 255)
      then Inl (InvalidSocksAuthValues ''Username length should between 1 and 255 bytes'')
      else Inr \<lparr>auth_username = username, auth_password = password\<rparr>)"

record shadowsocks =
  ss_endpoint :: socket_addr
  ss_password :: string
  ss_cipher :: string

record socks5_local =
  sl_remote_endpoint :: endpoint
  sl_local_port :: u16

record socks5_remote =
  sr_endpoint :: socket_addr
  sr_auth :: "socks_auth option"

datatype custom_proxy =
  Shadowsocks shadowsocks
| Socks5Local socks5_local
| Socks5Remote socks5_remote

fun get_remote_endpoint :: "custom_proxy \<Rightarrow> proxy_endpoint" where
  "get_remote_endpoint (Socks5Local settings) =
     \<lparr>pe_endpoint = sl_remote_endpoint settings, pe_proxy_type = ProxyCustom\<rparr>"
| "get_remote_endpoint (Socks5Remote settings) =
     \<lparr>pe_endpoint = endpoint_from_socket_address (sr_endpoint settings) Tcp,
      pe_proxy_type = ProxyCustom\<rparr>"
| "get_remote_endpoint (Shadowsocks settings) =
     \<lparr>pe_endpoint = endpoint_from_socket_address (ss_endpoint settings) Tcp,
      pe_proxy_type = ProxyShadowsocks\<rparr>"

datatype obfuscator_config =
  CfgUdp2Tcp socket_addr
| CfgShadowsocks socket_addr
| CfgQuic string socket_addr string
| CfgLwo socket_addr

fun obfuscator_endpoint :: "obfuscator_config \<Rightarrow> endpoint" where
  "obfuscator_endpoint (CfgUdp2Tcp a) = Endpoint a Tcp"
| "obfuscator_endpoint (CfgShadowsocks a) = Endpoint a Udp"
| "obfuscator_endpoint (CfgQuic host a token) = Endpoint a Udp"
| "obfuscator_endpoint (CfgLwo a) = Endpoint a Udp"

datatype obfuscators =
  ObfSingle obfuscator_config
| ObfMultiplexer "socket_addr option" "obfuscator_config \<times> obfuscator_config list"

fun multiplexer :: "socket_addr option \<Rightarrow> obfuscator_config list \<Rightarrow> obfuscators option" where
  "multiplexer direct [] = None"
| "multiplexer direct (first # remaining) = Some (ObfMultiplexer direct (first, remaining))"

fun obfuscators_endpoints :: "obfuscators \<Rightarrow> endpoint list" where
  "obfuscators_endpoints (ObfSingle config) = [obfuscator_endpoint config]"
| "obfuscators_endpoints (ObfMultiplexer direct (first, remaining)) =
     remdups_adj (sort
       ((case direct of Some d \<Rightarrow> [Endpoint d Udp] | None \<Rightarrow> []) @
        obfuscator_endpoint first # map obfuscator_endpoint remaining))"

datatype obfuscation_type = ObfTypeUdp2Tcp | ObfTypeShadowsocks | ObfTypeQuic | ObfTypeLwo

record obfuscation_endpoint =
  oe_endpoint :: endpoint
  oe_type :: obfuscation_type

datatype obfuscation_info =
  InfoSingle obfuscation_endpoint
| InfoMultiplexer "endpoint option" "obfuscation_endpoint list"

definition obfuscation_endpoint_of :: "obfuscator_config \<Rightarrow> obfuscation_endpoint" where
  "obfuscation_endpoint_of config =
     \<lparr>oe_endpoint = obfuscator_endpoint config,
      oe_type = (case config of
         CfgUdp2Tcp _ \<Rightarrow> ObfTypeUdp2Tcp
       | CfgShadowsocks _ \<Rightarrow> ObfTypeShadowsocks
       | CfgQuic _ _ _ \<Rightarrow> ObfTypeQuic
       | CfgLwo _ \<Rightarrow> ObfTypeLwo)\<rparr>"

fun obfuscation_info_of :: "obfuscators \<Rightarrow> obfuscation_info" where
  "obfuscation_info_of (ObfMultiplexer direct (first, remaining)) =
     InfoMultiplexer (map_option (\<lambda>d. Endpoint d Udp) direct)
       (map obfuscation_endpoint_of (first # remaining))"
| "obfuscation_info_of (ObfSingle config) = InfoSingle (obfuscation_endpoint_of config)"

fun info_endpoints :: "obfuscation_info \<Rightarrow> endpoint list" where
  "info_endpoints (InfoSingle ep) = [oe_endpoint ep]"
| "info_endpoints (InfoMultiplexer direct obfuscators) =
     (case direct of Some d \<Rightarrow> [d] | None \<Rightarrow> []) @ map oe_endpoint obfuscators"

section \<open>Tunnel parameters\<close>

text \<open>
  Keys are byte strings. The fields no operation of the model reads are kept, so that the
  records are those of the source.
\<close>

record peer_config =
  pc_public_key :: "u8 list"
  pc_allowed_ips :: "ip_network list"
  pc_endpoint :: socket_addr
  pc_psk :: "u8 list option"
  pc_constant_packet_size :: bool

record tunnel_config =
  tc_private_key :: "u8 list"
  tc_addresses :: "ip_addr list"

record connection_config =
  cc_tunnel :: tunnel_config
  cc_peer :: peer_config
  cc_exit_peer :: "peer_config option"
  cc_ipv4_gateway :: u32
  cc_ipv6_gateway :: "u128 option"
  cc_fwmark :: "u32 option"

definition get_endpoint :: "connection_config \<Rightarrow> endpoint" where
  "get_endpoint c = Endpoint (pc_endpoint (cc_peer c)) Udp"

definition get_exit_endpoint :: "connection_config \<Rightarrow> endpoint option" where
  "get_exit_endpoint c = map_option (\<lambda>peer. Endpoint (pc_endpoint peer) Udp) (cc_exit_peer c)"

record wg_tunnel_options =
  wo_mtu :: "u16 option"
  wo_quantum_resistant :: bool
  wo_daita :: bool

record generic_tunnel_options =
  enable_ipv6 :: bool

record wg_tunnel_parameters =
  wg_connection :: connection_config
  wg_options :: wg_tunnel_options
  wg_generic_options :: generic_tunnel_options
  wg_obfuscation :: "obfuscators option"

definition wg_next_hop_endpoints :: "wg_tunnel_parameters \<Rightarrow> endpoint list" where
  "wg_next_hop_endpoints p =
     (case wg_obfuscation p of
        Some proxy \<Rightarrow> obfuscators_endpoints proxy
      | None \<Rightarrow> [get_endpoint (wg_connection p)])"

record ovpn_connection_config =
  oc_endpoint :: endpoint
  oc_username :: string
  oc_password :: string

record ovpn_tunnel_parameters =
  ov_config :: ovpn_connection_config
  ov_mssfix :: "u16 option"
  ov_generic_options :: generic_tunnel_options
  ov_proxy :: "custom_proxy option"
  ov_fwmark :: u32

datatype tunnel_parameters =
  OpenVpn ovpn_tunnel_parameters
| Wireguard wg_tunnel_parameters

datatype tunnel_type = TypeOpenVpn | TypeWireguard

record tunnel_endpoint =
  te_endpoint :: endpoint
  te_tunnel_type :: tunnel_type
  te_quantum_resistant :: bool
  te_proxy :: "proxy_endpoint option"
  te_obfuscation :: "obfuscation_info option"
  te_entry_endpoint :: "endpoint option"
  te_tunnel_interface :: "string option"
  te_daita :: bool

fun get_tunnel_endpoint :: "tunnel_parameters \<Rightarrow> tunnel_endpoint" where
  "get_tunnel_endpoint (OpenVpn params) =
     \<lparr>te_endpoint = oc_endpoint (ov_config params),
      te_tunnel_type = TypeOpenVpn,
      te_quantum_resistant = False,
      te_proxy = map_option get_remote_endpoint (ov_proxy params),
      te_obfuscation = None,
      te_entry_endpoint = None,
      te_tunnel_interface = None,
      te_daita = False\<rparr>"
| "get_tunnel_endpoint (Wireguard params) =
     \<lparr>te_endpoint = (case get_exit_endpoint (wg_connection params) of
          Some e \<Rightarrow> e | None \<Rightarrow> get_endpoint (wg_connection params)),
      te_tunnel_type = TypeWireguard,
      te_quantum_resistant = wo_quantum_resistant (wg_options params),
      te_proxy = None,
      te_obfuscation = map_option obfuscation_info_of (wg_obfuscation params),
      te_entry_endpoint = map_option (\<lambda>_. get_endpoint (wg_connection params))
        (get_exit_endpoint (wg_connection params)),
      te_tunnel_interface = None,
      te_daita = wo_daita (wg_options params)\<rparr>"

fun get_next_hop_endpoints :: "tunnel_parameters \<Rightarrow> endpoint list" where
  "get_next_hop_endpoints (OpenVpn params) =
     (case ov_proxy params of
        Some proxy \<Rightarrow> [pe_endpoint (get_remote_endpoint proxy)]
      | None \<Rightarrow> [oc_endpoint (ov_config params)])"
| "get_next_hop_endpoints (Wireguard params) = wg_next_hop_endpoints params"

fun get_exit_hop_endpoint :: "tunnel_parameters \<Rightarrow> endpoint option" where
  "get_exit_hop_endpoint (OpenVpn params) = None"
| "get_exit_hop_endpoint (Wireguard params) = get_exit_endpoint (wg_connection params)"

fun get_generic_options :: "tunnel_parameters \<Rightarrow> generic_tunnel_options" where
  "get_generic_options (OpenVpn params) = ov_generic_options params"
| "get_generic_options (Wireguard params) = wg_generic_options params"

fun get_openvpn_local_proxy_settings :: "tunnel_parameters \<Rightarrow> socks5_local option" where
  "get_openvpn_local_proxy_settings (OpenVpn params) =
     (case ov_proxy params of
        Some (Socks5Local local_settings) \<Rightarrow> Some local_settings
      | _ \<Rightarrow> None)"
| "get_openvpn_local_proxy_settings (Wireguard params) = None"

section \<open>Tunnel metadata, events and errors\<close>

record tunnel_metadata =
  tm_interface :: string
  tm_ips :: "ip_addr list"
  tm_ipv4_gateway :: u32
  tm_ipv6_gateway :: "u128 option"

definition gateways :: "tunnel_metadata \<Rightarrow> ip_addr list" where
  "gateways m = V4 (tm_ipv4_gateway m) #
     (case tm_ipv6_gateway m of Some g \<Rightarrow> [V6 g] | None \<Rightarrow> [])"

datatype tunnel_event =
  EvAuthFailed "string option"
| EvInterfaceUp tunnel_metadata allowed_tunnel_traffic
| EvUp tunnel_metadata
| EvDown

datatype parameter_generation_error =
  NoMatchingRelay
| NoMatchingBridgeRelay
| NoWireguardKey
| CustomTunnelHostResolutionError
| IpVersionUnavailable ip_version

datatype firewall_policy_error = FirewallGeneric

datatype error_state_cause =
  AuthFailed "string option"
| Ipv6Unavailable
| SetFirewallPolicyError firewall_policy_error
| SetDnsError
| StartTunnelError
| TunnelParameterError parameter_generation_error
| IsOffline

record error_state_info =
  es_cause :: error_state_cause
  es_block_failure :: "firewall_policy_error option"

definition is_blocking :: "error_state_info \<Rightarrow> bool" where
  "is_blocking e \<longleftrightarrow> es_block_failure e = None"

datatype action_after_disconnect = ActionNothing | ActionBlock | ActionReconnect

datatype tunnel_state_transition =
  TransDisconnected bool
| TransConnecting tunnel_endpoint
| TransConnected tunnel_endpoint
| TransDisconnecting action_after_disconnect
| TransError error_state_info

section \<open>DNS configuration\<close>

datatype dns_config =
  DnsDefault
| DnsOverride "ip_addr list" "ip_addr list"

record resolved_dns_config =
  tunnel_dns :: "ip_addr list"
  non_tunnel_dns :: "ip_addr list"

definition dns_from_addresses :: "ip_addr list \<Rightarrow> ip_addr list \<Rightarrow> dns_config" where
  "dns_from_addresses tunnel non_tunnel = DnsOverride tunnel non_tunnel"

fun dns_resolve :: "dns_config \<Rightarrow> ip_addr list \<Rightarrow> resolved_dns_config" where
  "dns_resolve DnsDefault default_tun_config =
     \<lparr>tunnel_dns = default_tun_config, non_tunnel_dns = []\<rparr>"
| "dns_resolve (DnsOverride tunnel non_tunnel) default_tun_config =
     \<lparr>tunnel_dns = tunnel, non_tunnel_dns = non_tunnel\<rparr>"

definition dns_addresses :: "resolved_dns_config \<Rightarrow> ip_addr list" where
  "dns_addresses c = non_tunnel_dns c @ tunnel_dns c"

text \<open>\<^verbatim>\<open>IpAddr::is_loopback\<close>: \<^verbatim>\<open>127.0.0.0/8\<close>, and \<^verbatim>\<open>::1\<close>.\<close>

fun ip_is_loopback :: "ip_addr \<Rightarrow> bool" where
  "ip_is_loopback (V4 a) = (drop_bit 24 a = 127)"
| "ip_is_loopback (V6 a) = (a = 1)"

definition dns_is_loopback :: "resolved_dns_config \<Rightarrow> bool" where
  "dns_is_loopback c =
     (let (loopback_addrs, non_loopback_addrs) =
        partition ip_is_loopback (tunnel_dns c @ non_tunnel_dns c)
      in loopback_addrs \<noteq> [] \<and> non_loopback_addrs = [])"

section \<open>Facts about the data\<close>

lemma socks_auth_new_ok_iff:
  "is_err (socks_auth_new u p) \<longleftrightarrow> u = [] \<or> p = [] \<or> 255 < length u \<or> 255 < length p"
  by (cases u; cases p) (auto simp: socks_auth_new_def)

text \<open>The endpoints of a multiplexer: each listed once, and none forgotten.\<close>

lemma obfuscators_endpoints_distinct: "distinct (obfuscators_endpoints obf)"
  by (cases obf rule: obfuscators_endpoints.cases) (simp_all only: obfuscators_endpoints.simps
      remdups_adj_sort_distinct distinct.simps list.set empty_iff not_False_eq_True simp_thms)

lemma set_obfuscators_endpoints:
  "set (obfuscators_endpoints obf) = set (info_endpoints (obfuscation_info_of obf))"
  by (cases obf rule: obfuscators_endpoints.cases)
    (auto simp: obfuscation_endpoint_of_def split: option.splits)

lemma get_next_hop_endpoints_nonempty: "get_next_hop_endpoints params \<noteq> []"
proof (cases params)
  case (Wireguard wg)
  have "obfuscators_endpoints obf \<noteq> []" for obf
    by (cases obf rule: obfuscators_endpoints.cases)
      (auto simp: set_empty [symmetric] simp del: set_empty)
  with Wireguard show ?thesis
    by (auto simp: wg_next_hop_endpoints_def split: option.splits)
qed (auto split: option.splits)

lemma dns_is_loopback_iff:
  "dns_is_loopback c \<longleftrightarrow>
     dns_addresses c \<noteq> [] \<and> (\<forall>a \<in> set (dns_addresses c). ip_is_loopback a)"
  by (auto simp: dns_is_loopback_def dns_addresses_def filter_empty_conv o_def)

end
