(* ===== verification/Firewall_Policy.thy ===== *)
theory Firewall_Policy
  imports Net_Types
begin

text \<open>
  \<^verbatim>\<open>src/talpid-core/src/firewall/mod.rs\<close>: the policies the tunnel state machine asks the
  firewall to enforce, their accessors, and the address constants the platform
  implementations share.
\<close>

section \<open>Constants\<close>

definition IPV6_LINK_LOCAL :: ip_network where
  "IPV6_LINK_LOCAL = NetV6 (ipv6_addr 0xfe80 0 0 0 0 0 0 0) 10"

definition DHCPV6_SERVER_ADDRS :: "ip_addr list" where
  "DHCPV6_SERVER_ADDRS =
     [V6 (ipv6_addr 0xff02 0 0 0 0 0 1 2), V6 (ipv6_addr 0xff05 0 0 0 0 0 1 3)]"

definition ROUTER_SOLICITATION_OUT_DST_ADDR :: ip_addr where
  "ROUTER_SOLICITATION_OUT_DST_ADDR = V6 (ipv6_addr 0xff02 0 0 0 0 0 0 2)"

definition SOLICITED_NODE_MULTICAST :: ip_network where
  "SOLICITED_NODE_MULTICAST = NetV6 (ipv6_addr 0xff02 0 0 0 0 1 0xff00 0) 104"

definition LOOPBACK_NETS :: "ip_network list" where
  "LOOPBACK_NETS = [NetV4 (ipv4_addr 127 0 0 0) 8, NetV6 (ipv6_addr 0 0 0 0 0 0 0 1) 128]"

definition BROADCAST :: ip_addr where
  "BROADCAST = V4 (ipv4_addr 255 255 255 255)"

definition DHCPV4_SERVER_PORT :: u16 where "DHCPV4_SERVER_PORT = 67"
definition DHCPV4_CLIENT_PORT :: u16 where "DHCPV4_CLIENT_PORT = 68"
definition DHCPV6_SERVER_PORT :: u16 where "DHCPV6_SERVER_PORT = 547"
definition DHCPV6_CLIENT_PORT :: u16 where "DHCPV6_CLIENT_PORT = 546"
definition ROOT_UID :: u32 where "ROOT_UID = 0"

definition is_local_address :: "ip_addr \<Rightarrow> bool" where
  "is_local_address address =
     list_ex (\<lambda>net. net_contains net address) (ALLOWED_LAN_NETS @ LOOPBACK_NETS)"

section \<open>Policies\<close>

datatype firewall_policy =
  PolicyConnecting "allowed_endpoint list" "tunnel_metadata option" bool allowed_endpoint
    allowed_tunnel_traffic
| PolicyConnected "allowed_endpoint list" tunnel_metadata bool resolved_dns_config
| PolicyBlocked bool "allowed_endpoint option"

fun policy_peer_endpoints :: "firewall_policy \<Rightarrow> allowed_endpoint list option" where
  "policy_peer_endpoints (PolicyConnecting peers tunnel lan ep traffic) = Some peers"
| "policy_peer_endpoints (PolicyConnected peers tunnel lan dns) = Some peers"
| "policy_peer_endpoints (PolicyBlocked lan blocked_ep) = None"

fun policy_allowed_endpoint :: "firewall_policy \<Rightarrow> allowed_endpoint option" where
  "policy_allowed_endpoint (PolicyConnecting peers tunnel lan ep traffic) = Some ep"
| "policy_allowed_endpoint (PolicyBlocked lan (Some ep)) = Some ep"
| "policy_allowed_endpoint _ = None"

fun policy_tunnel :: "firewall_policy \<Rightarrow> tunnel_metadata option" where
  "policy_tunnel (PolicyConnecting peers (Some tunnel) lan ep traffic) = Some tunnel"
| "policy_tunnel (PolicyConnected peers tunnel lan dns) = Some tunnel"
| "policy_tunnel _ = None"

fun policy_allowed_tunnel_traffic :: "firewall_policy \<Rightarrow> allowed_tunnel_traffic" where
  "policy_allowed_tunnel_traffic (PolicyConnecting peers tunnel lan ep traffic) = traffic"
| "policy_allowed_tunnel_traffic (PolicyConnected peers tunnel lan dns) = TrafficAll"
| "policy_allowed_tunnel_traffic (PolicyBlocked lan blocked_ep) = TrafficNone"

fun policy_allow_lan :: "firewall_policy \<Rightarrow> bool" where
  "policy_allow_lan (PolicyConnecting peers tunnel lan ep traffic) = lan"
| "policy_allow_lan (PolicyConnected peers tunnel lan dns) = lan"
| "policy_allow_lan (PolicyBlocked lan blocked_ep) = lan"

text \<open>\<^verbatim>\<open>FirewallArguments\<close> and the state to enter while the firewall is set up.\<close>

datatype initial_firewall_state = InitialNone | InitialBlocked allowed_endpoint

record firewall_arguments =
  fa_initial_state :: initial_firewall_state
  fa_allow_lan :: bool
  fa_fwmark :: u32

end
