(* ===== verification/Nftables.thy ===== *)
theory Nftables
  imports Prelude Net_Types
begin

text \<open>
  The packet filter that \<^verbatim>\<open>src/talpid-core/src/firewall/linux.rs\<close> programs. The rules are lists
  of expressions for the kernel's one-register machine, as the macro \<^verbatim>\<open>nft_expr!\<close> of the
  \<^verbatim>\<open>nftnl\<close> crate writes them. The machine itself is not part of the repository: one step of it is
  the parameter \<open>step\<close> of every definition here, and the locale \<open>nft_vm\<close> states what the
  nftables documentation says of each expression that the code uses. Loads of header fields are
  specified only for packets that have the header, so a rule that loads a port without
  checking the protocol first has no proved meaning.
\<close>

section \<open>Expressions\<close>

datatype nft_data = D8 u8 | D16 u16 | D32 u32 | DAddr4 u32 | DAddr6 u128

datatype nft_meta =
  MetaIif | MetaOif | MetaNfproto | MetaL4proto | MetaMark | MetaSkuid | MetaCgroup

datatype nft_payload =
  Ipv4Saddr | Ipv4Daddr | Ipv6Saddr | Ipv6Daddr
| UdpSport | UdpDport | TcpSport | TcpDport | Icmpv6Type | Icmpv6Code

datatype nft_cmp_op = CmpEq | CmpNeq

datatype nft_rejection = IcmpPortUnreach | TcpRst

datatype nft_verdict = VAccept | VDrop | VReject nft_rejection

datatype nft_expr =
  Meta nft_meta
| MetaMarkSet
| CtMark
| CtMarkSet
| CtState
| Payload nft_payload
| Cmp nft_cmp_op nft_data
| Bitwise nft_data nft_data
| Immediate nft_data
| Masquerade
| Counter
| Verdict nft_verdict

type_synonym nft_rule = "nft_expr list"

section \<open>Packets\<close>

datatype ip_header = HdrV4 u32 u32 | HdrV6 u128 u128

record packet =
  p_iif :: u32
  p_oif :: u32
  p_ip :: ip_header
  p_l4proto :: u8
  p_sport :: u16
  p_dport :: u16
  p_icmp_type :: u8
  p_icmp_code :: u8
  p_mark :: u32
  p_ct_mark :: u32
  p_ct_state :: u32
  p_skuid :: "u32 option"
  p_cgroup :: u32

definition p_src :: "packet \<Rightarrow> ip_addr" where
  "p_src p = (case p_ip p of HdrV4 s d \<Rightarrow> V4 s | HdrV6 s d \<Rightarrow> V6 s)"

definition p_dst :: "packet \<Rightarrow> ip_addr" where
  "p_dst p = (case p_ip p of HdrV4 s d \<Rightarrow> V4 d | HdrV6 s d \<Rightarrow> V6 d)"

abbreviation NFPROTO_IPV4 :: u8 where "NFPROTO_IPV4 \<equiv> 2"
abbreviation NFPROTO_IPV6 :: u8 where "NFPROTO_IPV6 \<equiv> 10"
abbreviation IPPROTO_TCP :: u8 where "IPPROTO_TCP \<equiv> 6"
abbreviation IPPROTO_UDP :: u8 where "IPPROTO_UDP \<equiv> 17"
abbreviation IPPROTO_ICMPV6 :: u8 where "IPPROTO_ICMPV6 \<equiv> 58"

definition p_nfproto :: "packet \<Rightarrow> u8" where
  "p_nfproto p = (case p_ip p of HdrV4 s d \<Rightarrow> NFPROTO_IPV4 | HdrV6 s d \<Rightarrow> NFPROTO_IPV6)"

text \<open>\<^verbatim>\<open>u16::to_be\<close> on a little-endian host, the order in which a header holds its ports.\<close>

definition u16_to_be :: "u16 \<Rightarrow> u16" where
  "u16_to_be x = push_bit 8 x OR drop_bit 8 x"

lemma u16_to_be_involution: "u16_to_be (u16_to_be x) = x"
  unfolding u16_to_be_def
  by (rule bit_word_eqI) (auto simp: bit_simps)

lemma u16_to_be_inject [simp]: "u16_to_be x = u16_to_be y \<longleftrightarrow> x = y"
  by (metis u16_to_be_involution)

section \<open>The machine\<close>

text \<open>One step: go on with a new register, leave the rule, or end with a verdict.\<close>

datatype nft_outcome = Next nft_data packet | Break packet | Done nft_verdict packet

type_synonym nft_step = "nft_expr \<Rightarrow> nft_data \<Rightarrow> packet \<Rightarrow> nft_outcome"

fun run_exprs :: "nft_step \<Rightarrow> nft_expr list \<Rightarrow> nft_data \<Rightarrow> packet \<Rightarrow> nft_outcome" where
  "run_exprs step [] r p = Next r p"
| "run_exprs step (e # es) r p =
     (case step e r p of
        Next r' p' \<Rightarrow> run_exprs step es r' p'
      | Break p' \<Rightarrow> Break p'
      | Done v p' \<Rightarrow> Done v p')"

text \<open>The rules of a chain in order, until one gives a verdict; then the chain's policy.\<close>

fun run_chain :: "nft_step \<Rightarrow> nft_verdict \<Rightarrow> nft_rule list \<Rightarrow> packet \<Rightarrow> nft_verdict \<times> packet"
where
  "run_chain step policy [] p = (policy, p)"
| "run_chain step policy (rule # rules) p =
     (case run_exprs step rule (D32 0) p of
        Next r p' \<Rightarrow> run_chain step policy rules p'
      | Break p' \<Rightarrow> run_chain step policy rules p'
      | Done v p' \<Rightarrow> (v, p'))"

lemma run_exprs_append:
  "run_exprs step (es @ fs) r p =
     (case run_exprs step es r p of
        Next r' p' \<Rightarrow> run_exprs step fs r' p'
      | Break p' \<Rightarrow> Break p'
      | Done v p' \<Rightarrow> Done v p')"
  by (induction es arbitrary: r p) (auto split: nft_outcome.splits)

section \<open>What the documentation says of the expressions\<close>

locale nft_vm =
  fixes step :: nft_step
  assumes load_iif: "step (Meta MetaIif) r p = Next (D32 (p_iif p)) p"
    and load_oif: "step (Meta MetaOif) r p = Next (D32 (p_oif p)) p"
    and load_nfproto: "step (Meta MetaNfproto) r p = Next (D8 (p_nfproto p)) p"
    and load_l4proto: "step (Meta MetaL4proto) r p = Next (D8 (p_l4proto p)) p"
    and load_mark: "step (Meta MetaMark) r p = Next (D32 (p_mark p)) p"
    and load_cgroup: "step (Meta MetaCgroup) r p = Next (D32 (p_cgroup p)) p"
    and load_skuid: "step (Meta MetaSkuid) r p =
          (case p_skuid p of Some uid \<Rightarrow> Next (D32 uid) p | None \<Rightarrow> Break p)"
    and load_ct_mark: "step CtMark r p = Next (D32 (p_ct_mark p)) p"
    and load_ct_state: "step CtState r p = Next (D32 (p_ct_state p)) p"
    and load_v4_src: "p_ip p = HdrV4 s d \<Longrightarrow> step (Payload Ipv4Saddr) r p = Next (DAddr4 s) p"
    and load_v4_dst: "p_ip p = HdrV4 s d \<Longrightarrow> step (Payload Ipv4Daddr) r p = Next (DAddr4 d) p"
    and load_v6_src: "p_ip p = HdrV6 s' d' \<Longrightarrow> step (Payload Ipv6Saddr) r p = Next (DAddr6 s') p"
    and load_v6_dst: "p_ip p = HdrV6 s' d' \<Longrightarrow> step (Payload Ipv6Daddr) r p = Next (DAddr6 d') p"
    and load_udp_sport: "p_l4proto p = IPPROTO_UDP \<Longrightarrow>
          step (Payload UdpSport) r p = Next (D16 (u16_to_be (p_sport p))) p"
    and load_udp_dport: "p_l4proto p = IPPROTO_UDP \<Longrightarrow>
          step (Payload UdpDport) r p = Next (D16 (u16_to_be (p_dport p))) p"
    and load_tcp_sport: "p_l4proto p = IPPROTO_TCP \<Longrightarrow>
          step (Payload TcpSport) r p = Next (D16 (u16_to_be (p_sport p))) p"
    and load_tcp_dport: "p_l4proto p = IPPROTO_TCP \<Longrightarrow>
          step (Payload TcpDport) r p = Next (D16 (u16_to_be (p_dport p))) p"
    and load_icmpv6_type: "p_l4proto p = IPPROTO_ICMPV6 \<Longrightarrow>
          step (Payload Icmpv6Type) r p = Next (D8 (p_icmp_type p)) p"
    and load_icmpv6_code: "p_l4proto p = IPPROTO_ICMPV6 \<Longrightarrow>
          step (Payload Icmpv6Code) r p = Next (D8 (p_icmp_code p)) p"
    and cmp_eq: "step (Cmp CmpEq x) r p = (if r = x then Next r p else Break p)"
    and cmp_neq: "step (Cmp CmpNeq x) r p = (if r \<noteq> x then Next r p else Break p)"
    and bitwise_32: "step (Bitwise (D32 m) (D32 y)) (D32 a) p = Next (D32 ((a AND m) XOR y)) p"
    and bitwise_v4:
      "step (Bitwise (DAddr4 m) (DAddr4 y)) (DAddr4 a) p = Next (DAddr4 ((a AND m) XOR y)) p"
    and bitwise_v6:
      "step (Bitwise (DAddr6 m') (DAddr6 y')) (DAddr6 b) p = Next (DAddr6 ((b AND m') XOR y')) p"
    and immediate: "step (Immediate x) r p = Next x p"
    and set_mark: "step MetaMarkSet (D32 a) p = Next (D32 a) (p\<lparr>p_mark := a\<rparr>)"
    and set_ct_mark: "step CtMarkSet (D32 a) p = Next (D32 a) (p\<lparr>p_ct_mark := a\<rparr>)"
    and masquerade: "step Masquerade r p = Done VAccept p"
    and counter: "step Counter r p = Next r p"
    and verdict: "step (Verdict v) r p = Done v p"
begin

lemmas step_simps = load_iif load_oif load_nfproto load_l4proto load_mark load_cgroup load_skuid
  load_ct_mark load_ct_state load_v4_src load_v4_dst load_v6_src load_v6_dst
  load_udp_sport load_udp_dport load_tcp_sport load_tcp_dport load_icmpv6_type load_icmpv6_code
  cmp_eq cmp_neq bitwise_32 bitwise_v4 bitwise_v6 immediate set_mark set_ct_mark masquerade
  counter verdict

end

text \<open>
  A machine with these laws: the expressions evaluated as documented, a load of a header that
  the packet lacks leaving the rule.
\<close>

fun nft_load_payload :: "nft_payload \<Rightarrow> packet \<Rightarrow> nft_data option" where
  "nft_load_payload Ipv4Saddr p = (case p_ip p of HdrV4 s d \<Rightarrow> Some (DAddr4 s) | _ \<Rightarrow> None)"
| "nft_load_payload Ipv4Daddr p = (case p_ip p of HdrV4 s d \<Rightarrow> Some (DAddr4 d) | _ \<Rightarrow> None)"
| "nft_load_payload Ipv6Saddr p = (case p_ip p of HdrV6 s d \<Rightarrow> Some (DAddr6 s) | _ \<Rightarrow> None)"
| "nft_load_payload Ipv6Daddr p = (case p_ip p of HdrV6 s d \<Rightarrow> Some (DAddr6 d) | _ \<Rightarrow> None)"
| "nft_load_payload UdpSport p =
     (if p_l4proto p = IPPROTO_UDP then Some (D16 (u16_to_be (p_sport p))) else None)"
| "nft_load_payload UdpDport p =
     (if p_l4proto p = IPPROTO_UDP then Some (D16 (u16_to_be (p_dport p))) else None)"
| "nft_load_payload TcpSport p =
     (if p_l4proto p = IPPROTO_TCP then Some (D16 (u16_to_be (p_sport p))) else None)"
| "nft_load_payload TcpDport p =
     (if p_l4proto p = IPPROTO_TCP then Some (D16 (u16_to_be (p_dport p))) else None)"
| "nft_load_payload Icmpv6Type p =
     (if p_l4proto p = IPPROTO_ICMPV6 then Some (D8 (p_icmp_type p)) else None)"
| "nft_load_payload Icmpv6Code p =
     (if p_l4proto p = IPPROTO_ICMPV6 then Some (D8 (p_icmp_code p)) else None)"

fun nft_load_meta :: "nft_meta \<Rightarrow> packet \<Rightarrow> nft_data option" where
  "nft_load_meta MetaIif p = Some (D32 (p_iif p))"
| "nft_load_meta MetaOif p = Some (D32 (p_oif p))"
| "nft_load_meta MetaNfproto p = Some (D8 (p_nfproto p))"
| "nft_load_meta MetaL4proto p = Some (D8 (p_l4proto p))"
| "nft_load_meta MetaMark p = Some (D32 (p_mark p))"
| "nft_load_meta MetaSkuid p = map_option D32 (p_skuid p)"
| "nft_load_meta MetaCgroup p = Some (D32 (p_cgroup p))"

definition nft_load :: "nft_data option \<Rightarrow> packet \<Rightarrow> nft_outcome" where
  "nft_load x p = (case x of Some r \<Rightarrow> Next r p | None \<Rightarrow> Break p)"

fun nft_bitwise :: "nft_data \<Rightarrow> nft_data \<Rightarrow> nft_data \<Rightarrow> nft_data option" where
  "nft_bitwise (D32 m) (D32 x) (D32 a) = Some (D32 ((a AND m) XOR x))"
| "nft_bitwise (DAddr4 m) (DAddr4 x) (DAddr4 a) = Some (DAddr4 ((a AND m) XOR x))"
| "nft_bitwise (DAddr6 m') (DAddr6 x') (DAddr6 b) = Some (DAddr6 ((b AND m') XOR x'))"
| "nft_bitwise _ _ _ = None"

fun nft_eval :: nft_step where
  "nft_eval (Meta m) r p = nft_load (nft_load_meta m p) p"
| "nft_eval MetaMarkSet r p = (case r of D32 a \<Rightarrow> Next r (p\<lparr>p_mark := a\<rparr>) | _ \<Rightarrow> Break p)"
| "nft_eval CtMark r p = Next (D32 (p_ct_mark p)) p"
| "nft_eval CtMarkSet r p = (case r of D32 a \<Rightarrow> Next r (p\<lparr>p_ct_mark := a\<rparr>) | _ \<Rightarrow> Break p)"
| "nft_eval CtState r p = Next (D32 (p_ct_state p)) p"
| "nft_eval (Payload f) r p = nft_load (nft_load_payload f p) p"
| "nft_eval (Cmp CmpEq x) r p = (if r = x then Next r p else Break p)"
| "nft_eval (Cmp CmpNeq x) r p = (if r \<noteq> x then Next r p else Break p)"
| "nft_eval (Bitwise msk x) r p = nft_load (nft_bitwise msk x r) p"
| "nft_eval (Immediate x) r p = Next x p"
| "nft_eval Masquerade r p = Done VAccept p"
| "nft_eval Counter r p = Next r p"
| "nft_eval (Verdict v) r p = Done v p"

interpretation ref_vm: nft_vm nft_eval
  by unfold_locales (auto simp: nft_load_def split: option.splits)

end
