(* ===== verification/Firewall_Linux.thy ===== *)
theory Firewall_Linux
  imports Firewall_Policy Nftables
begin

text \<open>
  \<^verbatim>\<open>src/talpid-core/src/firewall/linux.rs\<close>: the batch of nftables messages that the Linux
  firewall sends for a policy, one definition per method of \<^verbatim>\<open>PolicyBatch\<close> and per helper
  that adds a check to a rule. The operating system is seen through \<open>fw_env\<close>: the index of an
  interface (\<^verbatim>\<open>if_nametoindex\<close>), the contents of \<^verbatim>\<open>/proc/mounts\<close>, and the debug variable
  that adds counters.
\<close>

section \<open>Environment and errors\<close>

record fw_env =
  fe_ifindex :: "string \<Rightarrow> u32 option"
  fe_proc_mounts :: "string option"
  fe_add_counters :: bool

datatype linux_fw_error =
  NetlinkOpenError
| NetlinkSendError
| NetlinkRecvError
| ProcessNetlinkError
| NetfilterTableNotSetError
| LookupIfaceIndexError string
| FindNetClsMount

text \<open>\<^verbatim>\<open>src/talpid-types/src/cgroup.rs\<close>: where the \<^verbatim>\<open>net_cls\<close> controller is mounted.\<close>

definition parse_mount_line :: "string \<Rightarrow> string option" where
  "parse_mount_line line =
     (case split_on (CHR '' '') line of
        device_type # mount_path # filesystem_type # mount_options # rest \<Rightarrow>
          (if filesystem_type \<noteq> ''cgroup'' then None
           else if \<not> list_ex (\<lambda>key. key = ''net_cls'') (split_on (CHR '','') mount_options)
           then None
           else Some mount_path)
      | _ \<Rightarrow> None)"

definition find_net_cls_mount_inner :: "string \<Rightarrow> string option" where
  "find_net_cls_mount_inner mounts = find_map parse_mount_line (split_on (CHR 0x0A) mounts)"

definition find_net_cls_mount :: "fw_env \<Rightarrow> (unit, string option) result" where
  "find_net_cls_mount env =
     (case fe_proc_mounts env of
        None \<Rightarrow> Inl ()
      | Some mounts \<Rightarrow> Inr (find_net_cls_mount_inner mounts))"

text \<open>\<^verbatim>\<open>src/talpid-core/src/linux/mod.rs\<close>.\<close>

definition iface_index :: "fw_env \<Rightarrow> string \<Rightarrow> (linux_fw_error, u32) result" where
  "iface_index env name =
     (case fe_ifindex env name of
        None \<Rightarrow> Inl (LookupIfaceIndexError name)
      | Some i \<Rightarrow> Inr i)"

text \<open>\<^verbatim>\<open>src/talpid-core/src/split_tunnel/linux.rs\<close>: the marks of excluded processes.\<close>

definition NET_CLS_CLASSID :: u32 where "NET_CLS_CLASSID = 0x4d9f41"
definition SPLIT_TUNNEL_MARK :: u32 where "SPLIT_TUNNEL_MARK = 0xf41"

text \<open>\<^verbatim>\<open>nftnl::expr::ct::States::ESTABLISHED\<close>.\<close>

definition CT_ESTABLISHED :: u32 where "CT_ESTABLISHED = 2"

section \<open>Tables, chains and batches\<close>

datatype proto_family = Inet | FamilyIpv4 | FamilyIpv6

datatype fw_chain = ChainIn | ChainOut | ChainForward | ChainPrerouting | ChainMangle | ChainNat

datatype chain_hook = HookPreRouting | HookIn | HookForward | HookOut | HookPostRouting

datatype chain_type = TypeFilter | TypeRoute | TypeNat

record chain_spec =
  cs_chain :: fw_chain
  cs_hook :: chain_hook
  cs_priority :: int
  cs_type :: "chain_type option"
  cs_policy :: "nft_verdict option"

datatype batch_msg =
  MsgAddTable string proto_family
| MsgDelTable string proto_family
| MsgAddChain chain_spec
| MsgAddRule fw_chain nft_rule

type_synonym batch = "batch_msg list"

definition TABLE_NAME :: string where "TABLE_NAME = ''mullvad''"

definition MANGLE_CHAIN_PRIORITY :: int where "MANGLE_CHAIN_PRIORITY = - 150"
definition PREROUTING_CHAIN_PRIORITY :: int where "PREROUTING_CHAIN_PRIORITY = - 200 + 1"
definition NAT_CHAIN_PRIORITY :: int where "NAT_CHAIN_PRIORITY = 100"

definition batch_add :: "batch_msg \<Rightarrow> batch \<Rightarrow> batch" where
  "batch_add m b = b @ [m]"

definition batch_deprecated_tables :: "batch \<Rightarrow> batch" where
  "batch_deprecated_tables b =
     fold (\<lambda>(name, family) b. batch_add (MsgDelTable name family)
         (batch_add (MsgAddTable name family) b))
       [(''mullvadmangle4'', FamilyIpv4), (''mullvadmangle6'', FamilyIpv6)] b"

definition policy_chains :: "chain_spec list" where
  "policy_chains =
     [\<lparr>cs_chain = ChainPrerouting, cs_hook = HookPreRouting,
       cs_priority = PREROUTING_CHAIN_PRIORITY, cs_type = Some TypeFilter, cs_policy = None\<rparr>,
      \<lparr>cs_chain = ChainOut, cs_hook = HookOut, cs_priority = 0, cs_type = None,
       cs_policy = Some VDrop\<rparr>,
      \<lparr>cs_chain = ChainIn, cs_hook = HookIn, cs_priority = 0, cs_type = None,
       cs_policy = Some VDrop\<rparr>,
      \<lparr>cs_chain = ChainForward, cs_hook = HookForward, cs_priority = 0, cs_type = None,
       cs_policy = Some VDrop\<rparr>,
      \<lparr>cs_chain = ChainMangle, cs_hook = HookOut, cs_priority = MANGLE_CHAIN_PRIORITY,
       cs_type = Some TypeRoute, cs_policy = Some VAccept\<rparr>,
      \<lparr>cs_chain = ChainNat, cs_hook = HookPostRouting, cs_priority = NAT_CHAIN_PRIORITY,
       cs_type = Some TypeNat, cs_policy = Some VAccept\<rparr>]"

definition policy_batch_new :: batch where
  "policy_batch_new =
     fold (\<lambda>c. batch_add (MsgAddChain c)) policy_chains
       (batch_add (MsgAddTable TABLE_NAME Inet)
         (batch_add (MsgDelTable TABLE_NAME Inet)
           (batch_add (MsgAddTable TABLE_NAME Inet) (batch_deprecated_tables []))))"

definition add_rule :: "fw_chain \<Rightarrow> nft_rule \<Rightarrow> batch \<Rightarrow> batch" where
  "add_rule chain rule b = batch_add (MsgAddRule chain rule) b"

section \<open>Checks\<close>

datatype fw_direction = DirIn | DirOut
datatype fw_end = EndSrc | EndDst

definition add_verdict :: "fw_env \<Rightarrow> nft_verdict \<Rightarrow> nft_rule \<Rightarrow> nft_rule" where
  "add_verdict env v rule = rule @ (if fe_add_counters env then [Counter] else []) @ [Verdict v]"

definition ip_data :: "ip_addr \<Rightarrow> nft_data" where
  "ip_data a = (case a of V4 x \<Rightarrow> DAddr4 x | V6 x \<Rightarrow> DAddr6 x)"

definition l3proto :: "ip_addr \<Rightarrow> u8" where
  "l3proto a = (case a of V4 _ \<Rightarrow> NFPROTO_IPV4 | V6 _ \<Rightarrow> NFPROTO_IPV6)"

definition l4proto :: "transport_protocol \<Rightarrow> u8" where
  "l4proto protocol = (case protocol of Udp \<Rightarrow> IPPROTO_UDP | Tcp \<Rightarrow> IPPROTO_TCP)"

definition check_l3proto :: "ip_addr \<Rightarrow> nft_rule \<Rightarrow> nft_rule" where
  "check_l3proto ip rule = rule @ [Meta MetaNfproto, Cmp CmpEq (D8 (l3proto ip))]"

definition check_l4proto :: "transport_protocol \<Rightarrow> nft_rule \<Rightarrow> nft_rule" where
  "check_l4proto protocol rule = rule @ [Meta MetaL4proto, Cmp CmpEq (D8 (l4proto protocol))]"

definition iface_meta :: "fw_direction \<Rightarrow> nft_expr" where
  "iface_meta dir = (case dir of DirIn \<Rightarrow> Meta MetaIif | DirOut \<Rightarrow> Meta MetaOif)"

definition check_iface ::
  "fw_env \<Rightarrow> fw_direction \<Rightarrow> string \<Rightarrow> nft_rule \<Rightarrow> (linux_fw_error, nft_rule) result" where
  "check_iface env dir iface rule =
     and_then (iface_index env iface)
       (\<lambda>i. Inr (rule @ [iface_meta dir, Cmp CmpEq (D32 i)]))"

definition check_not_iface ::
  "fw_env \<Rightarrow> fw_direction \<Rightarrow> string \<Rightarrow> nft_rule \<Rightarrow> (linux_fw_error, nft_rule) result" where
  "check_not_iface env dir iface rule =
     and_then (iface_index env iface)
       (\<lambda>i. Inr (rule @ [iface_meta dir, Cmp CmpNeq (D32 i)]))"

definition addr_payload :: "ip_addr \<Rightarrow> fw_end \<Rightarrow> nft_expr" where
  "addr_payload ip e =
     (case (ip, e) of
        (V4 _, EndSrc) \<Rightarrow> Payload Ipv4Saddr
      | (V4 _, EndDst) \<Rightarrow> Payload Ipv4Daddr
      | (V6 _, EndSrc) \<Rightarrow> Payload Ipv6Saddr
      | (V6 _, EndDst) \<Rightarrow> Payload Ipv6Daddr)"

definition check_net :: "fw_end \<Rightarrow> ip_network \<Rightarrow> nft_rule \<Rightarrow> nft_rule" where
  "check_net e net rule =
     check_l3proto (net_ip net) rule @
     [addr_payload (net_ip net) e,
      Bitwise (ip_data (net_mask net))
        (case net of NetV4 _ _ \<Rightarrow> DAddr4 0 | NetV6 _ _ \<Rightarrow> DAddr6 0),
      Cmp CmpEq (ip_data (net_ip net))]"

definition check_icmpv6 :: "u8 \<Rightarrow> u8 \<Rightarrow> nft_rule \<Rightarrow> nft_rule" where
  "check_icmpv6 type code rule =
     rule @ [Meta MetaL4proto, Cmp CmpEq (D8 IPPROTO_ICMPV6),
             Payload Icmpv6Type, Cmp CmpEq (D8 type),
             Payload Icmpv6Code, Cmp CmpEq (D8 code)]"

definition check_ip :: "fw_end \<Rightarrow> ip_addr \<Rightarrow> nft_rule \<Rightarrow> nft_rule" where
  "check_ip e ip rule = check_l3proto ip rule @ [addr_payload ip e, Cmp CmpEq (ip_data ip)]"

definition port_payload :: "transport_protocol \<Rightarrow> fw_end \<Rightarrow> nft_expr" where
  "port_payload protocol e =
     (case (protocol, e) of
        (Udp, EndSrc) \<Rightarrow> Payload UdpSport
      | (Udp, EndDst) \<Rightarrow> Payload UdpDport
      | (Tcp, EndSrc) \<Rightarrow> Payload TcpSport
      | (Tcp, EndDst) \<Rightarrow> Payload TcpDport)"

definition check_port :: "transport_protocol \<Rightarrow> fw_end \<Rightarrow> u16 \<Rightarrow> nft_rule \<Rightarrow> nft_rule" where
  "check_port protocol e port rule =
     check_l4proto protocol rule @
     [port_payload protocol e, Cmp CmpEq (D16 (u16_to_be port))]"

definition check_endpoint :: "fw_end \<Rightarrow> endpoint \<Rightarrow> nft_rule \<Rightarrow> nft_rule" where
  "check_endpoint e ep rule =
     check_port (ep_protocol ep) e (sa_port (ep_address ep))
       (check_ip e (sa_ip (ep_address ep)) rule)"

definition check_established :: "nft_rule \<Rightarrow> nft_rule" where
  "check_established rule =
     rule @ [CtState, Bitwise (D32 CT_ESTABLISHED) (D32 0), Cmp CmpNeq (D32 0)]"

definition allow_interface_rule ::
  "fw_env \<Rightarrow> fw_direction \<Rightarrow> string \<Rightarrow> (linux_fw_error, nft_rule) result" where
  "allow_interface_rule env dir iface =
     and_then (check_iface env dir iface []) (\<lambda>rule. Inr (add_verdict env VAccept rule))"

definition allow_tunnel_dns_rule ::
  "fw_env \<Rightarrow> proto_family \<Rightarrow> string \<Rightarrow> transport_protocol \<Rightarrow> ip_addr \<Rightarrow>
    (linux_fw_error, nft_rule) result" where
  "allow_tunnel_dns_rule env family iface protocol host =
     and_then (check_iface env DirOut iface []) (\<lambda>rule.
       let rule = check_port protocol EndDst 53 rule;
           rule = (if family = Inet then check_l3proto host rule else rule);
           rule = rule @ [addr_payload host EndDst, Cmp CmpEq (ip_data host)]
       in Inr (add_verdict env VAccept rule))"

section \<open>Rules every policy has\<close>

definition add_rules :: "fw_chain list \<Rightarrow> nft_rule \<Rightarrow> batch \<Rightarrow> batch" where
  "add_rules cs rule b = fold (\<lambda>chain. add_rule chain rule) cs b"

definition add_loopback_rules :: "fw_env \<Rightarrow> batch \<Rightarrow> (linux_fw_error, batch) result" where
  "add_loopback_rules env b =
     and_then (allow_interface_rule env DirOut ''lo'') (\<lambda>out_rule.
       let b = add_rule ChainOut out_rule b in
       and_then (allow_interface_rule env DirIn ''lo'') (\<lambda>in_rule.
         Inr (add_rule ChainIn in_rule b)))"

definition add_dhcp_client_rules :: "fw_env \<Rightarrow> batch \<Rightarrow> batch" where
  "add_dhcp_client_rules env b =
     (let out_v4 = add_verdict env VAccept (check_port Udp EndDst DHCPV4_SERVER_PORT
            (check_ip EndDst BROADCAST (check_port Udp EndSrc DHCPV4_CLIENT_PORT [])));
          b = add_rules [ChainOut, ChainForward] out_v4 b;
          in_v4 = add_verdict env VAccept (check_port Udp EndDst DHCPV4_CLIENT_PORT
            (check_port Udp EndSrc DHCPV4_SERVER_PORT []));
          b = add_rules [ChainIn, ChainForward] in_v4 b;
          out_v6 = (\<lambda>server. add_verdict env VAccept (check_port Udp EndDst DHCPV6_SERVER_PORT
            (check_ip EndDst server (check_port Udp EndSrc DHCPV6_CLIENT_PORT
              (check_net EndSrc IPV6_LINK_LOCAL [])))));
          b = fold (\<lambda>chain b. fold (\<lambda>server. add_rule chain (out_v6 server))
            DHCPV6_SERVER_ADDRS b) [ChainOut, ChainForward] b;
          in_v6 = add_verdict env VAccept (check_port Udp EndDst DHCPV6_CLIENT_PORT
            (check_net EndDst IPV6_LINK_LOCAL (check_port Udp EndSrc DHCPV6_SERVER_PORT
              (check_net EndSrc IPV6_LINK_LOCAL []))))
      in add_rules [ChainIn, ChainForward] in_v6 b)"

definition add_ndp_rules :: "fw_env \<Rightarrow> batch \<Rightarrow> batch" where
  "add_ndp_rules env b =
     (let accept = add_verdict env VAccept;
          b = add_rules [ChainOut, ChainForward]
            (accept (check_icmpv6 133 0 (check_ip EndDst ROUTER_SOLICITATION_OUT_DST_ADDR []))) b;
          b = add_rules [ChainIn, ChainForward]
            (accept (check_icmpv6 134 0 (check_net EndSrc IPV6_LINK_LOCAL []))) b;
          b = add_rules [ChainIn, ChainForward]
            (accept (check_icmpv6 137 0 (check_net EndSrc IPV6_LINK_LOCAL []))) b;
          b = add_rules [ChainOut, ChainForward]
            (accept (check_icmpv6 135 0 (check_net EndDst SOLICITED_NODE_MULTICAST []))) b;
          b = add_rules [ChainOut, ChainForward]
            (accept (check_icmpv6 135 0 (check_net EndDst IPV6_LINK_LOCAL []))) b;
          b = add_rules [ChainIn, ChainForward]
            (accept (check_icmpv6 135 0 (check_net EndSrc IPV6_LINK_LOCAL []))) b;
          b = add_rules [ChainOut, ChainForward]
            (accept (check_icmpv6 136 0 (check_net EndDst IPV6_LINK_LOCAL []))) b
      in add_rules [ChainIn, ChainForward] (accept (check_icmpv6 136 0 [])) b)"

definition add_split_tunneling_rules ::
  "fw_env \<Rightarrow> firewall_policy \<Rightarrow> u32 \<Rightarrow> batch \<Rightarrow> (linux_fw_error, batch) result" where
  "add_split_tunneling_rules env policy fwmark b =
     and_then
       (case policy of
          PolicyConnected peers tunnel lan dns \<Rightarrow>
            fold_result (\<lambda>server b.
              and_then (allow_tunnel_dns_rule env Inet (tm_interface tunnel) Udp server) (\<lambda>rule.
                let b = add_rule ChainMangle rule b in
                and_then (allow_tunnel_dns_rule env Inet (tm_interface tunnel) Tcp server)
                  (\<lambda>rule. Inr (add_rule ChainMangle rule b))))
              (tunnel_dns dns) b
        | _ \<Rightarrow> Inr b)
       (\<lambda>b.
     let b = add_rule ChainMangle
           [Meta MetaCgroup, Cmp CmpEq (D32 NET_CLS_CLASSID),
            Immediate (D32 SPLIT_TUNNEL_MARK), CtMarkSet,
            Immediate (D32 fwmark), MetaMarkSet] b;
         b = add_rules [ChainIn, ChainOut, ChainForward]
           (add_verdict env VAccept [CtMark, Cmp CmpEq (D32 SPLIT_TUNNEL_MARK)]) b
     in
     and_then
       (case policy of
          PolicyConnected peers tunnel lan dns \<Rightarrow>
            and_then (check_iface env DirOut (tm_interface tunnel) []) (\<lambda>rule.
              Inr (add_rule ChainNat (add_verdict env VDrop
                (rule @ [CtMark, Cmp CmpEq (D32 SPLIT_TUNNEL_MARK)])) b))
        | _ \<Rightarrow> Inr b)
       (\<lambda>b.
     and_then (iface_index env ''lo'') (\<lambda>lo.
     let b = add_rule ChainNat
           ([Meta MetaOif, Cmp CmpNeq (D32 lo), CtMark, Cmp CmpEq (D32 SPLIT_TUNNEL_MARK),
             Masquerade] @ (if fe_add_counters env then [Counter] else [])) b
     in
     (case policy of
        PolicyConnected peers tunnel lan dns \<Rightarrow>
          and_then (check_not_iface env DirIn (tm_interface tunnel) []) (\<lambda>rule.
            Inr (add_rule ChainPrerouting
              (rule @ [CtMark, Cmp CmpEq (D32 SPLIT_TUNNEL_MARK),
                       Immediate (D32 fwmark), MetaMarkSet] @
               (if fe_add_counters env then [Counter] else [])) b))
      | _ \<Rightarrow> Inr b))))"

section \<open>Rules of one policy\<close>

definition add_allow_tunnel_endpoint_rules ::
  "fw_env \<Rightarrow> u32 \<Rightarrow> allowed_endpoint \<Rightarrow> batch \<Rightarrow> batch" where
  "add_allow_tunnel_endpoint_rules env fwmark ep b =
     (let b = add_rule ChainPrerouting
            (check_endpoint EndSrc (ae_endpoint ep) [] @
             [Immediate (D32 fwmark), MetaMarkSet] @
             (if fe_add_counters env then [Counter] else [])) b;
          b = add_rule ChainIn (add_verdict env VAccept
            (check_established (check_endpoint EndSrc (ae_endpoint ep) []))) b;
          b = add_rule ChainOut (add_verdict env VAccept
            (check_endpoint EndDst (ae_endpoint ep) [] @
             [Meta MetaMark, Cmp CmpEq (D32 fwmark)])) b
      in if allow_all (ae_clients ep) then
           add_rule ChainMangle
             (check_endpoint EndDst (ae_endpoint ep) [] @
              [Immediate (D32 SPLIT_TUNNEL_MARK), CtMarkSet,
               Immediate (D32 fwmark), MetaMarkSet]) b
         else b)"

definition check_root :: "allowed_endpoint \<Rightarrow> nft_rule \<Rightarrow> nft_rule" where
  "check_root ep rule =
     (if \<not> allow_all (ae_clients ep)
      then rule @ [Meta MetaSkuid, Cmp CmpEq (D32 ROOT_UID)] else rule)"

definition add_allow_endpoint_rules :: "fw_env \<Rightarrow> allowed_endpoint \<Rightarrow> batch \<Rightarrow> batch" where
  "add_allow_endpoint_rules env ep b =
     (let b = add_rule ChainIn (add_verdict env VAccept
            (check_root ep (check_established (check_endpoint EndSrc (ae_endpoint ep) [])))) b
      in add_rule ChainOut (add_verdict env VAccept
            (check_root ep (check_endpoint EndDst (ae_endpoint ep) []))) b)"

definition add_allow_tunnel_dns_rule ::
  "fw_env \<Rightarrow> string \<Rightarrow> transport_protocol \<Rightarrow> ip_addr \<Rightarrow> batch \<Rightarrow> (linux_fw_error, batch) result"
where
  "add_allow_tunnel_dns_rule env iface protocol host b =
     fold_result (\<lambda>chain b.
       and_then (allow_tunnel_dns_rule env Inet iface protocol host)
         (\<lambda>rule. Inr (add_rule chain rule b)))
       [ChainOut, ChainForward] b"

definition add_allow_local_dns_rule ::
  "fw_env \<Rightarrow> string \<Rightarrow> transport_protocol \<Rightarrow> ip_addr \<Rightarrow> batch \<Rightarrow> (linux_fw_error, batch) result"
where
  "add_allow_local_dns_rule env tunnel_interface protocol host b =
     fold_result (\<lambda>(chain, direction) b.
       let port_dir = (case direction of DirIn \<Rightarrow> EndSrc | DirOut \<Rightarrow> EndDst) in
       and_then (check_not_iface env direction tunnel_interface []) (\<lambda>rule.
         Inr (add_rule chain (add_verdict env VAccept
           (check_l3proto host (check_port protocol port_dir 53 rule) @
            [addr_payload host port_dir, Cmp CmpEq (ip_data host)])) b)))
       [(ChainOut, DirOut), (ChainForward, DirOut), (ChainIn, DirIn), (ChainForward, DirIn)] b"

definition add_drop_dns_rule :: "fw_env \<Rightarrow> batch \<Rightarrow> batch" where
  "add_drop_dns_rule env b =
     fold (\<lambda>chain b.
       add_rule chain (add_verdict env (VReject TcpRst) (check_port Tcp EndDst 53 []))
         (add_rule chain (add_verdict env (VReject IcmpPortUnreach) (check_port Udp EndDst 53 [])) b))
       [ChainOut, ChainForward] b"

definition add_allow_in_tunnel_endpoint_rules ::
  "fw_env \<Rightarrow> string \<Rightarrow> endpoint \<Rightarrow> batch \<Rightarrow> (linux_fw_error, batch) result" where
  "add_allow_in_tunnel_endpoint_rules env tunnel_interface ep b =
     fold_result (\<lambda>(chain, dir, e) b.
       and_then (check_iface env dir tunnel_interface []) (\<lambda>rule.
         Inr (add_rule chain (add_verdict env VAccept
           (check_port (ep_protocol ep) e (sa_port (ep_address ep))
             (check_ip e (sa_ip (ep_address ep)) rule))) b)))
       [(ChainOut, DirOut, EndDst), (ChainIn, DirIn, EndSrc)] b"

definition add_allow_tunnel_rules ::
  "fw_env \<Rightarrow> string \<Rightarrow> batch \<Rightarrow> (linux_fw_error, batch) result" where
  "add_allow_tunnel_rules env tunnel_interface b =
     and_then (allow_interface_rule env DirOut tunnel_interface) (\<lambda>out_rule.
     let b = add_rule ChainOut out_rule b in
     and_then (allow_interface_rule env DirOut tunnel_interface) (\<lambda>forward_rule.
     let b = add_rule ChainForward forward_rule b in
     and_then (allow_interface_rule env DirIn tunnel_interface) (\<lambda>in_rule.
     let b = add_rule ChainIn in_rule b in
     and_then (check_iface env DirIn tunnel_interface []) (\<lambda>interface_rule.
     Inr (add_rule ChainForward
       (add_verdict env VAccept (check_established interface_rule)) b)))))"

definition add_block_cve_2019_14899 :: "fw_env \<Rightarrow> tunnel_metadata \<Rightarrow> batch \<Rightarrow> batch" where
  "add_block_cve_2019_14899 env tunnel b =
     fold (\<lambda>tunnel_ip. add_rule ChainIn (add_verdict env VDrop (check_ip EndDst tunnel_ip [])))
       (tm_ips tunnel) b"

definition add_dhcp_server_rules :: "fw_env \<Rightarrow> batch \<Rightarrow> batch" where
  "add_dhcp_server_rules env b =
     (let b = add_rule ChainOut (add_verdict env VAccept
            (check_port Udp EndDst DHCPV4_CLIENT_PORT
              (check_port Udp EndSrc DHCPV4_SERVER_PORT []))) b
      in add_rule ChainIn (add_verdict env VAccept
            (check_endpoint EndDst (endpoint_new BROADCAST DHCPV4_SERVER_PORT Udp)
              (check_port Udp EndSrc DHCPV4_CLIENT_PORT []))) b)"

definition add_net_rules ::
  "fw_env \<Rightarrow> fw_chain \<Rightarrow> fw_end \<Rightarrow> ip_network list \<Rightarrow> batch \<Rightarrow> batch" where
  "add_net_rules env chain e nets b =
     fold (\<lambda>net. add_rule chain (add_verdict env VAccept (check_net e net []))) nets b"

definition add_allow_lan_rules :: "fw_env \<Rightarrow> batch \<Rightarrow> batch" where
  "add_allow_lan_rules env b =
     (let b = fold (\<lambda>chain b.
            add_net_rules env chain EndDst ALLOWED_LAN_MULTICAST_NETS
              (add_net_rules env chain EndDst ALLOWED_LAN_NETS b))
            [ChainOut, ChainForward] b;
          b = add_net_rules env ChainIn EndSrc ALLOWED_LAN_NETS b
      in add_dhcp_server_rules env b)"

definition add_connecting_rules ::
  "fw_env \<Rightarrow> u32 \<Rightarrow> allowed_endpoint list \<Rightarrow> tunnel_metadata option \<Rightarrow> bool \<Rightarrow>
    allowed_endpoint \<Rightarrow> allowed_tunnel_traffic \<Rightarrow> batch \<Rightarrow> (linux_fw_error, batch) result" where
  "add_connecting_rules env fwmark peers tunnel allow_lan ep traffic b =
     (let b = fold (add_allow_tunnel_endpoint_rules env fwmark) peers b;
          b = add_allow_endpoint_rules env ep b;
          b = add_drop_dns_rule env b
      in case tunnel of
           None \<Rightarrow> Inr b
         | Some tun \<Rightarrow>
             and_then
               (case traffic of
                  TrafficAll \<Rightarrow> add_allow_tunnel_rules env (tm_interface tun) b
                | TrafficNone \<Rightarrow> Inr b
                | TrafficOne endpoint \<Rightarrow>
                    add_allow_in_tunnel_endpoint_rules env (tm_interface tun) endpoint b
                | TrafficTwo endpoint1 endpoint2 \<Rightarrow>
                    and_then
                      (add_allow_in_tunnel_endpoint_rules env (tm_interface tun) endpoint1 b)
                      (add_allow_in_tunnel_endpoint_rules env (tm_interface tun) endpoint2))
               (\<lambda>b. Inr (if allow_lan then add_block_cve_2019_14899 env tun b else b)))"

definition add_connected_rules ::
  "fw_env \<Rightarrow> u32 \<Rightarrow> allowed_endpoint list \<Rightarrow> tunnel_metadata \<Rightarrow> bool \<Rightarrow>
    resolved_dns_config \<Rightarrow> batch \<Rightarrow> (linux_fw_error, batch) result" where
  "add_connected_rules env fwmark peers tunnel allow_lan dns b =
     (let b = fold (add_allow_tunnel_endpoint_rules env fwmark) peers b in
     and_then (fold_result (\<lambda>server b.
         and_then (add_allow_tunnel_dns_rule env (tm_interface tunnel) Udp server b)
           (add_allow_tunnel_dns_rule env (tm_interface tunnel) Tcp server))
       (tunnel_dns dns) b) (\<lambda>b.
     and_then (fold_result (\<lambda>server b.
         and_then (add_allow_local_dns_rule env (tm_interface tunnel) Udp server b)
           (add_allow_local_dns_rule env (tm_interface tunnel) Tcp server))
       (non_tunnel_dns dns) b) (\<lambda>b.
     let b = add_drop_dns_rule env b in
     and_then (add_allow_tunnel_rules env (tm_interface tunnel) b) (\<lambda>b.
     Inr (if allow_lan then add_block_cve_2019_14899 env tunnel b else b)))))"

definition add_blocked_rules :: "fw_env \<Rightarrow> allowed_endpoint option \<Rightarrow> batch \<Rightarrow> batch" where
  "add_blocked_rules env ep b =
     (let b = (case ep of Some endpoint \<Rightarrow> add_allow_endpoint_rules env endpoint b | None \<Rightarrow> b)
      in add_drop_dns_rule env b)"

definition add_policy_specific_rules ::
  "fw_env \<Rightarrow> firewall_policy \<Rightarrow> u32 \<Rightarrow> batch \<Rightarrow> (linux_fw_error, batch) result" where
  "add_policy_specific_rules env policy fwmark b =
     and_then
       (case policy of
          PolicyConnecting peers tunnel allow_lan ep traffic \<Rightarrow>
            add_connecting_rules env fwmark peers tunnel allow_lan ep traffic b
        | PolicyConnected peers tunnel allow_lan dns \<Rightarrow>
            add_connected_rules env fwmark peers tunnel allow_lan dns b
        | PolicyBlocked allow_lan ep \<Rightarrow> Inr (add_blocked_rules env ep b))
       (\<lambda>b.
     let b = (if policy_allow_lan policy then add_allow_lan_rules env b else b)
     in Inr (add_rules [ChainOut, ChainForward]
          (add_verdict env (VReject IcmpPortUnreach) []) b))"

definition finalize ::
  "fw_env \<Rightarrow> firewall_policy \<Rightarrow> u32 \<Rightarrow> (linux_fw_error, batch) result" where
  "finalize env policy fwmark =
     and_then (add_loopback_rules env policy_batch_new) (\<lambda>b.
     case find_net_cls_mount env of
       Inl e \<Rightarrow> Inl FindNetClsMount
     | Inr mount \<Rightarrow>
         and_then
           (if mount \<noteq> None then add_split_tunneling_rules env policy fwmark b else Inr b)
           (\<lambda>b.
         let b = add_dhcp_client_rules env b;
             b = add_ndp_rules env b
         in add_policy_specific_rules env policy fwmark b))"

end
