(* ===== verification/Firewall_Chains.thy ===== *)
theory Firewall_Chains
  imports Firewall_Linux
begin

text \<open>
  What the generated rules mean. Each rule that only checks and gives a verdict is abstracted to
  a guard on packets with its verdict, each chain of a batch to the list of its guarded
  verdicts, of which the first that matches decides. The lemmas inside the locale
  \<open>nft_vm\<close> follow the builders of \<open>Firewall_Linux\<close> one by one and hold for every machine that
  evaluates the expressions as documented.
\<close>

section \<open>Guards\<close>

type_synonym guard = "packet \<Rightarrow> bool"

text \<open>What a rule does to the packets its guard admits: end with a verdict, or change marks.\<close>

datatype action = Give nft_verdict | Alter "packet \<Rightarrow> packet"

type_synonym guarded = "guard \<times> action"

definition packet_iface :: "fw_direction \<Rightarrow> packet \<Rightarrow> u32" where
  "packet_iface dir p = (case dir of DirIn \<Rightarrow> p_iif p | DirOut \<Rightarrow> p_oif p)"

definition packet_addr :: "fw_end \<Rightarrow> packet \<Rightarrow> ip_addr" where
  "packet_addr e p = (case e of EndSrc \<Rightarrow> p_src p | EndDst \<Rightarrow> p_dst p)"

definition packet_port :: "fw_end \<Rightarrow> packet \<Rightarrow> u16" where
  "packet_port e p = (case e of EndSrc \<Rightarrow> p_sport p | EndDst \<Rightarrow> p_dport p)"

definition on_iface :: "fw_env \<Rightarrow> fw_direction \<Rightarrow> string \<Rightarrow> guard" where
  "on_iface env dir iface p \<longleftrightarrow> fe_ifindex env iface = Some (packet_iface dir p)"

definition off_iface :: "fw_env \<Rightarrow> fw_direction \<Rightarrow> string \<Rightarrow> guard" where
  "off_iface env dir iface p \<longleftrightarrow> fe_ifindex env iface \<noteq> Some (packet_iface dir p)"

fun net_match :: "ip_network \<Rightarrow> ip_addr \<Rightarrow> bool" where
  "net_match (NetV4 a l) (V4 x) \<longleftrightarrow> x AND prefix_mask l = a"
| "net_match (NetV6 b l) (V6 y) \<longleftrightarrow> y AND prefix_mask l = b"
| "net_match _ _ \<longleftrightarrow> False"

definition has_port :: "transport_protocol \<Rightarrow> fw_end \<Rightarrow> u16 \<Rightarrow> guard" where
  "has_port protocol e port p \<longleftrightarrow> p_l4proto p = l4proto protocol \<and> packet_port e p = port"

definition has_endpoint :: "fw_end \<Rightarrow> endpoint \<Rightarrow> guard" where
  "has_endpoint e ep p \<longleftrightarrow>
     packet_addr e p = sa_ip (ep_address ep) \<and>
     has_port (ep_protocol ep) e (sa_port (ep_address ep)) p"

definition is_icmpv6 :: "u8 \<Rightarrow> u8 \<Rightarrow> guard" where
  "is_icmpv6 type code p \<longleftrightarrow>
     p_l4proto p = IPPROTO_ICMPV6 \<and> p_icmp_type p = type \<and> p_icmp_code p = code"

definition established :: guard where
  "established p \<longleftrightarrow> p_ct_state p AND CT_ESTABLISHED \<noteq> 0"

definition root_or_all :: "allowed_endpoint \<Rightarrow> guard" where
  "root_or_all ep p \<longleftrightarrow> allow_all (ae_clients ep) \<or> p_skuid p = Some ROOT_UID"

definition split_tunneled :: guard where
  "split_tunneled p \<longleftrightarrow> p_ct_mark p = SPLIT_TUNNEL_MARK"

section \<open>First match\<close>

fun run_guards :: "guarded list \<Rightarrow> packet \<Rightarrow> nft_verdict option \<times> packet" where
  "run_guards [] p = (None, p)"
| "run_guards ((P, Give v) # gs) p = (if P p then (Some v, p) else run_guards gs p)"
| "run_guards ((P, Alter f) # gs) p = (if P p then run_guards gs (f p) else run_guards gs p)"

lemma run_guards_append:
  "run_guards (gs @ hs) p =
     (case run_guards gs p of (Some v, p') \<Rightarrow> (Some v, p') | (None, p') \<Rightarrow> run_guards hs p')"
  by (induction gs p rule: run_guards.induct) auto

text \<open>Accepting rules side by side, and a chain that only gives verdicts.\<close>

abbreviation accept_if :: "guard \<Rightarrow> guarded" where
  "accept_if P \<equiv> (P, Give VAccept)"

lemma run_guards_accepts:
  "run_guards (map (\<lambda>x. accept_if (P x)) xs @ gs) p =
     (if \<exists>x \<in> set xs. P x p then (Some VAccept, p) else run_guards gs p)"
  by (induction xs) auto

lemma run_guards_drops:
  "run_guards (map (\<lambda>x. (P x, Give VDrop)) xs @ gs) p =
     (if \<exists>x \<in> set xs. P x p then (Some VDrop, p) else run_guards gs p)"
  by (induction xs) auto

lemma run_guards_accepts2:
  "run_guards (concat (map (\<lambda>x. [accept_if (P x), accept_if (Q x)]) xs) @ gs) p =
     (if \<exists>x \<in> set xs. P x p \<or> Q x p then (Some VAccept, p) else run_guards gs p)"
  by (induction xs) auto

lemma run_guards_accepts4:
  "run_guards (concat (map (\<lambda>x. [accept_if (P x), accept_if (Q x), accept_if (R x),
       accept_if (S x)]) xs) @ gs) p =
     (if \<exists>x \<in> set xs. P x p \<or> Q x p \<or> R x p \<or> S x p
      then (Some VAccept, p) else run_guards gs p)"
  by (induction xs) auto

section \<open>Rules and chains as guards\<close>

definition checks :: "nft_step \<Rightarrow> nft_rule \<Rightarrow> guard \<Rightarrow> bool" where
  "checks step es P \<longleftrightarrow>
     (\<forall>r p. if P p then \<exists>r'. run_exprs step es r p = Next r' p else run_exprs step es r p = Break p)"

definition decides :: "nft_step \<Rightarrow> nft_rule \<Rightarrow> guarded \<Rightarrow> bool" where
  "decides step es g \<longleftrightarrow>
     (\<forall>r p. if fst g p
        then (case snd g of
                Give v \<Rightarrow> run_exprs step es r p = Done v p
              | Alter f \<Rightarrow> \<exists>r'. run_exprs step es r p = Next r' (f p))
        else run_exprs step es r p = Break p)"

lemma decidesD:
  assumes "decides step es (P, a)"
  shows "\<not> P p \<Longrightarrow> run_exprs step es r p = Break p"
    and "P p \<Longrightarrow> a = Give v \<Longrightarrow> run_exprs step es r p = Done v p"
    and "P p \<Longrightarrow> a = Alter f \<Longrightarrow> \<exists>r'. run_exprs step es r p = Next r' (f p)"
  using assms [unfolded decides_def, rule_format, of p r] by simp_all

lemma decides_cong: "decides step es (P, a) \<Longrightarrow> (\<And>p. P p = Q p) \<Longrightarrow> decides step es (Q, a)"
  by (subgoal_tac "P = Q") auto

lemma checks_Nil: "checks step [] (\<lambda>p. True)"
  by (simp add: checks_def)

lemma checksI:
  assumes "\<And>r p. P p \<Longrightarrow> \<exists>r'. run_exprs step es r p = Next r' p"
    and "\<And>r p. \<not> P p \<Longrightarrow> run_exprs step es r p = Break p"
  shows "checks step es P"
  using assms by (simp add: checks_def)

lemma checks_append:
  assumes "checks step es P" and "checks step fs Q"
  shows "checks step (es @ fs) (\<lambda>p. P p \<and> Q p)"
proof (rule checksI)
  fix r p
  assume "P p \<and> Q p"
  then obtain r1 where "run_exprs step es r p = Next r1 p"
    using assms(1) unfolding checks_def by metis
  moreover obtain r2 where "run_exprs step fs r1 p = Next r2 p"
    using \<open>P p \<and> Q p\<close> assms(2) unfolding checks_def by metis
  ultimately show "\<exists>r'. run_exprs step (es @ fs) r p = Next r' p"
    by (simp add: run_exprs_append)
next
  fix r p
  assume *: "\<not> (P p \<and> Q p)"
  show "run_exprs step (es @ fs) r p = Break p"
  proof (cases "P p")
    case True
    then obtain r1 where "run_exprs step es r p = Next r1 p"
      using assms(1) unfolding checks_def by metis
    moreover have "run_exprs step fs r1 p = Break p"
      using True * assms(2) unfolding checks_def by metis
    ultimately show ?thesis by (simp add: run_exprs_append)
  next
    case False
    then have "run_exprs step es r p = Break p"
      using assms(1) unfolding checks_def by metis
    then show ?thesis by (simp add: run_exprs_append)
  qed
qed

lemma checks_cong: "checks step es P \<Longrightarrow> (\<And>p. P p = Q p) \<Longrightarrow> checks step es Q"
  by (simp add: checks_def)

definition chain_rules :: "fw_chain \<Rightarrow> batch \<Rightarrow> nft_rule list" where
  "chain_rules chain b =
     concat (map (\<lambda>m. case m of MsgAddRule c r \<Rightarrow> if c = chain then [r] else [] | _ \<Rightarrow> []) b)"

lemma chain_rules_add_rule:
  "chain_rules chain (add_rule c r b) = chain_rules chain b @ (if c = chain then [r] else [])"
  by (simp add: chain_rules_def add_rule_def batch_add_def)

text \<open>A batch that \<^verbatim>\<open>PolicyBatch::new\<close> started and to which only rules were added since.\<close>

definition rules_batch :: "batch \<Rightarrow> bool" where
  "rules_batch b \<longleftrightarrow> (\<exists>rs. b = policy_batch_new @ map (\<lambda>(c, r). MsgAddRule c r) rs)"

lemma rules_batch_add_rule [simp]: "rules_batch b \<Longrightarrow> rules_batch (add_rule c r b)"
  unfolding rules_batch_def add_rule_def batch_add_def
  by (elim exE, rule_tac x = "rs @ [(c, r)]" in exI) simp

lemma rules_batch_fold:
  "rules_batch b \<Longrightarrow> rules_batch (fold (\<lambda>x. add_rule (c x) (r x)) xs b)"
  by (induction xs arbitrary: b) auto

lemma rules_batch_new: "rules_batch policy_batch_new"
  unfolding rules_batch_def by (rule exI [of _ "[]"]) simp

definition models :: "nft_step \<Rightarrow> batch \<Rightarrow> fw_chain \<Rightarrow> guarded list \<Rightarrow> bool" where
  "models step b chain gs \<longleftrightarrow>
     rules_batch b \<and> list_all2 (decides step) (chain_rules chain b) gs"

lemma run_chain_run_guards:
  assumes "list_all2 (decides step) rules gs"
  shows "run_chain step policy rules p =
    (case run_guards gs p of (v, p') \<Rightarrow> (case v of Some v \<Rightarrow> v | None \<Rightarrow> policy, p'))"
  using assms
proof (induction rules gs arbitrary: p rule: list_all2_induct)
  case (Cons rule rules g gs)
  obtain P a where g: "g = (P, a)" by force
  show ?case
  proof (cases "P p")
    case True
    then show ?thesis
      using decidesD(2,3) [OF Cons.hyps(1) [unfolded g], of p _ "D32 0"] Cons.IH
      by (cases a) (fastforce simp: g)+
  next
    case False
    then show ?thesis
      using decidesD(1) [OF Cons.hyps(1) [unfolded g], of p "D32 0"] Cons.IH
      by (cases a) (simp_all add: g)
  qed
qed simp

lemma models_run_chain:
  "models step b chain gs \<Longrightarrow> run_chain step policy (chain_rules chain b) p =
    (case run_guards gs p of (v, p') \<Rightarrow> (case v of Some v \<Rightarrow> v | None \<Rightarrow> policy, p'))"
  by (simp add: models_def run_chain_run_guards)

text \<open>The guards of a rule that is added to some of the chains only.\<close>

definition only :: "fw_chain list \<Rightarrow> fw_chain \<Rightarrow> guarded list \<Rightarrow> guarded list" where
  "only cs chain gs = (if chain \<in> set cs then gs else [])"

lemma models_add_rule:
  assumes "models step b chain gs" and "decides step r g"
  shows "models step (add_rule c r b) chain (gs @ only [c] chain [g])"
  using assms by (auto simp: models_def only_def chain_rules_add_rule list_all2_appendI)

lemma models_add_rules:
  assumes "models step b chain gs" and "decides step r g" and "distinct cs"
  shows "models step (add_rules cs r b) chain (gs @ only cs chain [g])"
proof -
  have "chain_rules chain (add_rules cs r b) =
      chain_rules chain b @ (if chain \<in> set cs then [r] else [])"
    using assms(3) unfolding add_rules_def
    by (induction cs arbitrary: b) (auto simp: chain_rules_add_rule)
  moreover have "rules_batch (add_rules cs r b)"
    using assms(1) unfolding add_rules_def models_def by (simp add: rules_batch_fold)
  ultimately show ?thesis
    using assms(1,2) by (auto simp: models_def only_def list_all2_appendI)
qed

lemma concat_map_only: "concat (map (\<lambda>x. only cs c (g x)) xs) = only cs c (concat (map g xs))"
  by (induction xs) (auto simp: only_def)

lemma models_fold_add_rule:
  assumes "models step b c gs" and "\<And>x. decides step (r x) (g x)"
  shows "models step (fold (\<lambda>x. add_rule chain (r x)) xs b) c (gs @ only [chain] c (map g xs))"
proof -
  have "chain_rules c (fold (\<lambda>x. add_rule chain (r x)) xs b) =
      chain_rules c b @ (if c = chain then map r xs else [])"
    by (induction xs arbitrary: b) (auto simp: chain_rules_add_rule)
  moreover have "list_all2 (decides step) (map r xs) (map g xs)"
    using assms(2) by (induction xs) auto
  moreover have "rules_batch (fold (\<lambda>x. add_rule chain (r x)) xs b)"
    using assms(1) unfolding models_def by (simp add: rules_batch_fold)
  ultimately show ?thesis
    using assms(1) by (auto simp: models_def only_def list_all2_appendI)
qed

lemma models_fold:
  assumes "models step b chain gs"
    and "\<And>x b gs. models step b chain gs \<Longrightarrow> models step (f x b) chain (gs @ hs x)"
  shows "models step (fold f xs b) chain (gs @ concat (map hs xs))"
  using assms(1) by (induction xs arbitrary: b gs) (auto dest: assms(2) simp flip: append_assoc)

lemma models_fold_result:
  assumes "fold_result f xs b = Inr b'" and "models step b chain gs"
    and "\<And>x b b' gs. f x b = Inr b' \<Longrightarrow> models step b chain gs \<Longrightarrow> models step b' chain (gs @ hs x)"
  shows "models step b' chain (gs @ concat (map hs xs))"
  using assms(1,2)
proof (induction xs arbitrary: b gs)
  case (Cons x xs)
  then obtain b1 where "f x b = Inr b1" and rest: "fold_result f xs b1 = Inr b'"
    by auto
  then have "models step b1 chain (gs @ hs x)"
    using Cons.prems(2) assms(3) by blast
  from Cons.IH [OF rest this] show ?case by simp
qed simp

lemma models_policy_batch_new: "models step policy_batch_new chain []"
  unfolding models_def
  by (simp add: rules_batch_new)
    (simp add: policy_batch_new_def chain_rules_def batch_add_def policy_chains_def
      batch_deprecated_tables_def)

section \<open>The checks of the rule builders\<close>

lemma p_src_dst_simps:
  "p_ip p = HdrV4 s d \<Longrightarrow> p_src p = V4 s" "p_ip p = HdrV4 s d \<Longrightarrow> p_dst p = V4 d"
  "p_ip p = HdrV6 s' d' \<Longrightarrow> p_src p = V6 s'" "p_ip p = HdrV6 s' d' \<Longrightarrow> p_dst p = V6 d'"
  by (simp_all add: p_src_def p_dst_def)

context nft_vm
begin

lemma checks_established:
  "checks step es P \<Longrightarrow> checks step (check_established es) (\<lambda>p. P p \<and> established p)"
  unfolding check_established_def
  by (erule checks_append, rule checksI) (auto simp: step_simps established_def)

lemma checks_iface:
  assumes "check_iface env dir iface es = Inr es'" and "checks step es P"
  shows "checks step es' (\<lambda>p. P p \<and> on_iface env dir iface p)"
proof -
  obtain i where i: "fe_ifindex env iface = Some i"
    and es': "es' = es @ [iface_meta dir, Cmp CmpEq (D32 i)]"
    using assms(1) by (auto simp: check_iface_def iface_index_def split: option.splits)
  have "checks step [iface_meta dir, Cmp CmpEq (D32 i)] (\<lambda>p. on_iface env dir iface p)"
    by (rule checksI; cases dir)
      (auto simp: step_simps iface_meta_def on_iface_def packet_iface_def i)
  from checks_append [OF assms(2) this] show ?thesis by (simp add: es')
qed

lemma checks_not_iface:
  assumes "check_not_iface env dir iface es = Inr es'" and "checks step es P"
  shows "checks step es' (\<lambda>p. P p \<and> off_iface env dir iface p)"
proof -
  obtain i where i: "fe_ifindex env iface = Some i"
    and es': "es' = es @ [iface_meta dir, Cmp CmpNeq (D32 i)]"
    using assms(1) by (auto simp: check_not_iface_def iface_index_def split: option.splits)
  have "checks step [iface_meta dir, Cmp CmpNeq (D32 i)] (\<lambda>p. off_iface env dir iface p)"
    by (rule checksI; cases dir)
      (auto simp: step_simps iface_meta_def off_iface_def packet_iface_def i)
  from checks_append [OF assms(2) this] show ?thesis by (simp add: es')
qed

lemma checks_addr:
  "checks step [Meta MetaNfproto, Cmp CmpEq (D8 (l3proto ip)), addr_payload ip e,
     Cmp CmpEq (ip_data ip)] (\<lambda>p. packet_addr e p = ip)"
proof (rule checksI)
  fix r p
  assume eq: "packet_addr e p = ip"
  show "\<exists>r'. run_exprs step [Meta MetaNfproto, Cmp CmpEq (D8 (l3proto ip)), addr_payload ip e,
     Cmp CmpEq (ip_data ip)] r p = Next r' p"
    using eq by (cases "p_ip p"; cases e) (auto simp: step_simps p_nfproto_def l3proto_def
        addr_payload_def ip_data_def packet_addr_def p_src_dst_simps)
next
  fix r p
  assume neq: "packet_addr e p \<noteq> ip"
  show "run_exprs step [Meta MetaNfproto, Cmp CmpEq (D8 (l3proto ip)), addr_payload ip e,
     Cmp CmpEq (ip_data ip)] r p = Break p"
    using neq by (cases "p_ip p"; cases e; cases ip) (auto simp: step_simps p_nfproto_def
        l3proto_def addr_payload_def ip_data_def packet_addr_def p_src_dst_simps)
qed

lemma checks_ip:
  "checks step es P \<Longrightarrow> checks step (check_ip e ip es) (\<lambda>p. P p \<and> packet_addr e p = ip)"
  using checks_append [OF _ checks_addr, of es P ip e]
  by (simp add: check_ip_def check_l3proto_def)

lemma checks_l3proto_addr:
  "checks step es P \<Longrightarrow>
     checks step (check_l3proto ip es @ [addr_payload ip e, Cmp CmpEq (ip_data ip)])
       (\<lambda>p. P p \<and> packet_addr e p = ip)"
  using checks_ip [of es P e ip] by (simp add: check_ip_def)

lemma checks_net:
  assumes "checks step es P"
  shows "checks step (check_net e net es) (\<lambda>p. P p \<and> net_match net (packet_addr e p))"
proof -
  have "checks step [Meta MetaNfproto, Cmp CmpEq (D8 (l3proto (net_ip net))),
      addr_payload (net_ip net) e,
      Bitwise (ip_data (net_mask net)) (case net of NetV4 _ _ \<Rightarrow> DAddr4 0 | NetV6 _ _ \<Rightarrow> DAddr6 0),
      Cmp CmpEq (ip_data (net_ip net))] (\<lambda>p. net_match net (packet_addr e p))"
  proof (rule checksI)
    fix r p
    assume "net_match net (packet_addr e p)"
    then show "\<exists>r'. run_exprs step [Meta MetaNfproto, Cmp CmpEq (D8 (l3proto (net_ip net))),
      addr_payload (net_ip net) e,
      Bitwise (ip_data (net_mask net)) (case net of NetV4 _ _ \<Rightarrow> DAddr4 0 | NetV6 _ _ \<Rightarrow> DAddr6 0),
      Cmp CmpEq (ip_data (net_ip net))] r p = Next r' p"
      by (cases "p_ip p"; cases e; cases net) (auto simp: step_simps p_nfproto_def l3proto_def
          addr_payload_def ip_data_def packet_addr_def p_src_dst_simps)
  next
    fix r p
    assume "\<not> net_match net (packet_addr e p)"
    then show "run_exprs step [Meta MetaNfproto, Cmp CmpEq (D8 (l3proto (net_ip net))),
      addr_payload (net_ip net) e,
      Bitwise (ip_data (net_mask net)) (case net of NetV4 _ _ \<Rightarrow> DAddr4 0 | NetV6 _ _ \<Rightarrow> DAddr6 0),
      Cmp CmpEq (ip_data (net_ip net))] r p = Break p"
      by (cases "p_ip p"; cases e; cases net) (auto simp: step_simps p_nfproto_def l3proto_def
          addr_payload_def ip_data_def packet_addr_def p_src_dst_simps)
  qed
  from checks_append [OF assms this] show ?thesis
    by (simp add: check_net_def check_l3proto_def)
qed

lemma checks_port:
  assumes "checks step es P"
  shows "checks step (check_port protocol e port es) (\<lambda>p. P p \<and> has_port protocol e port p)"
proof -
  have "checks step [Meta MetaL4proto, Cmp CmpEq (D8 (l4proto protocol)),
      port_payload protocol e, Cmp CmpEq (D16 (u16_to_be port))] (has_port protocol e port)"
    by (rule checksI; cases protocol; cases e) (auto simp: step_simps has_port_def l4proto_def
        port_payload_def packet_port_def)
  from checks_append [OF assms this] show ?thesis
    by (simp add: check_port_def check_l4proto_def)
qed

lemma checks_endpoint:
  "checks step es P \<Longrightarrow> checks step (check_endpoint e ep es) (\<lambda>p. P p \<and> has_endpoint e ep p)"
  unfolding check_endpoint_def
  by (rule checks_cong [OF checks_port [OF checks_ip]]) (auto simp: has_endpoint_def)

lemma checks_icmpv6:
  assumes "checks step es P"
  shows "checks step (check_icmpv6 type code es) (\<lambda>p. P p \<and> is_icmpv6 type code p)"
  unfolding check_icmpv6_def
  by (rule checks_append [OF assms], rule checksI) (auto simp: step_simps is_icmpv6_def)

lemma checks_root:
  assumes "checks step es P"
  shows "checks step (check_root ep es) (\<lambda>p. P p \<and> root_or_all ep p)"
proof (cases "allow_all (ae_clients ep)")
  case True
  then show ?thesis
    using assms by (simp add: check_root_def root_or_all_def)
next
  case False
  have "checks step [Meta MetaSkuid, Cmp CmpEq (D32 ROOT_UID)] (\<lambda>p. p_skuid p = Some ROOT_UID)"
    by (rule checksI) (auto simp: step_simps split: option.splits)
  from checks_append [OF assms this] False show ?thesis
    by (simp add: check_root_def root_or_all_def)
qed

lemma checks_ct_mark: "checks step [CtMark, Cmp CmpEq (D32 SPLIT_TUNNEL_MARK)] split_tunneled"
  by (rule checksI) (auto simp: step_simps split_tunneled_def)

lemma checks_mark: "checks step [Meta MetaMark, Cmp CmpEq (D32 m)] (\<lambda>p. p_mark p = m)"
  by (rule checksI) (auto simp: step_simps)

lemma checks_Next: "checks step es P \<Longrightarrow> P p \<Longrightarrow> \<exists>r'. run_exprs step es r p = Next r' p"
  unfolding checks_def by metis

lemma checks_Break: "checks step es P \<Longrightarrow> \<not> P p \<Longrightarrow> run_exprs step es r p = Break p"
  unfolding checks_def by metis

lemma decides_append:
  assumes "checks step es P" and "decides step fs (Q, a)"
  shows "decides step (es @ fs) (\<lambda>p. P p \<and> Q p, a)"
  unfolding decides_def
proof (intro allI)
  fix r p
  show "if fst (\<lambda>p. P p \<and> Q p, a) p
        then (case snd (\<lambda>p. P p \<and> Q p, a) of
                Give v \<Rightarrow> run_exprs step (es @ fs) r p = Done v p
              | Alter f \<Rightarrow> \<exists>r'. run_exprs step (es @ fs) r p = Next r' (f p))
        else run_exprs step (es @ fs) r p = Break p"
  proof (cases "P p")
    case True
    then obtain r' where "run_exprs step es r p = Next r' p"
      using checks_Next [OF assms(1)] by blast
    then show ?thesis
      using True assms(2) [unfolded decides_def, rule_format, of p r']
      by (cases a) (auto simp: run_exprs_append split: if_splits)
  next
    case False
    then show ?thesis
      using checks_Break [OF assms(1)] by (simp add: run_exprs_append)
  qed
qed

lemma decides_add_verdict:
  assumes "checks step es P"
  shows "decides step (add_verdict env v es) (P, Give v)"
proof -
  have "decides step ((if fe_add_counters env then [Counter] else []) @ [Verdict v])
      (\<lambda>p. True, Give v)"
    by (simp add: decides_def step_simps)
  from decides_append [OF assms this] show ?thesis by (simp add: add_verdict_def)
qed

lemma decides_verdictI:
  assumes "checks step es P" and "\<And>p. P p = Q p"
  shows "decides step (add_verdict env v es) (Q, Give v)"
  by (rule decides_cong [OF decides_add_verdict [OF assms(1)]]) (rule assms(2))

lemmas checks_intros = checks_port checks_ip checks_net checks_icmpv6 checks_endpoint
  checks_established checks_root checks_Nil

lemma decides_set_mark:
  assumes "checks step es P"
  shows "decides step (es @ [Immediate (D32 m), MetaMarkSet] @ (if ctr then [Counter] else []))
    (P, Alter (\<lambda>p. p\<lparr>p_mark := m\<rparr>))"
proof -
  have "decides step ([Immediate (D32 m), MetaMarkSet] @ (if ctr then [Counter] else []))
      (\<lambda>p. True, Alter (\<lambda>p. p\<lparr>p_mark := m\<rparr>))"
    by (simp add: decides_def step_simps)
  from decides_append [OF assms this] show ?thesis by simp
qed

lemma decides_set_marks:
  assumes "checks step es P"
  shows "decides step (es @ [Immediate (D32 k), CtMarkSet, Immediate (D32 m), MetaMarkSet])
    (P, Alter (\<lambda>p. p\<lparr>p_ct_mark := k, p_mark := m\<rparr>))"
proof -
  have "decides step [Immediate (D32 k), CtMarkSet, Immediate (D32 m), MetaMarkSet]
      (\<lambda>p. True, Alter (\<lambda>p. p\<lparr>p_ct_mark := k, p_mark := m\<rparr>))"
    by (simp add: decides_def step_simps)
  from decides_append [OF assms this] show ?thesis by simp
qed

end

end
