(* ===== verification/Firewall_Guards.thy ===== *)
theory Firewall_Guards
  imports Firewall_Chains
begin

text \<open>
  The guards that each method of \<^verbatim>\<open>PolicyBatch\<close> adds to each chain, and the lemmas that the
  messages it adds to the batch implement them. \<open>models_finalize\<close> puts them together: the
  batch of a policy is, chain by chain, the list \<open>policy_guards\<close>.
\<close>

section \<open>Rules every policy has\<close>

definition loopback_guards :: "fw_env \<Rightarrow> fw_chain \<Rightarrow> guarded list" where
  "loopback_guards env c =
     only [ChainOut] c [accept_if (on_iface env DirOut ''lo'')] @
     only [ChainIn] c [accept_if (on_iface env DirIn ''lo'')]"

definition dhcpv4_request :: guard where
  "dhcpv4_request p \<longleftrightarrow>
     has_port Udp EndSrc 68 p \<and> packet_addr EndDst p = BROADCAST \<and> has_port Udp EndDst 67 p"

definition dhcpv4_reply :: guard where
  "dhcpv4_reply p \<longleftrightarrow> has_port Udp EndSrc 67 p \<and> has_port Udp EndDst 68 p"

definition dhcpv6_request :: "ip_addr \<Rightarrow> guard" where
  "dhcpv6_request server p \<longleftrightarrow>
     net_match IPV6_LINK_LOCAL (packet_addr EndSrc p) \<and> has_port Udp EndSrc 546 p \<and>
     packet_addr EndDst p = server \<and> has_port Udp EndDst 547 p"

definition dhcpv6_reply :: guard where
  "dhcpv6_reply p \<longleftrightarrow>
     net_match IPV6_LINK_LOCAL (packet_addr EndSrc p) \<and> has_port Udp EndSrc 547 p \<and>
     net_match IPV6_LINK_LOCAL (packet_addr EndDst p) \<and> has_port Udp EndDst 546 p"

definition dhcp_client_guards :: "fw_chain \<Rightarrow> guarded list" where
  "dhcp_client_guards c =
     only [ChainOut, ChainForward] c [accept_if dhcpv4_request] @
     only [ChainIn, ChainForward] c [accept_if dhcpv4_reply] @
     only [ChainOut, ChainForward] c
       (map (\<lambda>server. accept_if (dhcpv6_request server)) DHCPV6_SERVER_ADDRS) @
     only [ChainIn, ChainForward] c [accept_if dhcpv6_reply]"

abbreviation from_net :: "ip_network \<Rightarrow> guard" where
  "from_net net p \<equiv> net_match net (packet_addr EndSrc p)"

abbreviation to_net :: "ip_network \<Rightarrow> guard" where
  "to_net net p \<equiv> net_match net (packet_addr EndDst p)"

definition router_solicitation :: guard where
  "router_solicitation p \<longleftrightarrow>
     packet_addr EndDst p = ROUTER_SOLICITATION_OUT_DST_ADDR \<and> is_icmpv6 133 0 p"

definition ndp_guards :: "fw_chain \<Rightarrow> guarded list" where
  "ndp_guards c =
     only [ChainOut, ChainForward] c [accept_if router_solicitation] @
     only [ChainIn, ChainForward] c
       [accept_if (\<lambda>p. from_net IPV6_LINK_LOCAL p \<and> is_icmpv6 134 0 p)] @
     only [ChainIn, ChainForward] c
       [accept_if (\<lambda>p. from_net IPV6_LINK_LOCAL p \<and> is_icmpv6 137 0 p)] @
     only [ChainOut, ChainForward] c
       [accept_if (\<lambda>p. to_net SOLICITED_NODE_MULTICAST p \<and> is_icmpv6 135 0 p)] @
     only [ChainOut, ChainForward] c
       [accept_if (\<lambda>p. to_net IPV6_LINK_LOCAL p \<and> is_icmpv6 135 0 p)] @
     only [ChainIn, ChainForward] c
       [accept_if (\<lambda>p. from_net IPV6_LINK_LOCAL p \<and> is_icmpv6 135 0 p)] @
     only [ChainOut, ChainForward] c
       [accept_if (\<lambda>p. to_net IPV6_LINK_LOCAL p \<and> is_icmpv6 136 0 p)] @
     only [ChainIn, ChainForward] c [accept_if (is_icmpv6 136 0)]"

definition tunnel_dns_request :: "fw_env \<Rightarrow> string \<Rightarrow> transport_protocol \<Rightarrow> ip_addr \<Rightarrow> guard" where
  "tunnel_dns_request env iface protocol server p \<longleftrightarrow>
     on_iface env DirOut iface p \<and> has_port protocol EndDst 53 p \<and> packet_addr EndDst p = server"

definition mark_excluded :: "u32 \<Rightarrow> packet \<Rightarrow> packet" where
  "mark_excluded fwmark p = p\<lparr>p_ct_mark := SPLIT_TUNNEL_MARK, p_mark := fwmark\<rparr>"

definition split_tunneling_guards ::
  "fw_env \<Rightarrow> firewall_policy \<Rightarrow> u32 \<Rightarrow> fw_chain \<Rightarrow> guarded list" where
  "split_tunneling_guards env policy fwmark c =
     (case policy of
        PolicyConnected peers tunnel lan dns \<Rightarrow>
          only [ChainMangle] c (concat (map (\<lambda>server.
            [accept_if (tunnel_dns_request env (tm_interface tunnel) Udp server),
             accept_if (tunnel_dns_request env (tm_interface tunnel) Tcp server)]) (tunnel_dns dns)))
      | _ \<Rightarrow> []) @
     only [ChainMangle] c [(\<lambda>p. p_cgroup p = NET_CLS_CLASSID, Alter (mark_excluded fwmark))] @
     only [ChainIn, ChainOut, ChainForward] c [accept_if split_tunneled] @
     (case policy of
        PolicyConnected peers tunnel lan dns \<Rightarrow>
          only [ChainNat] c
            [(\<lambda>p. on_iface env DirOut (tm_interface tunnel) p \<and> split_tunneled p, Give VDrop)]
      | _ \<Rightarrow> []) @
     only [ChainNat] c [accept_if (\<lambda>p. off_iface env DirOut ''lo'' p \<and> split_tunneled p)] @
     (case policy of
        PolicyConnected peers tunnel lan dns \<Rightarrow>
          only [ChainPrerouting] c
            [(\<lambda>p. off_iface env DirIn (tm_interface tunnel) p \<and> split_tunneled p,
              Alter (\<lambda>p. p\<lparr>p_mark := fwmark\<rparr>))]
      | _ \<Rightarrow> [])"

section \<open>Rules of one policy\<close>

definition tunnel_endpoint_guards :: "u32 \<Rightarrow> allowed_endpoint \<Rightarrow> fw_chain \<Rightarrow> guarded list" where
  "tunnel_endpoint_guards fwmark ep c =
     only [ChainPrerouting] c
       [(has_endpoint EndSrc (ae_endpoint ep), Alter (\<lambda>p. p\<lparr>p_mark := fwmark\<rparr>))] @
     only [ChainIn] c
       [accept_if (\<lambda>p. has_endpoint EndSrc (ae_endpoint ep) p \<and> established p)] @
     only [ChainOut] c
       [accept_if (\<lambda>p. has_endpoint EndDst (ae_endpoint ep) p \<and> p_mark p = fwmark)] @
     (if allow_all (ae_clients ep)
      then only [ChainMangle] c
        [(has_endpoint EndDst (ae_endpoint ep), Alter (mark_excluded fwmark))] else [])"

definition allow_endpoint_guards :: "allowed_endpoint \<Rightarrow> fw_chain \<Rightarrow> guarded list" where
  "allow_endpoint_guards ep c =
     only [ChainIn] c
       [accept_if (\<lambda>p. has_endpoint EndSrc (ae_endpoint ep) p \<and> established p \<and> root_or_all ep p)] @
     only [ChainOut] c
       [accept_if (\<lambda>p. has_endpoint EndDst (ae_endpoint ep) p \<and> root_or_all ep p)]"

definition local_dns :: "fw_env \<Rightarrow> string \<Rightarrow> transport_protocol \<Rightarrow> ip_addr \<Rightarrow> fw_direction \<Rightarrow> guard"
where
  "local_dns env iface protocol server dir p \<longleftrightarrow>
     (let e = (case dir of DirIn \<Rightarrow> EndSrc | DirOut \<Rightarrow> EndDst) in
      off_iface env dir iface p \<and> has_port protocol e 53 p \<and> packet_addr e p = server)"

definition local_dns_guards ::
  "fw_env \<Rightarrow> string \<Rightarrow> transport_protocol \<Rightarrow> ip_addr \<Rightarrow> fw_chain \<Rightarrow> guarded list" where
  "local_dns_guards env iface protocol server c =
     only [ChainOut] c [accept_if (local_dns env iface protocol server DirOut)] @
     only [ChainForward] c [accept_if (local_dns env iface protocol server DirOut)] @
     only [ChainIn] c [accept_if (local_dns env iface protocol server DirIn)] @
     only [ChainForward] c [accept_if (local_dns env iface protocol server DirIn)]"

definition drop_dns_guards :: "fw_chain \<Rightarrow> guarded list" where
  "drop_dns_guards c =
     only [ChainOut, ChainForward] c
       [(has_port Udp EndDst 53, Give (VReject IcmpPortUnreach)),
        (has_port Tcp EndDst 53, Give (VReject TcpRst))]"

definition in_tunnel_endpoint_guards :: "fw_env \<Rightarrow> string \<Rightarrow> endpoint \<Rightarrow> fw_chain \<Rightarrow> guarded list"
where
  "in_tunnel_endpoint_guards env iface ep c =
     only [ChainOut] c
       [accept_if (\<lambda>p. on_iface env DirOut iface p \<and> has_endpoint EndDst ep p)] @
     only [ChainIn] c
       [accept_if (\<lambda>p. on_iface env DirIn iface p \<and> has_endpoint EndSrc ep p)]"

definition tunnel_guards :: "fw_env \<Rightarrow> string \<Rightarrow> fw_chain \<Rightarrow> guarded list" where
  "tunnel_guards env iface c =
     only [ChainOut] c [accept_if (on_iface env DirOut iface)] @
     only [ChainForward] c [accept_if (on_iface env DirOut iface)] @
     only [ChainIn] c [accept_if (on_iface env DirIn iface)] @
     only [ChainForward] c [accept_if (\<lambda>p. on_iface env DirIn iface p \<and> established p)]"

definition cve_guards :: "tunnel_metadata \<Rightarrow> fw_chain \<Rightarrow> guarded list" where
  "cve_guards tunnel c =
     only [ChainIn] c (map (\<lambda>ip. (\<lambda>p. packet_addr EndDst p = ip, Give VDrop)) (tm_ips tunnel))"

definition dhcp_server_request :: guard where
  "dhcp_server_request p \<longleftrightarrow>
     has_port Udp EndSrc 68 p \<and> has_endpoint EndDst (endpoint_new BROADCAST 67 Udp) p"

definition lan_guards :: "fw_chain \<Rightarrow> guarded list" where
  "lan_guards c =
     only [ChainOut, ChainForward] c
       (map (\<lambda>net. accept_if (to_net net)) (ALLOWED_LAN_NETS @ ALLOWED_LAN_MULTICAST_NETS)) @
     only [ChainIn] c (map (\<lambda>net. accept_if (from_net net)) ALLOWED_LAN_NETS) @
     only [ChainOut] c [accept_if dhcpv4_reply] @
     only [ChainIn] c [accept_if dhcp_server_request]"

definition traffic_guards ::
  "fw_env \<Rightarrow> string \<Rightarrow> allowed_tunnel_traffic \<Rightarrow> fw_chain \<Rightarrow> guarded list" where
  "traffic_guards env iface traffic c =
     (case traffic of
        TrafficAll \<Rightarrow> tunnel_guards env iface c
      | TrafficNone \<Rightarrow> []
      | TrafficOne ep \<Rightarrow> in_tunnel_endpoint_guards env iface ep c
      | TrafficTwo ep1 ep2 \<Rightarrow>
          in_tunnel_endpoint_guards env iface ep1 c @ in_tunnel_endpoint_guards env iface ep2 c)"

definition connecting_guards ::
  "fw_env \<Rightarrow> u32 \<Rightarrow> allowed_endpoint list \<Rightarrow> tunnel_metadata option \<Rightarrow> bool \<Rightarrow>
    allowed_endpoint \<Rightarrow> allowed_tunnel_traffic \<Rightarrow> fw_chain \<Rightarrow> guarded list" where
  "connecting_guards env fwmark peers tunnel allow_lan ep traffic c =
     concat (map (\<lambda>peer. tunnel_endpoint_guards fwmark peer c) peers) @
     allow_endpoint_guards ep c @ drop_dns_guards c @
     (case tunnel of
        None \<Rightarrow> []
      | Some tun \<Rightarrow> traffic_guards env (tm_interface tun) traffic c @
          (if allow_lan then cve_guards tun c else []))"

definition connected_guards ::
  "fw_env \<Rightarrow> u32 \<Rightarrow> allowed_endpoint list \<Rightarrow> tunnel_metadata \<Rightarrow> bool \<Rightarrow>
    resolved_dns_config \<Rightarrow> fw_chain \<Rightarrow> guarded list" where
  "connected_guards env fwmark peers tunnel allow_lan dns c =
     concat (map (\<lambda>peer. tunnel_endpoint_guards fwmark peer c) peers) @
     concat (map (\<lambda>server. only [ChainOut, ChainForward] c
         [accept_if (tunnel_dns_request env (tm_interface tunnel) Udp server),
          accept_if (tunnel_dns_request env (tm_interface tunnel) Tcp server)]) (tunnel_dns dns)) @
     concat (map (\<lambda>server.
         local_dns_guards env (tm_interface tunnel) Udp server c @
         local_dns_guards env (tm_interface tunnel) Tcp server c) (non_tunnel_dns dns)) @
     drop_dns_guards c @ tunnel_guards env (tm_interface tunnel) c @
     (if allow_lan then cve_guards tunnel c else [])"

definition specific_guards :: "fw_env \<Rightarrow> firewall_policy \<Rightarrow> u32 \<Rightarrow> fw_chain \<Rightarrow> guarded list" where
  "specific_guards env policy fwmark c =
     (case policy of
        PolicyConnecting peers tunnel allow_lan ep traffic \<Rightarrow>
          connecting_guards env fwmark peers tunnel allow_lan ep traffic c
      | PolicyConnected peers tunnel allow_lan dns \<Rightarrow>
          connected_guards env fwmark peers tunnel allow_lan dns c
      | PolicyBlocked allow_lan ep \<Rightarrow>
          (case ep of Some endpoint \<Rightarrow> allow_endpoint_guards endpoint c | None \<Rightarrow> []) @
          drop_dns_guards c) @
     (if policy_allow_lan policy then lan_guards c else []) @
     only [ChainOut, ChainForward] c [(\<lambda>p. True, Give (VReject IcmpPortUnreach))]"

definition split_tunneling_available :: "fw_env \<Rightarrow> bool" where
  "split_tunneling_available env \<longleftrightarrow>
     (case find_net_cls_mount env of Inr (Some path) \<Rightarrow> True | _ \<Rightarrow> False)"

definition policy_guards :: "fw_env \<Rightarrow> firewall_policy \<Rightarrow> u32 \<Rightarrow> fw_chain \<Rightarrow> guarded list" where
  "policy_guards env policy fwmark c =
     loopback_guards env c @
     (if split_tunneling_available env then split_tunneling_guards env policy fwmark c else []) @
     dhcp_client_guards c @ ndp_guards c @ specific_guards env policy fwmark c"

section \<open>The batch implements the guards\<close>

context nft_vm
begin

lemma decides_allow_interface_rule:
  assumes "allow_interface_rule env dir iface = Inr rule"
  shows "decides step rule (accept_if (on_iface env dir iface))"
proof -
  obtain es where "check_iface env dir iface [] = Inr es" and "rule = add_verdict env VAccept es"
    using assms by (auto simp: allow_interface_rule_def)
  then show ?thesis
    using decides_verdictI [OF checks_iface [OF _ checks_Nil]] by simp
qed

lemma decides_allow_tunnel_dns_rule:
  assumes "allow_tunnel_dns_rule env Inet iface protocol host = Inr rule"
  shows "decides step rule (accept_if (tunnel_dns_request env iface protocol host))"
proof -
  obtain es where es: "check_iface env DirOut iface [] = Inr es"
    and rule: "rule = add_verdict env VAccept (check_l3proto host (check_port protocol EndDst 53 es)
      @ [addr_payload host EndDst, Cmp CmpEq (ip_data host)])"
    using assms by (auto simp: allow_tunnel_dns_rule_def)
  show ?thesis
    unfolding rule
    by (rule decides_verdictI [OF checks_l3proto_addr [OF checks_port
            [OF checks_iface [OF es checks_Nil]]]]) (simp add: tunnel_dns_request_def)
qed

lemma models_loopback:
  assumes "add_loopback_rules env b = Inr b'" and "models step b c gs"
  shows "models step b' c (gs @ loopback_guards env c)"
  using assms models_add_rule [OF models_add_rule [OF assms(2) decides_allow_interface_rule]
      decides_allow_interface_rule]
  by (fastforce simp: add_loopback_rules_def loopback_guards_def)

lemma models_dhcpv6_requests:
  assumes "models step b c gs"
    and "\<And>server. decides step (rule server) (accept_if (dhcpv6_request server))"
  shows "models step (fold (\<lambda>chain b. fold (\<lambda>server. add_rule chain (rule server))
      DHCPV6_SERVER_ADDRS b) [ChainOut, ChainForward] b) c
    (gs @ only [ChainOut, ChainForward] c
      (map (\<lambda>server. accept_if (dhcpv6_request server)) DHCPV6_SERVER_ADDRS))"
  using assms by (auto simp: models_def only_def chain_rules_add_rule list_all2_appendI
      DHCPV6_SERVER_ADDRS_def)

lemma models_dhcp_client:
  assumes "models step b c gs"
  shows "models step (add_dhcp_client_rules env b) c (gs @ dhcp_client_guards c)"
  unfolding add_dhcp_client_rules_def Let_def dhcp_client_guards_def append_assoc [symmetric]
  by (intro models_add_rules models_dhcpv6_requests assms;
      (rule decides_verdictI, (rule checks_intros)+)?)
    (auto simp: dhcpv4_request_def dhcpv4_reply_def dhcpv6_request_def dhcpv6_reply_def
      DHCPV4_SERVER_PORT_def DHCPV4_CLIENT_PORT_def DHCPV6_SERVER_PORT_def DHCPV6_CLIENT_PORT_def)

lemma models_ndp:
  assumes "models step b c gs"
  shows "models step (add_ndp_rules env b) c (gs @ ndp_guards c)"
  unfolding add_ndp_rules_def Let_def ndp_guards_def append_assoc [symmetric]
  by (intro models_add_rules assms; (rule decides_verdictI, (rule checks_intros)+)?)
    (auto simp: router_solicitation_def)

lemma checks_iface_ct_mark:
  assumes "checks step es P"
  shows "checks step (es @ [CtMark, Cmp CmpEq (D32 SPLIT_TUNNEL_MARK)]) (\<lambda>p. P p \<and> split_tunneled p)"
  by (rule checks_append [OF assms checks_ct_mark])

lemma decides_masquerade:
  assumes "iface_index env ''lo'' = Inr lo"
  shows "decides step
    ([Meta MetaOif, Cmp CmpNeq (D32 lo), CtMark, Cmp CmpEq (D32 SPLIT_TUNNEL_MARK), Masquerade] @
     (if ctr then [Counter] else []))
    (accept_if (\<lambda>p. off_iface env DirOut ''lo'' p \<and> split_tunneled p))"
  using assms by (auto simp: decides_def step_simps off_iface_def split_tunneled_def
      packet_iface_def iface_index_def split: option.splits)

lemma decides_mark_excluded_cgroup:
  "decides step
     [Meta MetaCgroup, Cmp CmpEq (D32 NET_CLS_CLASSID), Immediate (D32 SPLIT_TUNNEL_MARK),
      CtMarkSet, Immediate (D32 fwmark), MetaMarkSet]
     (\<lambda>p. p_cgroup p = NET_CLS_CLASSID, Alter (mark_excluded fwmark))"
  by (simp add: decides_def step_simps mark_excluded_def)

lemma models_mangle_dns:
  assumes "fold_result (\<lambda>server b.
      and_then (allow_tunnel_dns_rule env Inet iface Udp server) (\<lambda>rule.
        let b = add_rule ChainMangle rule b in
        and_then (allow_tunnel_dns_rule env Inet iface Tcp server)
          (\<lambda>rule. Inr (add_rule ChainMangle rule b)))) servers b = Inr b'"
    and "models step b c gs"
  shows "models step b' c (gs @ only [ChainMangle] c (concat (map (\<lambda>server.
    [accept_if (tunnel_dns_request env iface Udp server),
     accept_if (tunnel_dns_request env iface Tcp server)]) servers)))"
  unfolding concat_map_only [symmetric]
proof (rule models_fold_result [OF assms], goal_cases)
  case (1 server b b' gs)
  then obtain udp tcp where udp: "allow_tunnel_dns_rule env Inet iface Udp server = Inr udp"
    and tcp: "allow_tunnel_dns_rule env Inet iface Tcp server = Inr tcp"
    and b': "b' = add_rule ChainMangle tcp (add_rule ChainMangle udp b)"
    by (auto simp: Let_def)
  show ?case
    using models_add_rule [OF models_add_rule [OF 1(2) decides_allow_tunnel_dns_rule [OF udp]]
        decides_allow_tunnel_dns_rule [OF tcp], of ChainMangle ChainMangle]
    by (auto simp: b' only_def)
qed

lemma decides_split_tunneled:
  "decides step (add_verdict env VAccept [CtMark, Cmp CmpEq (D32 SPLIT_TUNNEL_MARK)])
     (accept_if split_tunneled)"
  by (rule decides_add_verdict [OF checks_ct_mark])

lemma models_split_tunneling_connected:
  assumes "add_split_tunneling_rules env (PolicyConnected peers tunnel lan dns) fwmark b = Inr b'"
    and "models step b c gs"
  shows "models step b' c
    (gs @ split_tunneling_guards env (PolicyConnected peers tunnel lan dns) fwmark c)"
proof -
  obtain b1 es lo ns where
    b1: "fold_result (\<lambda>server b.
        and_then (allow_tunnel_dns_rule env Inet (tm_interface tunnel) Udp server) (\<lambda>rule.
          let b = add_rule ChainMangle rule b in
          and_then (allow_tunnel_dns_rule env Inet (tm_interface tunnel) Tcp server)
            (\<lambda>rule. Inr (add_rule ChainMangle rule b)))) (tunnel_dns dns) b = Inr b1"
    and es: "check_iface env DirOut (tm_interface tunnel) [] = Inr es"
    and lo: "iface_index env ''lo'' = Inr lo"
    and ns: "check_not_iface env DirIn (tm_interface tunnel) [] = Inr ns"
    and b': "b' = add_rule ChainPrerouting
      ((ns @ [CtMark, Cmp CmpEq (D32 SPLIT_TUNNEL_MARK)]) @
        [Immediate (D32 fwmark), MetaMarkSet] @ (if fe_add_counters env then [Counter] else []))
      (add_rule ChainNat
        ([Meta MetaOif, Cmp CmpNeq (D32 lo), CtMark, Cmp CmpEq (D32 SPLIT_TUNNEL_MARK),
          Masquerade] @ (if fe_add_counters env then [Counter] else []))
      (add_rule ChainNat (add_verdict env VDrop
        (es @ [CtMark, Cmp CmpEq (D32 SPLIT_TUNNEL_MARK)]))
      (add_rules [ChainIn, ChainOut, ChainForward]
        (add_verdict env VAccept [CtMark, Cmp CmpEq (D32 SPLIT_TUNNEL_MARK)])
      (add_rule ChainMangle
        [Meta MetaCgroup, Cmp CmpEq (D32 NET_CLS_CLASSID), Immediate (D32 SPLIT_TUNNEL_MARK),
         CtMarkSet, Immediate (D32 fwmark), MetaMarkSet] b1))))"
    using assms(1) by (auto simp: add_split_tunneling_rules_def Let_def)
  have drop: "decides step (add_verdict env VDrop (es @ [CtMark, Cmp CmpEq (D32 SPLIT_TUNNEL_MARK)]))
      (\<lambda>p. on_iface env DirOut (tm_interface tunnel) p \<and> split_tunneled p, Give VDrop)"
    by (rule decides_verdictI [OF checks_iface_ct_mark [OF checks_iface [OF es checks_Nil]]]) simp
  have pre: "decides step
      ((ns @ [CtMark, Cmp CmpEq (D32 SPLIT_TUNNEL_MARK)]) @
        [Immediate (D32 fwmark), MetaMarkSet] @ (if fe_add_counters env then [Counter] else []))
      (\<lambda>p. off_iface env DirIn (tm_interface tunnel) p \<and> split_tunneled p,
       Alter (\<lambda>p. p\<lparr>p_mark := fwmark\<rparr>))"
    by (rule decides_cong [OF decides_set_mark
          [OF checks_iface_ct_mark [OF checks_not_iface [OF ns checks_Nil]]]]) simp
  show ?thesis
    unfolding b' split_tunneling_guards_def firewall_policy.case append_assoc [symmetric]
    by (intro models_add_rule models_add_rules pre [unfolded append_assoc [symmetric]] drop
        decides_masquerade [OF lo]
        decides_split_tunneled decides_mark_excluded_cgroup models_mangle_dns [OF b1 assms(2)]) simp
qed

lemma models_split_tunneling_other:
  assumes "add_split_tunneling_rules env policy fwmark b = Inr b'" and "models step b c gs"
    and other: "\<And>peers tunnel lan dns. policy \<noteq> PolicyConnected peers tunnel lan dns"
  shows "models step b' c (gs @ split_tunneling_guards env policy fwmark c)"
proof -
  obtain lo where lo: "iface_index env ''lo'' = Inr lo"
    and b': "b' = add_rule ChainNat
        ([Meta MetaOif, Cmp CmpNeq (D32 lo), CtMark, Cmp CmpEq (D32 SPLIT_TUNNEL_MARK),
          Masquerade] @ (if fe_add_counters env then [Counter] else []))
      (add_rules [ChainIn, ChainOut, ChainForward]
        (add_verdict env VAccept [CtMark, Cmp CmpEq (D32 SPLIT_TUNNEL_MARK)])
      (add_rule ChainMangle
        [Meta MetaCgroup, Cmp CmpEq (D32 NET_CLS_CLASSID), Immediate (D32 SPLIT_TUNNEL_MARK),
         CtMarkSet, Immediate (D32 fwmark), MetaMarkSet] b))"
    using assms(1) other
    by (auto simp: add_split_tunneling_rules_def Let_def split: firewall_policy.splits)
  have guards: "split_tunneling_guards env policy fwmark c =
      only [ChainMangle] c [(\<lambda>p. p_cgroup p = NET_CLS_CLASSID, Alter (mark_excluded fwmark))] @
      only [ChainIn, ChainOut, ChainForward] c [accept_if split_tunneled] @
      only [ChainNat] c [accept_if (\<lambda>p. off_iface env DirOut ''lo'' p \<and> split_tunneled p)]"
    using other by (simp add: split_tunneling_guards_def split: firewall_policy.splits)
  show ?thesis
    unfolding b' guards append_assoc [symmetric]
    by (intro models_add_rule models_add_rules decides_masquerade [OF lo]
        decides_split_tunneled decides_mark_excluded_cgroup assms(2)) simp
qed

lemma models_split_tunneling:
  assumes "add_split_tunneling_rules env policy fwmark b = Inr b'" and "models step b c gs"
  shows "models step b' c (gs @ split_tunneling_guards env policy fwmark c)"
proof (cases policy)
  case PolicyConnected
  then show ?thesis using assms models_split_tunneling_connected by blast
qed (use assms models_split_tunneling_other in blast)+

lemma models_tunnel_endpoint:
  assumes "models step b c gs"
  shows "models step (add_allow_tunnel_endpoint_rules env fwmark ep b) c
    (gs @ tunnel_endpoint_guards fwmark ep c)"
proof -
  have mark: "decides step (check_endpoint EndDst (ae_endpoint ep) [] @
      [Immediate (D32 SPLIT_TUNNEL_MARK), CtMarkSet, Immediate (D32 fwmark), MetaMarkSet])
      (has_endpoint EndDst (ae_endpoint ep), Alter (mark_excluded fwmark))"
    using decides_set_marks [OF checks_endpoint [OF checks_Nil]]
    by (simp add: mark_excluded_def [abs_def])
  have pre: "decides step (check_endpoint EndSrc (ae_endpoint ep) [] @
      [Immediate (D32 fwmark), MetaMarkSet] @ (if fe_add_counters env then [Counter] else []))
      (has_endpoint EndSrc (ae_endpoint ep), Alter (\<lambda>p. p\<lparr>p_mark := fwmark\<rparr>))"
    using decides_set_mark [OF checks_endpoint [OF checks_Nil]] by simp
  have inc: "decides step (add_verdict env VAccept
      (check_established (check_endpoint EndSrc (ae_endpoint ep) [])))
      (accept_if (\<lambda>p. has_endpoint EndSrc (ae_endpoint ep) p \<and> established p))"
    by (rule decides_verdictI, (rule checks_intros)+) simp
  have out: "decides step (add_verdict env VAccept
      (check_endpoint EndDst (ae_endpoint ep) [] @ [Meta MetaMark, Cmp CmpEq (D32 fwmark)]))
      (accept_if (\<lambda>p. has_endpoint EndDst (ae_endpoint ep) p \<and> p_mark p = fwmark))"
    by (rule decides_verdictI, rule checks_append [OF checks_endpoint [OF checks_Nil] checks_mark])
      simp
  note three = models_add_rule [OF models_add_rule [OF models_add_rule [OF assms pre] inc] out]
  show ?thesis
    using three models_add_rule [OF three mark]
    by (auto simp: add_allow_tunnel_endpoint_rules_def tunnel_endpoint_guards_def Let_def)
qed

lemma models_allow_endpoint:
  assumes "models step b c gs"
  shows "models step (add_allow_endpoint_rules env ep b) c (gs @ allow_endpoint_guards ep c)"
  unfolding add_allow_endpoint_rules_def Let_def allow_endpoint_guards_def append_assoc [symmetric]
  by (intro models_add_rule assms; rule decides_verdictI, (rule checks_intros)+) auto

lemma models_drop_dns:
  assumes "models step b c gs"
  shows "models step (add_drop_dns_rule env b) c (gs @ drop_dns_guards c)"
proof -
  have "decides step (add_verdict env v (check_port protocol EndDst 53 []))
      (has_port protocol EndDst 53, Give v)" for protocol v
    by (rule decides_verdictI, (rule checks_intros)+) simp
  then show ?thesis
    using assms by (auto simp: add_drop_dns_rule_def drop_dns_guards_def only_def models_def
        chain_rules_add_rule list_all2_appendI)
qed

lemma models_cve:
  assumes "models step b c gs"
  shows "models step (add_block_cve_2019_14899 env tunnel b) c (gs @ cve_guards tunnel c)"
proof -
  have "decides step (add_verdict env VDrop (check_ip EndDst ip []))
      (\<lambda>p. packet_addr EndDst p = ip, Give VDrop)" for ip
    by (rule decides_verdictI, (rule checks_intros)+) simp
  from models_fold_add_rule [OF assms this] show ?thesis
    by (simp add: add_block_cve_2019_14899_def cve_guards_def)
qed

lemma models_net_rules:
  assumes "models step b c gs"
  shows "models step (add_net_rules env chain e nets b) c
    (gs @ only [chain] c (map (\<lambda>net. accept_if (\<lambda>p. net_match net (packet_addr e p))) nets))"
proof -
  have "decides step (add_verdict env VAccept (check_net e net []))
      (accept_if (\<lambda>p. net_match net (packet_addr e p)))" for net
    by (rule decides_verdictI, (rule checks_intros)+) simp
  from models_fold_add_rule [OF assms this] show ?thesis
    by (simp add: add_net_rules_def)
qed

lemma models_lan:
  assumes "models step b c gs"
  shows "models step (add_allow_lan_rules env b) c (gs @ lan_guards c)"
proof -
  have out: "models step (fold (\<lambda>chain b.
      add_net_rules env chain EndDst ALLOWED_LAN_MULTICAST_NETS
        (add_net_rules env chain EndDst ALLOWED_LAN_NETS b)) [ChainOut, ChainForward] b) c
    (gs @ only [ChainOut, ChainForward] c
       (map (\<lambda>net. accept_if (to_net net)) (ALLOWED_LAN_NETS @ ALLOWED_LAN_MULTICAST_NETS)))"
    using models_net_rules [OF models_net_rules [OF models_net_rules [OF models_net_rules [OF assms,
      of env ChainOut EndDst ALLOWED_LAN_NETS], of env ChainOut EndDst ALLOWED_LAN_MULTICAST_NETS],
      of env ChainForward EndDst ALLOWED_LAN_NETS],
      of env ChainForward EndDst ALLOWED_LAN_MULTICAST_NETS]
    by (cases c) (simp_all add: only_def)
  have reply: "decides step (add_verdict env VAccept
      (check_port Udp EndDst DHCPV4_CLIENT_PORT (check_port Udp EndSrc DHCPV4_SERVER_PORT [])))
      (accept_if dhcpv4_reply)"
    by (rule decides_verdictI, (rule checks_intros)+)
      (auto simp: dhcpv4_reply_def DHCPV4_SERVER_PORT_def DHCPV4_CLIENT_PORT_def)
  have request: "decides step (add_verdict env VAccept
      (check_endpoint EndDst (endpoint_new BROADCAST DHCPV4_SERVER_PORT Udp)
        (check_port Udp EndSrc DHCPV4_CLIENT_PORT []))) (accept_if dhcp_server_request)"
    by (rule decides_verdictI, (rule checks_intros)+)
      (auto simp: dhcp_server_request_def DHCPV4_SERVER_PORT_def DHCPV4_CLIENT_PORT_def)
  show ?thesis
    unfolding add_allow_lan_rules_def add_dhcp_server_rules_def lan_guards_def Let_def
      append_assoc [symmetric]
    by (intro models_add_rule models_net_rules reply request out)
qed

lemma models_in_tunnel_endpoint:
  assumes "add_allow_in_tunnel_endpoint_rules env iface ep b = Inr b'" and "models step b c gs"
  shows "models step b' c (gs @ in_tunnel_endpoint_guards env iface ep c)"
proof -
  obtain os ins where os: "check_iface env DirOut iface [] = Inr os"
    and ins: "check_iface env DirIn iface [] = Inr ins"
    and b': "b' = add_rule ChainIn (add_verdict env VAccept (check_port (ep_protocol ep) EndSrc
        (sa_port (ep_address ep)) (check_ip EndSrc (sa_ip (ep_address ep)) ins)))
      (add_rule ChainOut (add_verdict env VAccept (check_port (ep_protocol ep) EndDst
        (sa_port (ep_address ep)) (check_ip EndDst (sa_ip (ep_address ep)) os))) b)"
    using assms(1) by (auto simp: add_allow_in_tunnel_endpoint_rules_def)
  show ?thesis
    unfolding b' in_tunnel_endpoint_guards_def append_assoc [symmetric]
    by (intro models_add_rule assms(2);
        rule decides_verdictI [OF checks_port [OF checks_ip [OF checks_iface [OF _ checks_Nil]]]],
        rule os ins) (auto simp: has_endpoint_def)
qed

lemma models_tunnel:
  assumes "add_allow_tunnel_rules env iface b = Inr b'" and "models step b c gs"
  shows "models step b' c (gs @ tunnel_guards env iface c)"
proof -
  obtain os ins es where os: "allow_interface_rule env DirOut iface = Inr os"
    and ins: "allow_interface_rule env DirIn iface = Inr ins"
    and es: "check_iface env DirIn iface [] = Inr es"
    and b': "b' = add_rule ChainForward (add_verdict env VAccept (check_established es))
      (add_rule ChainIn ins (add_rule ChainForward os (add_rule ChainOut os b)))"
    using assms(1) by (auto simp: add_allow_tunnel_rules_def Let_def)
  have "decides step (add_verdict env VAccept (check_established es))
      (accept_if (\<lambda>p. on_iface env DirIn iface p \<and> established p))"
    by (rule decides_verdictI [OF checks_established [OF checks_iface [OF es checks_Nil]]]) simp
  then show ?thesis
    unfolding b' tunnel_guards_def append_assoc [symmetric]
    by (intro models_add_rule assms(2) decides_allow_interface_rule [OF os]
        decides_allow_interface_rule [OF ins])
qed

lemma models_tunnel_dns:
  assumes "add_allow_tunnel_dns_rule env iface protocol host b = Inr b'" and "models step b c gs"
  shows "models step b' c (gs @ only [ChainOut, ChainForward] c
    [accept_if (tunnel_dns_request env iface protocol host)])"
proof -
  obtain rule where rule: "allow_tunnel_dns_rule env Inet iface protocol host = Inr rule"
    and b': "b' = add_rules [ChainOut, ChainForward] rule b"
    using assms(1) by (auto simp: add_allow_tunnel_dns_rule_def add_rules_def)
  show ?thesis
    unfolding b'
    by (intro models_add_rules assms(2) decides_allow_tunnel_dns_rule [OF rule]) simp
qed

lemma models_local_dns:
  assumes "add_allow_local_dns_rule env iface protocol host b = Inr b'" and "models step b c gs"
  shows "models step b' c (gs @ local_dns_guards env iface protocol host c)"
proof -
  define rule where "rule dir es = add_verdict env VAccept
      (check_l3proto host (check_port protocol (case dir of DirIn \<Rightarrow> EndSrc | DirOut \<Rightarrow> EndDst) 53 es) @
       [addr_payload host (case dir of DirIn \<Rightarrow> EndSrc | DirOut \<Rightarrow> EndDst), Cmp CmpEq (ip_data host)])"
    for dir es
  have dec: "decides step (rule dir es) (accept_if (local_dns env iface protocol host dir))"
    if "check_not_iface env dir iface [] = Inr es" for dir es
    unfolding rule_def
    by (rule decides_verdictI [OF checks_l3proto_addr [OF checks_port
            [OF checks_not_iface [OF that checks_Nil]]]]) (simp add: local_dns_def Let_def)
  obtain os ins where "check_not_iface env DirOut iface [] = Inr os"
    and "check_not_iface env DirIn iface [] = Inr ins"
    and b': "b' = add_rule ChainForward (rule DirIn ins) (add_rule ChainIn (rule DirIn ins)
      (add_rule ChainForward (rule DirOut os) (add_rule ChainOut (rule DirOut os) b)))"
    using assms(1) by (auto simp: add_allow_local_dns_rule_def rule_def Let_def)
  then show ?thesis
    unfolding b' local_dns_guards_def append_assoc [symmetric]
    by (intro models_add_rule assms(2) dec)
qed

lemma models_peers:
  assumes "models step b c gs"
  shows "models step (fold (add_allow_tunnel_endpoint_rules env fwmark) peers b) c
    (gs @ concat (map (\<lambda>peer. tunnel_endpoint_guards fwmark peer c) peers))"
  by (rule models_fold [OF assms models_tunnel_endpoint])

lemma models_traffic:
  assumes "(case traffic of
      TrafficAll \<Rightarrow> add_allow_tunnel_rules env iface b
    | TrafficNone \<Rightarrow> Inr b
    | TrafficOne ep \<Rightarrow> add_allow_in_tunnel_endpoint_rules env iface ep b
    | TrafficTwo ep1 ep2 \<Rightarrow>
        and_then (add_allow_in_tunnel_endpoint_rules env iface ep1 b)
          (add_allow_in_tunnel_endpoint_rules env iface ep2)) = Inr b'"
    and "models step b c gs"
  shows "models step b' c (gs @ traffic_guards env iface traffic c)"
proof (cases traffic)
  case (TrafficTwo ep1 ep2)
  then obtain b1 where "add_allow_in_tunnel_endpoint_rules env iface ep1 b = Inr b1"
    and "add_allow_in_tunnel_endpoint_rules env iface ep2 b1 = Inr b'"
    using assms(1) by auto
  from models_in_tunnel_endpoint [OF this(2) models_in_tunnel_endpoint [OF this(1) assms(2)]]
  show ?thesis by (simp add: traffic_guards_def TrafficTwo)
qed (use assms models_tunnel [OF _ assms(2)] models_in_tunnel_endpoint [OF _ assms(2)] in
  \<open>simp_all add: traffic_guards_def\<close>)

lemma models_connecting:
  assumes "add_connecting_rules env fwmark peers tunnel allow_lan ep traffic b = Inr b'"
    and "models step b c gs"
  shows "models step b' c (gs @ connecting_guards env fwmark peers tunnel allow_lan ep traffic c)"
proof -
  define b1 where "b1 = add_drop_dns_rule env (add_allow_endpoint_rules env ep
      (fold (add_allow_tunnel_endpoint_rules env fwmark) peers b))"
  have b1: "models step b1 c (((gs @ concat (map (\<lambda>peer. tunnel_endpoint_guards fwmark peer c) peers))
      @ allow_endpoint_guards ep c) @ drop_dns_guards c)"
    unfolding b1_def by (intro models_drop_dns models_allow_endpoint models_peers assms(2))
  show ?thesis
  proof (cases tunnel)
    case None
    with assms(1) b1 show ?thesis
      by (simp add: add_connecting_rules_def connecting_guards_def Let_def b1_def)
  next
    case (Some tun)
    let ?traffic = "case traffic of
          TrafficAll \<Rightarrow> add_allow_tunnel_rules env (tm_interface tun) b1
        | TrafficNone \<Rightarrow> Inr b1
        | TrafficOne ep \<Rightarrow> add_allow_in_tunnel_endpoint_rules env (tm_interface tun) ep b1
        | TrafficTwo ep1 ep2 \<Rightarrow>
            and_then (add_allow_in_tunnel_endpoint_rules env (tm_interface tun) ep1 b1)
              (add_allow_in_tunnel_endpoint_rules env (tm_interface tun) ep2)"
    have "and_then ?traffic
        (\<lambda>b. Inr (if allow_lan then add_block_cve_2019_14899 env tun b else b)) = Inr b'"
      using assms(1) Some unfolding add_connecting_rules_def b1_def Let_def by simp
    then obtain b2 where "?traffic = Inr b2"
      and b2: "Inr (if allow_lan then add_block_cve_2019_14899 env tun b2 else b2) =
        (Inr b' :: (linux_fw_error, batch) result)"
      by (rule and_then_InrE)
    have b': "b' = (if allow_lan then add_block_cve_2019_14899 env tun b2 else b2)"
      using b2 by simp
    note m2 = models_traffic [OF \<open>?traffic = Inr b2\<close> b1]
    show ?thesis
      using m2 models_cve [OF m2] by (simp add: b' Some connecting_guards_def)
  qed
qed

lemma models_tunnel_dns_servers:
  assumes "fold_result (\<lambda>server b.
      and_then (add_allow_tunnel_dns_rule env iface Udp server b)
        (add_allow_tunnel_dns_rule env iface Tcp server)) servers b = Inr b'"
    and "models step b c gs"
  shows "models step b' c (gs @ concat (map (\<lambda>server. only [ChainOut, ChainForward] c
    [accept_if (tunnel_dns_request env iface Udp server),
     accept_if (tunnel_dns_request env iface Tcp server)]) servers))"
proof (rule models_fold_result [OF assms], goal_cases)
  case (1 server b b' gs)
  then obtain b1 where "add_allow_tunnel_dns_rule env iface Udp server b = Inr b1"
    and "add_allow_tunnel_dns_rule env iface Tcp server b1 = Inr b'"
    by auto
  from models_tunnel_dns [OF this(2) models_tunnel_dns [OF this(1) 1(2)]]
  show ?case by (auto simp: only_def)
qed

lemma models_local_dns_servers:
  assumes "fold_result (\<lambda>server b.
      and_then (add_allow_local_dns_rule env iface Udp server b)
        (add_allow_local_dns_rule env iface Tcp server)) servers b = Inr b'"
    and "models step b c gs"
  shows "models step b' c (gs @ concat (map (\<lambda>server.
    local_dns_guards env iface Udp server c @ local_dns_guards env iface Tcp server c) servers))"
proof (rule models_fold_result [OF assms], goal_cases)
  case (1 server b b' gs)
  then obtain b1 where "add_allow_local_dns_rule env iface Udp server b = Inr b1"
    and "add_allow_local_dns_rule env iface Tcp server b1 = Inr b'"
    by auto
  from models_local_dns [OF this(2) models_local_dns [OF this(1) 1(2)]]
  show ?case by simp
qed

lemma models_connected:
  assumes "add_connected_rules env fwmark peers tunnel allow_lan dns b = Inr b'"
    and "models step b c gs"
  shows "models step b' c (gs @ connected_guards env fwmark peers tunnel allow_lan dns c)"
proof -
  let ?iface = "tm_interface tunnel"
  obtain b1 b2 b3 where
    b1: "fold_result (\<lambda>server b. and_then (add_allow_tunnel_dns_rule env ?iface Udp server b)
        (add_allow_tunnel_dns_rule env ?iface Tcp server)) (tunnel_dns dns)
      (fold (add_allow_tunnel_endpoint_rules env fwmark) peers b) = Inr b1"
    and b2: "fold_result (\<lambda>server b. and_then (add_allow_local_dns_rule env ?iface Udp server b)
        (add_allow_local_dns_rule env ?iface Tcp server)) (non_tunnel_dns dns) b1 = Inr b2"
    and b3: "add_allow_tunnel_rules env ?iface (add_drop_dns_rule env b2) = Inr b3"
    and b': "b' = (if allow_lan then add_block_cve_2019_14899 env tunnel b3 else b3)"
    using assms(1) by (auto simp: add_connected_rules_def Let_def)
  note m3 = models_tunnel [OF b3 models_drop_dns [OF models_local_dns_servers [OF b2
          models_tunnel_dns_servers [OF b1 models_peers [OF assms(2)]]]]]
  show ?thesis
    using m3 models_cve [OF m3] by (auto simp: b' connected_guards_def)
qed

lemma models_policy_specific:
  assumes "add_policy_specific_rules env policy fwmark b = Inr b'" and "models step b c gs"
  shows "models step b' c (gs @ specific_guards env policy fwmark c)"
proof -
  obtain b1 where
    b1: "(case policy of
        PolicyConnecting peers tunnel allow_lan ep traffic \<Rightarrow>
          add_connecting_rules env fwmark peers tunnel allow_lan ep traffic b
      | PolicyConnected peers tunnel allow_lan dns \<Rightarrow>
          add_connected_rules env fwmark peers tunnel allow_lan dns b
      | PolicyBlocked allow_lan ep \<Rightarrow> Inr (add_blocked_rules env ep b)) = Inr b1"
    and b': "b' = add_rules [ChainOut, ChainForward] (add_verdict env (VReject IcmpPortUnreach) [])
      (if policy_allow_lan policy then add_allow_lan_rules env b1 else b1)"
    using assms(1) by (auto simp: add_policy_specific_rules_def Let_def)
  define hs where "hs = (case policy of
        PolicyConnecting peers tunnel allow_lan ep traffic \<Rightarrow>
          connecting_guards env fwmark peers tunnel allow_lan ep traffic c
      | PolicyConnected peers tunnel allow_lan dns \<Rightarrow>
          connected_guards env fwmark peers tunnel allow_lan dns c
      | PolicyBlocked allow_lan ep \<Rightarrow>
          (case ep of Some endpoint \<Rightarrow> allow_endpoint_guards endpoint c | None \<Rightarrow> []) @
          drop_dns_guards c)"
  have m1: "models step b1 c (gs @ hs)"
  proof (cases policy)
    case (PolicyBlocked lan ep)
    then show ?thesis
      using b1 assms(2) models_drop_dns [OF models_allow_endpoint] models_drop_dns
      by (cases ep) (auto simp: add_blocked_rules_def hs_def)
  qed (use b1 assms(2) models_connecting models_connected in \<open>auto simp: hs_def\<close>)
  have reject: "decides step (add_verdict env (VReject IcmpPortUnreach) [])
      (\<lambda>p. True, Give (VReject IcmpPortUnreach))"
    by (rule decides_add_verdict [OF checks_Nil])
  note m2 = models_lan [OF m1, of env]
  show ?thesis
    using models_add_rules [OF m1 reject, of "[ChainOut, ChainForward]"]
      models_add_rules [OF m2 reject, of "[ChainOut, ChainForward]"]
    by (simp add: b' specific_guards_def hs_def)
qed

theorem models_finalize:
  assumes "finalize env policy fwmark = Inr b"
  shows "models step b c (policy_guards env policy fwmark c)"
proof -
  obtain b1 mount b2 where b1: "add_loopback_rules env policy_batch_new = Inr b1"
    and mount: "find_net_cls_mount env = Inr mount"
    and b2: "(if mount \<noteq> None then add_split_tunneling_rules env policy fwmark b1 else Inr b1) = Inr b2"
    and b: "add_policy_specific_rules env policy fwmark
      (add_ndp_rules env (add_dhcp_client_rules env b2)) = Inr b"
    using assms by (auto simp: finalize_def Let_def split: sum.splits)
  have avail: "split_tunneling_available env \<longleftrightarrow> mount \<noteq> None"
    using mount by (cases mount) (auto simp: split_tunneling_available_def)
  note m1 = models_loopback [OF b1 models_policy_batch_new]
  have m2: "models step b2 c (([] @ loopback_guards env c) @
      (if split_tunneling_available env then split_tunneling_guards env policy fwmark c else []))"
    using b2 m1 models_split_tunneling [OF _ m1] by (cases mount) (auto simp: avail)
  show ?thesis
    using models_policy_specific [OF b models_ndp [OF models_dhcp_client [OF m2]]]
    by (simp add: policy_guards_def)
qed

end

end
