(* ===== verification/Firewall_Security.thy ===== *)
theory Firewall_Security
  imports Firewall_Guards
begin

text \<open>
  The security specification of the Linux firewall, after \<^verbatim>\<open>docs/security.md\<close>: which packets
  may leave, enter and pass through the host under each policy, written without reference to
  rules, and the theorems that the generated chains admit exactly these packets. A packet
  traverses the base chains of a hook in the order of their priorities.
\<close>

section \<open>Traversal of the hooks\<close>

definition batch_chains :: "batch \<Rightarrow> chain_spec list" where
  "batch_chains b = concat (map (\<lambda>m. case m of MsgAddChain s \<Rightarrow> [s] | _ \<Rightarrow> []) b)"

definition chain_policy :: "batch \<Rightarrow> fw_chain \<Rightarrow> nft_verdict" where
  "chain_policy b c =
     (case find (\<lambda>s. cs_chain s = c) (batch_chains b) of
        Some s \<Rightarrow> (case cs_policy s of Some v \<Rightarrow> v | None \<Rightarrow> VAccept)
      | None \<Rightarrow> VAccept)"

definition hook_chains :: "batch \<Rightarrow> chain_hook \<Rightarrow> fw_chain list" where
  "hook_chains b h =
     map cs_chain (sort_key cs_priority (filter (\<lambda>s. cs_hook s = h) (batch_chains b)))"

fun run_chains :: "nft_step \<Rightarrow> batch \<Rightarrow> fw_chain list \<Rightarrow> packet \<Rightarrow> nft_verdict \<times> packet" where
  "run_chains step b [] p = (VAccept, p)"
| "run_chains step b (c # cs) p =
     (case run_chain step (chain_policy b c) (chain_rules c b) p of
        (VAccept, p') \<Rightarrow> run_chains step b cs p'
      | r \<Rightarrow> r)"

definition run_hook :: "nft_step \<Rightarrow> batch \<Rightarrow> chain_hook \<Rightarrow> packet \<Rightarrow> nft_verdict \<times> packet" where
  "run_hook step b h p = run_chains step b (hook_chains b h) p"

text \<open>A packet sent by the host, one addressed to it, and one that it routes.\<close>

definition send_verdict :: "nft_step \<Rightarrow> batch \<Rightarrow> packet \<Rightarrow> nft_verdict" where
  "send_verdict step b p = fst (run_hook step b HookOut p)"

definition receive_verdict :: "nft_step \<Rightarrow> batch \<Rightarrow> packet \<Rightarrow> nft_verdict" where
  "receive_verdict step b p =
     (case run_hook step b HookPreRouting p of
        (VAccept, p') \<Rightarrow> fst (run_hook step b HookIn p')
      | (v, p') \<Rightarrow> v)"

definition forward_verdict :: "nft_step \<Rightarrow> batch \<Rightarrow> packet \<Rightarrow> nft_verdict" where
  "forward_verdict step b p =
     (case run_hook step b HookPreRouting p of
        (VAccept, p') \<Rightarrow> fst (run_hook step b HookForward p')
      | (v, p') \<Rightarrow> v)"

lemma batch_chains_rules_batch: "rules_batch b \<Longrightarrow> batch_chains b = policy_chains"
  by (auto simp: rules_batch_def batch_chains_def policy_batch_new_def batch_add_def
      batch_deprecated_tables_def policy_chains_def comp_def case_prod_beta)

lemma hook_chains_rules_batch:
  assumes "rules_batch b"
  shows "hook_chains b HookOut = [ChainMangle, ChainOut]"
    and "hook_chains b HookIn = [ChainIn]"
    and "hook_chains b HookForward = [ChainForward]"
    and "hook_chains b HookPreRouting = [ChainPrerouting]"
    and "hook_chains b HookPostRouting = [ChainNat]"
  by (simp_all add: hook_chains_def batch_chains_rules_batch [OF assms] policy_chains_def
      MANGLE_CHAIN_PRIORITY_def)

lemma chain_policy_rules_batch:
  assumes "rules_batch b"
  shows "chain_policy b c = (if c \<in> {ChainIn, ChainOut, ChainForward} then VDrop else VAccept)"
  by (cases c) (simp_all add: chain_policy_def batch_chains_rules_batch [OF assms] policy_chains_def)

section \<open>What may pass\<close>

definition requests_dns :: guard where
  "requests_dns p \<longleftrightarrow> has_port Udp EndDst 53 p \<or> has_port Tcp EndDst 53 p"

definition dhcp_out :: guard where
  "dhcp_out p \<longleftrightarrow> dhcpv4_request p \<or> list_ex (\<lambda>server. dhcpv6_request server p) DHCPV6_SERVER_ADDRS"

definition dhcp_in :: guard where
  "dhcp_in p \<longleftrightarrow> dhcpv4_reply p \<or> dhcpv6_reply p"

definition ndp_out :: guard where
  "ndp_out p \<longleftrightarrow>
     router_solicitation p \<or>
     (to_net SOLICITED_NODE_MULTICAST p \<or> to_net IPV6_LINK_LOCAL p) \<and> is_icmpv6 135 0 p \<or>
     to_net IPV6_LINK_LOCAL p \<and> is_icmpv6 136 0 p"

definition ndp_in :: guard where
  "ndp_in p \<longleftrightarrow>
     from_net IPV6_LINK_LOCAL p \<and> (is_icmpv6 134 0 p \<or> is_icmpv6 137 0 p \<or> is_icmpv6 135 0 p) \<or>
     is_icmpv6 136 0 p"

definition to_lan :: guard where
  "to_lan p \<longleftrightarrow> list_ex (\<lambda>net. to_net net p) (ALLOWED_LAN_NETS @ ALLOWED_LAN_MULTICAST_NETS)"

definition from_lan :: guard where
  "from_lan p \<longleftrightarrow> list_ex (\<lambda>net. from_net net p) ALLOWED_LAN_NETS"

definition policy_peers :: "firewall_policy \<Rightarrow> allowed_endpoint list" where
  "policy_peers policy = (case policy_peer_endpoints policy of Some peers \<Rightarrow> peers | None \<Rightarrow> [])"

definition to_peer :: "firewall_policy \<Rightarrow> u32 \<Rightarrow> guard" where
  "to_peer policy fwmark p \<longleftrightarrow>
     p_mark p = fwmark \<and>
     list_ex (\<lambda>peer. has_endpoint EndDst (ae_endpoint peer) p) (policy_peers policy)"

definition from_peer :: "firewall_policy \<Rightarrow> guard" where
  "from_peer policy p \<longleftrightarrow>
     established p \<and>
     list_ex (\<lambda>peer. has_endpoint EndSrc (ae_endpoint peer) p) (policy_peers policy)"

definition to_allowed_endpoint :: "firewall_policy \<Rightarrow> guard" where
  "to_allowed_endpoint policy p \<longleftrightarrow>
     (case policy_allowed_endpoint policy of
        Some ep \<Rightarrow> has_endpoint EndDst (ae_endpoint ep) p \<and> root_or_all ep p
      | None \<Rightarrow> False)"

definition from_allowed_endpoint :: "firewall_policy \<Rightarrow> guard" where
  "from_allowed_endpoint policy p \<longleftrightarrow>
     (case policy_allowed_endpoint policy of
        Some ep \<Rightarrow> has_endpoint EndSrc (ae_endpoint ep) p \<and> established p \<and> root_or_all ep p
      | None \<Rightarrow> False)"

definition to_tunnel_dns :: "fw_env \<Rightarrow> firewall_policy \<Rightarrow> guard" where
  "to_tunnel_dns env policy p \<longleftrightarrow>
     (case policy of
        PolicyConnected peers tunnel lan dns \<Rightarrow>
          list_ex (\<lambda>server. tunnel_dns_request env (tm_interface tunnel) Udp server p \<or>
            tunnel_dns_request env (tm_interface tunnel) Tcp server p) (tunnel_dns dns)
      | _ \<Rightarrow> False)"

definition local_dns_traffic :: "fw_env \<Rightarrow> firewall_policy \<Rightarrow> fw_direction \<Rightarrow> guard" where
  "local_dns_traffic env policy dir p \<longleftrightarrow>
     (case policy of
        PolicyConnected peers tunnel lan dns \<Rightarrow>
          list_ex (\<lambda>server. local_dns env (tm_interface tunnel) Udp server dir p \<or>
            local_dns env (tm_interface tunnel) Tcp server dir p) (non_tunnel_dns dns)
      | _ \<Rightarrow> False)"

definition through_tunnel :: "fw_env \<Rightarrow> firewall_policy \<Rightarrow> fw_direction \<Rightarrow> guard" where
  "through_tunnel env policy dir p \<longleftrightarrow>
     (case policy_tunnel policy of
        None \<Rightarrow> False
      | Some tunnel \<Rightarrow>
          on_iface env dir (tm_interface tunnel) p \<and>
          (let e = (case dir of DirIn \<Rightarrow> EndSrc | DirOut \<Rightarrow> EndDst) in
           case policy_allowed_tunnel_traffic policy of
             TrafficAll \<Rightarrow> True
           | TrafficNone \<Rightarrow> False
           | TrafficOne ep \<Rightarrow> has_endpoint e ep p
           | TrafficTwo ep1 ep2 \<Rightarrow> has_endpoint e ep1 p \<or> has_endpoint e ep2 p))"

definition to_tunnel_ip :: "firewall_policy \<Rightarrow> guard" where
  "to_tunnel_ip policy p \<longleftrightarrow>
     (case policy_tunnel policy of
        None \<Rightarrow> False
      | Some tunnel \<Rightarrow> packet_addr EndDst p \<in> set (tm_ips tunnel))"

text \<open>The marks a packet has once the mangle chain has seen it.\<close>

definition marked :: "fw_env \<Rightarrow> firewall_policy \<Rightarrow> u32 \<Rightarrow> packet \<Rightarrow> packet" where
  "marked env policy fwmark p =
     (if split_tunneling_available env \<and> to_tunnel_dns env policy p then p
      else if split_tunneling_available env \<and> p_cgroup p = NET_CLS_CLASSID \<or>
        list_ex (\<lambda>peer. allow_all (ae_clients peer) \<and> has_endpoint EndDst (ae_endpoint peer) p)
          (policy_peers policy)
      then mark_excluded fwmark p else p)"

definition may_leave :: "fw_env \<Rightarrow> firewall_policy \<Rightarrow> u32 \<Rightarrow> guard" where
  "may_leave env policy fwmark p \<longleftrightarrow>
     on_iface env DirOut ''lo'' p \<or>
     split_tunneling_available env \<and> split_tunneled (marked env policy fwmark p) \<or>
     dhcp_out p \<or> ndp_out p \<or>
     to_peer policy fwmark (marked env policy fwmark p) \<or> to_allowed_endpoint policy p \<or>
     to_tunnel_dns env policy p \<or> local_dns_traffic env policy DirOut p \<or>
     \<not> requests_dns p \<and>
       (through_tunnel env policy DirOut p \<or>
        policy_allow_lan policy \<and> (to_lan p \<or> dhcpv4_reply p))"

definition may_enter :: "fw_env \<Rightarrow> firewall_policy \<Rightarrow> guard" where
  "may_enter env policy p \<longleftrightarrow>
     on_iface env DirIn ''lo'' p \<or>
     split_tunneling_available env \<and> split_tunneled p \<or>
     dhcp_in p \<or> ndp_in p \<or>
     from_peer policy p \<or> from_allowed_endpoint policy p \<or>
     local_dns_traffic env policy DirIn p \<or>
     through_tunnel env policy DirIn p \<or>
     policy_allow_lan policy \<and> \<not> to_tunnel_ip policy p \<and> (from_lan p \<or> dhcp_server_request p)"

definition may_forward :: "fw_env \<Rightarrow> firewall_policy \<Rightarrow> guard" where
  "may_forward env policy p \<longleftrightarrow>
     split_tunneling_available env \<and> split_tunneled p \<or>
     dhcp_out p \<or> dhcp_in p \<or> ndp_out p \<or> ndp_in p \<or>
     to_tunnel_dns env policy p \<or>
     local_dns_traffic env policy DirOut p \<or> local_dns_traffic env policy DirIn p \<or>
     \<not> requests_dns p \<and>
       (policy_allowed_tunnel_traffic policy = TrafficAll \<and>
          (through_tunnel env policy DirOut p \<or> through_tunnel env policy DirIn p \<and> established p) \<or>
        policy_allow_lan policy \<and> to_lan p)"

section \<open>What the chains do\<close>

text \<open>
  A group of accepting rules in front of others either accepts or leaves the packet to them.
  One equation for each group and chain.
\<close>

lemma concat_map_Nil [chain_simps]: "concat (map (\<lambda>x. []) xs) = []"
  by (induction xs) auto

lemma loopback_run [chain_simps]:
  "run_guards (loopback_guards env ChainOut @ gs) p =
     (if on_iface env DirOut ''lo'' p then (Some VAccept, p) else run_guards gs p)"
  "run_guards (loopback_guards env ChainIn @ gs) p =
     (if on_iface env DirIn ''lo'' p then (Some VAccept, p) else run_guards gs p)"
  "c \<notin> {ChainIn, ChainOut} \<Longrightarrow> loopback_guards env c = []"
  by (simp_all add: loopback_guards_def only_def)

lemma split_tunneling_run [chain_simps]:
  "c \<in> {ChainIn, ChainOut, ChainForward} \<Longrightarrow>
     run_guards (split_tunneling_guards env policy fwmark c @ gs) p =
     (if split_tunneled p then (Some VAccept, p) else run_guards gs p)"
  by (auto simp: split_tunneling_guards_def only_def split: firewall_policy.splits)

lemma dhcp_client_run [chain_simps]:
  "run_guards (dhcp_client_guards ChainOut @ gs) p =
     (if dhcp_out p then (Some VAccept, p) else run_guards gs p)"
  "run_guards (dhcp_client_guards ChainIn @ gs) p =
     (if dhcp_in p then (Some VAccept, p) else run_guards gs p)"
  "run_guards (dhcp_client_guards ChainForward @ gs) p =
     (if dhcp_out p \<or> dhcp_in p then (Some VAccept, p) else run_guards gs p)"
  "c \<notin> {ChainIn, ChainOut, ChainForward} \<Longrightarrow> dhcp_client_guards c = []"
  by (auto simp: dhcp_client_guards_def only_def dhcp_out_def dhcp_in_def run_guards_accepts
      list_ex_iff)

lemma ndp_run [chain_simps]:
  "run_guards (ndp_guards ChainOut @ gs) p =
     (if ndp_out p then (Some VAccept, p) else run_guards gs p)"
  "run_guards (ndp_guards ChainIn @ gs) p =
     (if ndp_in p then (Some VAccept, p) else run_guards gs p)"
  "run_guards (ndp_guards ChainForward @ gs) p =
     (if ndp_out p \<or> ndp_in p then (Some VAccept, p) else run_guards gs p)"
  "c \<notin> {ChainIn, ChainOut, ChainForward} \<Longrightarrow> ndp_guards c = []"
  by (auto simp: ndp_guards_def only_def ndp_out_def ndp_in_def)

lemma peers_run_out [chain_simps]:
  "run_guards (concat (map (\<lambda>peer. tunnel_endpoint_guards fwmark peer ChainOut) peers) @ gs) p =
     (if p_mark p = fwmark \<and> list_ex (\<lambda>peer. has_endpoint EndDst (ae_endpoint peer) p) peers
      then (Some VAccept, p) else run_guards gs p)"
  by (induction peers) (simp_all add: tunnel_endpoint_guards_def only_def)

lemma peers_run_in [chain_simps]:
  "run_guards (concat (map (\<lambda>peer. tunnel_endpoint_guards fwmark peer ChainIn) peers) @ gs) p =
     (if established p \<and> list_ex (\<lambda>peer. has_endpoint EndSrc (ae_endpoint peer) p) peers
      then (Some VAccept, p) else run_guards gs p)"
  by (induction peers) (simp_all add: tunnel_endpoint_guards_def only_def)

lemma peers_run_forward [chain_simps]:
  "tunnel_endpoint_guards fwmark peer ChainForward = []"
  "tunnel_endpoint_guards fwmark peer ChainNat = []"
  by (simp_all add: tunnel_endpoint_guards_def only_def)

lemma allow_endpoint_run [chain_simps]:
  "run_guards (allow_endpoint_guards ep ChainOut @ gs) p =
     (if has_endpoint EndDst (ae_endpoint ep) p \<and> root_or_all ep p
      then (Some VAccept, p) else run_guards gs p)"
  "run_guards (allow_endpoint_guards ep ChainIn @ gs) p =
     (if has_endpoint EndSrc (ae_endpoint ep) p \<and> established p \<and> root_or_all ep p
      then (Some VAccept, p) else run_guards gs p)"
  "c \<notin> {ChainIn, ChainOut} \<Longrightarrow> allow_endpoint_guards ep c = []"
  by (auto simp: allow_endpoint_guards_def only_def)

lemma drop_dns_run [chain_simps]:
  "c \<in> {ChainOut, ChainForward} \<Longrightarrow>
     fst (run_guards (drop_dns_guards c @ gs) p) = Some VAccept \<longleftrightarrow>
     \<not> requests_dns p \<and> fst (run_guards gs p) = Some VAccept"
  "c \<notin> {ChainOut, ChainForward} \<Longrightarrow> drop_dns_guards c = []"
  by (auto simp: drop_dns_guards_def only_def requests_dns_def)

lemma traffic_run [chain_simps]:
  "run_guards (traffic_guards env iface traffic ChainOut @ gs) p =
     (if on_iface env DirOut iface p \<and>
         (case traffic of
            TrafficAll \<Rightarrow> True
          | TrafficNone \<Rightarrow> False
          | TrafficOne ep \<Rightarrow> has_endpoint EndDst ep p
          | TrafficTwo ep1 ep2 \<Rightarrow> has_endpoint EndDst ep1 p \<or> has_endpoint EndDst ep2 p)
      then (Some VAccept, p) else run_guards gs p)"
  "run_guards (traffic_guards env iface traffic ChainIn @ gs) p =
     (if on_iface env DirIn iface p \<and>
         (case traffic of
            TrafficAll \<Rightarrow> True
          | TrafficNone \<Rightarrow> False
          | TrafficOne ep \<Rightarrow> has_endpoint EndSrc ep p
          | TrafficTwo ep1 ep2 \<Rightarrow> has_endpoint EndSrc ep1 p \<or> has_endpoint EndSrc ep2 p)
      then (Some VAccept, p) else run_guards gs p)"
  "run_guards (traffic_guards env iface traffic ChainForward @ gs) p =
     (if traffic = TrafficAll \<and>
         (on_iface env DirOut iface p \<or> on_iface env DirIn iface p \<and> established p)
      then (Some VAccept, p) else run_guards gs p)"
  by (auto simp: traffic_guards_def tunnel_guards_def in_tunnel_endpoint_guards_def only_def
      split: allowed_tunnel_traffic.splits)

lemma tunnel_guards_traffic: "tunnel_guards env iface c = traffic_guards env iface TrafficAll c"
  by (simp add: traffic_guards_def)

lemma cve_run [chain_simps]:
  "c \<noteq> ChainIn \<Longrightarrow> cve_guards tunnel c = []"
  "fst (run_guards (cve_guards tunnel ChainIn @ gs) p) = Some VAccept \<longleftrightarrow>
     packet_addr EndDst p \<notin> set (tm_ips tunnel) \<and> fst (run_guards gs p) = Some VAccept"
  by (auto simp: cve_guards_def only_def run_guards_drops)

lemma lan_run [chain_simps]:
  "run_guards (lan_guards ChainOut @ gs) p =
     (if to_lan p \<or> dhcpv4_reply p then (Some VAccept, p) else run_guards gs p)"
  "run_guards (lan_guards ChainIn @ gs) p =
     (if from_lan p \<or> dhcp_server_request p then (Some VAccept, p) else run_guards gs p)"
  "run_guards (lan_guards ChainForward @ gs) p =
     (if to_lan p then (Some VAccept, p) else run_guards gs p)"
  by (auto simp: lan_guards_def only_def to_lan_def from_lan_def run_guards_accepts
      list_ex_iff simp del: map_append)

lemma tunnel_dns_run [chain_simps]:
  "run_guards (concat (map (\<lambda>server.
       [accept_if (tunnel_dns_request env iface Udp server),
        accept_if (tunnel_dns_request env iface Tcp server)]) servers) @ gs) p =
     (if list_ex (\<lambda>server. tunnel_dns_request env iface Udp server p \<or>
         tunnel_dns_request env iface Tcp server p) servers
      then (Some VAccept, p) else run_guards gs p)"
  by (simp add: run_guards_accepts2 list_ex_iff)

lemma local_dns_run [chain_simps]:
  "run_guards (concat (map (\<lambda>server. local_dns_guards env iface Udp server ChainOut @
       local_dns_guards env iface Tcp server ChainOut) servers) @ gs) p =
     (if list_ex (\<lambda>server. local_dns env iface Udp server DirOut p \<or>
         local_dns env iface Tcp server DirOut p) servers
      then (Some VAccept, p) else run_guards gs p)"
  "run_guards (concat (map (\<lambda>server. local_dns_guards env iface Udp server ChainIn @
       local_dns_guards env iface Tcp server ChainIn) servers) @ gs) p =
     (if list_ex (\<lambda>server. local_dns env iface Udp server DirIn p \<or>
         local_dns env iface Tcp server DirIn p) servers
      then (Some VAccept, p) else run_guards gs p)"
  "run_guards (concat (map (\<lambda>server. local_dns_guards env iface Udp server ChainForward @
       local_dns_guards env iface Tcp server ChainForward) servers) @ gs) p =
     (if list_ex (\<lambda>server. local_dns env iface Udp server DirOut p \<or>
         local_dns env iface Tcp server DirOut p) servers \<or>
       list_ex (\<lambda>server. local_dns env iface Udp server DirIn p \<or>
         local_dns env iface Tcp server DirIn p) servers
      then (Some VAccept, p) else run_guards gs p)"
  by (auto simp: local_dns_guards_def only_def run_guards_accepts2 run_guards_accepts4 list_ex_iff)

lemma reject_run:
  "fst (run_guards [(\<lambda>p. True, Give (VReject r))] p) \<noteq> Some VAccept"
  by simp

lemma if_accept [chain_simps]:
  "fst (if P then (Some VAccept, p) else r) = Some VAccept \<longleftrightarrow> P \<or> fst r = Some VAccept"
  by simp

lemmas policy_guards_defs = policy_guards_def specific_guards_def connecting_guards_def
  connected_guards_def tunnel_guards_traffic only_def

lemmas traffic_defs = to_peer_def from_peer_def policy_peers_def to_allowed_endpoint_def
  from_allowed_endpoint_def to_tunnel_dns_def local_dns_traffic_def through_tunnel_def
  to_tunnel_ip_def

lemma run_out:
  "fst (run_guards (policy_guards env policy fwmark ChainOut) p) = Some VAccept \<longleftrightarrow>
     on_iface env DirOut ''lo'' p \<or>
     split_tunneling_available env \<and> split_tunneled p \<or>
     dhcp_out p \<or> ndp_out p \<or>
     to_peer policy fwmark p \<or> to_allowed_endpoint policy p \<or>
     to_tunnel_dns env policy p \<or> local_dns_traffic env policy DirOut p \<or>
     \<not> requests_dns p \<and>
       (through_tunnel env policy DirOut p \<or>
        policy_allow_lan policy \<and> (to_lan p \<or> dhcpv4_reply p))"
proof (cases policy)
  case (PolicyConnecting peers tunnel lan ep traffic)
  show ?thesis
    by (cases "split_tunneling_available env"; cases tunnel; cases lan)
      (simp_all add: PolicyConnecting policy_guards_defs chain_simps traffic_defs)
next
  case (PolicyConnected peers tunnel lan dns)
  show ?thesis
    by (cases "split_tunneling_available env"; cases lan)
      (simp_all add: PolicyConnected policy_guards_defs chain_simps traffic_defs)
next
  case (PolicyBlocked lan ep)
  show ?thesis
    by (cases "split_tunneling_available env"; cases ep; cases lan)
      (simp_all add: PolicyBlocked policy_guards_defs chain_simps traffic_defs)
qed

text \<open>What is not accepted is rejected, never dropped silently.\<close>

definition rejection :: "packet \<Rightarrow> nft_verdict" where
  "rejection p = VReject (if has_port Tcp EndDst 53 p then TcpRst else IcmpPortUnreach)"

lemma has_port_unique: "has_port Udp EndDst 53 p \<Longrightarrow> \<not> has_port Tcp EndDst 53 p"
  by (simp add: has_port_def l4proto_def)

lemma drop_dns_run_Out:
  "run_guards (drop_dns_guards ChainOut @ gs) p =
     (if requests_dns p then (Some (rejection p), p) else run_guards gs p)"
  by (auto simp: drop_dns_guards_def only_def requests_dns_def rejection_def dest: has_port_unique)

lemma run_out_total:
  "fst (run_guards (policy_guards env policy fwmark ChainOut) p) \<in> {Some VAccept, Some (rejection p)}"
proof -
  have last: "\<not> requests_dns p \<Longrightarrow> VReject IcmpPortUnreach = rejection p"
    by (simp add: rejection_def requests_dns_def)
  show ?thesis
    by (cases policy)
      (simp_all add: policy_guards_defs loopback_run split_tunneling_run dhcp_client_run ndp_run
        peers_run_out allow_endpoint_run drop_dns_run_Out traffic_run cve_run(1) lan_run
        tunnel_dns_run local_dns_run last split: option.splits)
qed

text \<open>The chain of incoming packets ends with the last group of rules, and then its policy.\<close>

lemmas last_group_run = traffic_run(2) [where gs = "[]", simplified]
  cve_run(2) [where gs = "[]", simplified] lan_run(2) [where gs = "[]", simplified]
  allow_endpoint_run(2) [where gs = "[]", simplified] ndp_run(2) [where gs = "[]", simplified]

lemma run_in:
  "fst (run_guards (policy_guards env policy fwmark ChainIn) p) = Some VAccept \<longleftrightarrow>
     may_enter env policy p"
proof (cases policy)
  case (PolicyConnecting peers tunnel lan ep traffic)
  show ?thesis
    by (cases "split_tunneling_available env"; cases tunnel; cases lan)
      (simp_all add: PolicyConnecting policy_guards_defs chain_simps traffic_defs may_enter_def
        last_group_run)
next
  case (PolicyConnected peers tunnel lan dns)
  show ?thesis
    by (cases "split_tunneling_available env"; cases lan)
      (simp_all add: PolicyConnected policy_guards_defs chain_simps traffic_defs may_enter_def
        last_group_run)
next
  case (PolicyBlocked lan ep)
  show ?thesis
    by (cases "split_tunneling_available env"; cases ep; cases lan)
      (simp_all add: PolicyBlocked policy_guards_defs chain_simps traffic_defs may_enter_def
        last_group_run)
qed

lemma run_forward:
  "fst (run_guards (policy_guards env policy fwmark ChainForward) p) = Some VAccept \<longleftrightarrow>
     may_forward env policy p"
proof (cases policy)
  case (PolicyConnecting peers tunnel lan ep traffic)
  show ?thesis
    by (cases "split_tunneling_available env"; cases tunnel; cases lan)
      (simp_all add: PolicyConnecting policy_guards_defs chain_simps traffic_defs may_forward_def
        cong: conj_cong)
next
  case (PolicyConnected peers tunnel lan dns)
  show ?thesis
    by (cases "split_tunneling_available env"; cases lan)
      (simp_all add: PolicyConnected policy_guards_defs chain_simps traffic_defs may_forward_def)
next
  case (PolicyBlocked lan ep)
  show ?thesis
    by (cases "split_tunneling_available env"; cases ep; cases lan)
      (simp_all add: PolicyBlocked policy_guards_defs chain_simps traffic_defs may_forward_def)
qed

subsection \<open>Marks\<close>

lemma mark_guards [simp]:
  "on_iface env dir iface (p\<lparr>p_mark := m\<rparr>) = on_iface env dir iface p"
  "off_iface env dir iface (p\<lparr>p_mark := m\<rparr>) = off_iface env dir iface p"
  "packet_addr e (p\<lparr>p_mark := m\<rparr>) = packet_addr e p"
  "has_port protocol e port (p\<lparr>p_mark := m\<rparr>) = has_port protocol e port p"
  "has_endpoint e ep (p\<lparr>p_mark := m\<rparr>) = has_endpoint e ep p"
  "is_icmpv6 type code (p\<lparr>p_mark := m\<rparr>) = is_icmpv6 type code p"
  "established (p\<lparr>p_mark := m\<rparr>) = established p"
  "root_or_all aep (p\<lparr>p_mark := m\<rparr>) = root_or_all aep p"
  "split_tunneled (p\<lparr>p_mark := m\<rparr>) = split_tunneled p"
  by (simp_all add: on_iface_def off_iface_def packet_addr_def packet_iface_def has_port_def
      packet_port_def has_endpoint_def is_icmpv6_def established_def root_or_all_def
      split_tunneled_def p_src_def p_dst_def cong: fw_direction.case_cong fw_end.case_cong)

lemma ct_mark_guards [simp]:
  "on_iface env dir iface (p\<lparr>p_ct_mark := m\<rparr>) = on_iface env dir iface p"
  "off_iface env dir iface (p\<lparr>p_ct_mark := m\<rparr>) = off_iface env dir iface p"
  "packet_addr e (p\<lparr>p_ct_mark := m\<rparr>) = packet_addr e p"
  "has_port protocol e port (p\<lparr>p_ct_mark := m\<rparr>) = has_port protocol e port p"
  "has_endpoint e ep (p\<lparr>p_ct_mark := m\<rparr>) = has_endpoint e ep p"
  "is_icmpv6 type code (p\<lparr>p_ct_mark := m\<rparr>) = is_icmpv6 type code p"
  "root_or_all aep (p\<lparr>p_ct_mark := m\<rparr>) = root_or_all aep p"
  by (simp_all add: on_iface_def off_iface_def packet_addr_def packet_iface_def has_port_def
      packet_port_def has_endpoint_def is_icmpv6_def root_or_all_def
      p_src_def p_dst_def cong: fw_direction.case_cong fw_end.case_cong)

lemmas dhcp_ndp_defs = dhcp_out_def dhcp_in_def dhcpv4_request_def dhcpv4_reply_def
  dhcpv6_request_def dhcpv6_reply_def ndp_out_def ndp_in_def router_solicitation_def

lemma may_enter_mark [simp]: "may_enter env policy (p\<lparr>p_mark := m\<rparr>) = may_enter env policy p"
  by (simp add: may_enter_def dhcp_ndp_defs traffic_defs local_dns_def Let_def from_lan_def
      dhcp_server_request_def cong: option.case_cong firewall_policy.case_cong
      allowed_tunnel_traffic.case_cong)

lemma may_forward_mark [simp]: "may_forward env policy (p\<lparr>p_mark := m\<rparr>) = may_forward env policy p"
  by (simp add: may_forward_def dhcp_ndp_defs traffic_defs local_dns_def tunnel_dns_request_def
      Let_def to_lan_def requests_dns_def cong: option.case_cong firewall_policy.case_cong
      allowed_tunnel_traffic.case_cong)

lemma mark_excluded_idem: "mark_excluded m (mark_excluded m p) = mark_excluded m p"
  by (simp add: mark_excluded_def)

lemma peers_mangle:
  "run_guards (concat (map (\<lambda>peer. tunnel_endpoint_guards fwmark peer ChainMangle) peers)) p =
     (None, if list_ex (\<lambda>peer. allow_all (ae_clients peer) \<and>
         has_endpoint EndDst (ae_endpoint peer) p) peers then mark_excluded fwmark p else p)"
proof (induction peers arbitrary: p)
  case (Cons peer peers)
  have "has_endpoint EndDst ep (mark_excluded fwmark p) = has_endpoint EndDst ep p" for ep
    by (simp add: mark_excluded_def)
  with Cons show ?case
    by (auto simp: tunnel_endpoint_guards_def only_def mark_excluded_idem)
qed simp

lemma silent_guards:
  "c \<notin> {ChainIn, ChainOut, ChainForward} \<Longrightarrow> lan_guards c = []"
  "c \<notin> {ChainIn, ChainOut, ChainForward} \<Longrightarrow> traffic_guards env iface traffic c = []"
  "c \<notin> {ChainIn, ChainOut, ChainForward} \<Longrightarrow> local_dns_guards env iface protocol server c = []"
  by (auto simp: lan_guards_def traffic_guards_def tunnel_guards_def in_tunnel_endpoint_guards_def
      local_dns_guards_def only_def split: allowed_tunnel_traffic.splits)

lemma specific_guards_peers:
  assumes "c \<notin> {ChainIn, ChainOut, ChainForward}"
  shows "specific_guards env policy fwmark c =
    concat (map (\<lambda>peer. tunnel_endpoint_guards fwmark peer c) (policy_peers policy))"
  using assms
  by (cases policy) (simp_all add: specific_guards_def connecting_guards_def connected_guards_def
      tunnel_guards_traffic only_def policy_peers_def chain_simps silent_guards
      split: option.splits)

lemma split_tunneling_mangle:
  "run_guards (split_tunneling_guards env policy fwmark ChainMangle @ gs) p =
     (if to_tunnel_dns env policy p then (Some VAccept, p)
      else run_guards gs (if p_cgroup p = NET_CLS_CLASSID then mark_excluded fwmark p else p))"
  by (cases policy) (simp_all add: split_tunneling_guards_def only_def to_tunnel_dns_def
      tunnel_dns_run)

lemma run_mangle:
  "\<exists>v. run_guards (policy_guards env policy fwmark ChainMangle) p = (v, marked env policy fwmark p)
     \<and> v \<in> {None, Some VAccept}"
proof -
  have ep: "has_endpoint EndDst ep (mark_excluded fwmark p) = has_endpoint EndDst ep p" for ep
    by (simp add: mark_excluded_def)
  show ?thesis
    by (auto simp: policy_guards_def chain_simps specific_guards_peers split_tunneling_mangle
        peers_mangle marked_def ep mark_excluded_idem)
qed

lemma run_guards_set_mark:
  assumes "\<forall>g \<in> set gs. \<exists>m. snd g = Alter (\<lambda>p. p\<lparr>p_mark := m\<rparr>)"
  shows "\<exists>m. run_guards gs p = (None, p\<lparr>p_mark := m\<rparr>)"
  using assms
proof (induction gs arbitrary: p)
  case Nil
  show ?case by (rule exI [of _ "p_mark p"]) simp
next
  case (Cons g gs)
  then obtain P m where "g = (P, Alter (\<lambda>p. p\<lparr>p_mark := m\<rparr>))"
    by (cases g) auto
  moreover obtain m1 m2 where "run_guards gs p = (None, p\<lparr>p_mark := m1\<rparr>)"
    and "run_guards gs (p\<lparr>p_mark := m\<rparr>) = (None, p\<lparr>p_mark := m\<rparr>\<lparr>p_mark := m2\<rparr>)"
    using Cons by (metis list.set_intros(2))
  ultimately show ?case by auto
qed

lemma run_prerouting:
  "\<exists>m. run_guards (policy_guards env policy fwmark ChainPrerouting) p = (None, p\<lparr>p_mark := m\<rparr>)"
  by (rule run_guards_set_mark)
    (auto simp: policy_guards_def chain_simps specific_guards_peers split_tunneling_guards_def
      tunnel_endpoint_guards_def only_def split: firewall_policy.splits if_splits)

section \<open>The theorems\<close>

lemma rules_batch_finalize:
  assumes "nft_vm step" and "finalize env policy fwmark = Inr b"
  shows "rules_batch b"
  using nft_vm.models_finalize [OF assms] by (simp add: models_def)

lemma run_policy_chain:
  assumes "nft_vm step" and "finalize env policy fwmark = Inr b"
  shows "run_chain step (chain_policy b c) (chain_rules c b) p =
    (case run_guards (policy_guards env policy fwmark c) p of (v, p') \<Rightarrow>
      (case v of Some v \<Rightarrow> v
       | None \<Rightarrow> if c \<in> {ChainIn, ChainOut, ChainForward} then VDrop else VAccept, p'))"
  using models_run_chain [OF nft_vm.models_finalize [OF assms]]
    chain_policy_rules_batch [OF rules_batch_finalize [OF assms]]
  by simp

lemma fst_run_chains_single:
  "fst (run_chains step b [c] p) = fst (run_chain step (chain_policy b c) (chain_rules c b) p)"
  by (auto split: prod.splits nft_verdict.splits)

lemma run_hook_prerouting:
  assumes "nft_vm step" and "finalize env policy fwmark = Inr b"
  shows "\<exists>m. run_hook step b HookPreRouting p = (VAccept, p\<lparr>p_mark := m\<rparr>)"
  using run_prerouting [of env policy fwmark p]
  by (auto simp: run_hook_def hook_chains_rules_batch [OF rules_batch_finalize [OF assms]]
      run_policy_chain [OF assms])

lemma run_hook_out:
  assumes "nft_vm step" and "finalize env policy fwmark = Inr b"
  shows "fst (run_hook step b HookOut p) =
    (case fst (run_guards (policy_guards env policy fwmark ChainOut) (marked env policy fwmark p)) of
       Some v \<Rightarrow> v | None \<Rightarrow> VDrop)"
proof -
  obtain v where v: "v \<in> {None, Some VAccept}"
    and mangle: "run_guards (policy_guards env policy fwmark ChainMangle) p =
      (v, marked env policy fwmark p)"
    using run_mangle by blast
  have "fst (run_hook step b HookOut p) =
      fst (run_chain step (chain_policy b ChainOut) (chain_rules ChainOut b)
        (marked env policy fwmark p))"
    using v fst_run_chains_single [of step b ChainOut]
    by (auto simp: run_hook_def hook_chains_rules_batch [OF rules_batch_finalize [OF assms]]
      run_policy_chain [OF assms, of ChainMangle] mangle simp del: run_chains.simps(2)
      simp: run_chains.simps(2) [of _ _ ChainMangle])
  then show ?thesis
    by (auto simp: run_policy_chain [OF assms] split: prod.splits option.splits)
qed

lemma marked_invariant:
  assumes "\<And>m k. P (p\<lparr>p_ct_mark := k, p_mark := m\<rparr>) = P p"
  shows "P (marked env policy fwmark p) = P p"
  using assms by (simp add: marked_def mark_excluded_def)

lemma run_out_marked:
  "fst (run_guards (policy_guards env policy fwmark ChainOut) (marked env policy fwmark p)) =
     Some VAccept \<longleftrightarrow> may_leave env policy fwmark p"
proof -
  let ?q = "marked env policy fwmark p"
  have "on_iface env DirOut ''lo'' ?q = on_iface env DirOut ''lo'' p"
    and "dhcp_out ?q = dhcp_out p" and "ndp_out ?q = ndp_out p"
    and "to_allowed_endpoint policy ?q = to_allowed_endpoint policy p"
    and "to_tunnel_dns env policy ?q = to_tunnel_dns env policy p"
    and "local_dns_traffic env policy DirOut ?q = local_dns_traffic env policy DirOut p"
    and "requests_dns ?q = requests_dns p"
    and "through_tunnel env policy DirOut ?q = through_tunnel env policy DirOut p"
    and "to_lan ?q = to_lan p" and "dhcpv4_reply ?q = dhcpv4_reply p"
    by (rule marked_invariant, simp add: dhcp_ndp_defs to_allowed_endpoint_def to_tunnel_dns_def
        local_dns_traffic_def requests_dns_def through_tunnel_def to_lan_def local_dns_def
        tunnel_dns_request_def Let_def cong: option.case_cong firewall_policy.case_cong
        allowed_tunnel_traffic.case_cong)+
  then show ?thesis unfolding run_out may_leave_def by simp
qed

lemma send_accept:
  assumes "nft_vm step" and "finalize env policy fwmark = Inr b"
  shows "send_verdict step b p = (if may_leave env policy fwmark p then VAccept else rejection p)"
proof -
  have "rejection (marked env policy fwmark p) = rejection p"
    unfolding rejection_def by (simp add: marked_invariant)
  moreover have "rejection p \<noteq> VAccept" by (simp add: rejection_def)
  ultimately show ?thesis
    using run_out_total [of env policy fwmark "marked env policy fwmark p"]
      run_out_marked [of env policy fwmark p]
    by (auto simp: send_verdict_def run_hook_out [OF assms])
qed

lemma receive_accept:
  assumes "nft_vm step" and "finalize env policy fwmark = Inr b"
  shows "receive_verdict step b p = VAccept \<longleftrightarrow> may_enter env policy p"
proof -
  obtain m where "run_hook step b HookPreRouting p = (VAccept, p\<lparr>p_mark := m\<rparr>)"
    using run_hook_prerouting [OF assms] by blast
  moreover have "fst (run_hook step b HookIn q) = VAccept \<longleftrightarrow>
      fst (run_guards (policy_guards env policy fwmark ChainIn) q) = Some VAccept" for q
    unfolding run_hook_def hook_chains_rules_batch [OF rules_batch_finalize [OF assms]]
      fst_run_chains_single
    by (auto simp: run_policy_chain [OF assms] split: prod.splits option.splits)
  ultimately show ?thesis by (simp add: receive_verdict_def run_in)
qed

section \<open>When a batch can be made\<close>

text \<open>The interfaces that have to exist for the rules of a policy.\<close>

definition needed_interfaces :: "firewall_policy \<Rightarrow> string list" where
  "needed_interfaces policy =
     ''lo'' #
     (case policy of
        PolicyConnecting peers (Some tunnel) lan ep traffic \<Rightarrow>
          (if traffic = TrafficNone then [] else [tm_interface tunnel])
      | PolicyConnected peers tunnel lan dns \<Rightarrow> [tm_interface tunnel]
      | _ \<Rightarrow> [])"

lemma builders_ok:
  assumes "fe_ifindex env iface = Some i"
  shows "\<exists>b'. add_allow_tunnel_rules env iface b = Inr b'"
    and "\<exists>b'. add_allow_in_tunnel_endpoint_rules env iface ep b = Inr b'"
    and "\<exists>b'. add_allow_tunnel_dns_rule env iface protocol host b = Inr b'"
    and "\<exists>b'. add_allow_local_dns_rule env iface protocol host b = Inr b'"
  using assms
  by (simp_all add: add_allow_tunnel_rules_def add_allow_in_tunnel_endpoint_rules_def
      add_allow_tunnel_dns_rule_def add_allow_local_dns_rule_def allow_interface_rule_def
      allow_tunnel_dns_rule_def check_iface_def check_not_iface_def iface_index_def Let_def)

lemma builders_need_interface:
  "add_allow_tunnel_rules env iface b = Inr b' \<Longrightarrow> fe_ifindex env iface \<noteq> None"
  "add_allow_in_tunnel_endpoint_rules env iface ep b = Inr b' \<Longrightarrow> fe_ifindex env iface \<noteq> None"
  "add_loopback_rules env b = Inr b' \<Longrightarrow> fe_ifindex env ''lo'' \<noteq> None"
  by (auto simp: add_allow_tunnel_rules_def add_allow_in_tunnel_endpoint_rules_def
      add_loopback_rules_def allow_interface_rule_def check_iface_def iface_index_def
      split: option.splits)

lemma loopback_ok: "fe_ifindex env ''lo'' = Some i \<Longrightarrow> \<exists>b'. add_loopback_rules env b = Inr b'"
  by (simp add: add_loopback_rules_def allow_interface_rule_def check_iface_def iface_index_def
      Let_def)

lemma dns_rules_ok:
  assumes "fe_ifindex env iface = Some i"
  shows "\<exists>b'. fold_result (\<lambda>server b.
      and_then (allow_tunnel_dns_rule env Inet iface Udp server) (\<lambda>rule.
        let b = add_rule ChainMangle rule b in
        and_then (allow_tunnel_dns_rule env Inet iface Tcp server)
          (\<lambda>rule. Inr (add_rule ChainMangle rule b)))) servers b = Inr b'"
    and "\<exists>b'. fold_result (\<lambda>server b. and_then (add_allow_tunnel_dns_rule env iface Udp server b)
        (add_allow_tunnel_dns_rule env iface Tcp server)) servers b = Inr b'"
    and "\<exists>b'. fold_result (\<lambda>server b. and_then (add_allow_local_dns_rule env iface Udp server b)
        (add_allow_local_dns_rule env iface Tcp server)) servers b = Inr b'"
  by (rule fold_result_ok, simp add: allow_tunnel_dns_rule_def check_iface_def iface_index_def
        assms Let_def)
    (intro fold_result_ok and_then_ok builders_ok [OF assms])+

lemma split_tunneling_ok:
  assumes "list_all (\<lambda>iface. fe_ifindex env iface \<noteq> None) (needed_interfaces policy)"
  shows "\<exists>b'. add_split_tunneling_rules env policy fwmark b = Inr b'"
proof (cases policy)
  case (PolicyConnected peers tunnel lan dns)
  then obtain i j where ij: "fe_ifindex env (tm_interface tunnel) = Some i"
    "fe_ifindex env ''lo'' = Some j"
    using assms by (auto simp: needed_interfaces_def)
  show ?thesis
    using dns_rules_ok(1) [OF ij(1), of "tunnel_dns dns" b]
    by (auto simp: add_split_tunneling_rules_def PolicyConnected check_iface_def
        check_not_iface_def iface_index_def ij Let_def)
qed (use assms in \<open>auto simp: add_split_tunneling_rules_def iface_index_def needed_interfaces_def
  Let_def\<close>)

lemma connecting_ok:
  assumes "list_all (\<lambda>iface. fe_ifindex env iface \<noteq> None)
    (needed_interfaces (PolicyConnecting peers tunnel lan ep traffic))"
  shows "\<exists>b'. add_connecting_rules env fwmark peers tunnel lan ep traffic b = Inr b'"
proof (cases tunnel)
  case (Some tun)
  show ?thesis
  proof (cases "traffic = TrafficNone")
    case False
    then obtain i where i: "fe_ifindex env (tm_interface tun) = Some i"
      using assms Some by (auto simp: needed_interfaces_def)
    show ?thesis
      using False
      by (cases traffic; simp add: add_connecting_rules_def Some Let_def;
          intro and_then_ok builders_ok [OF i]; simp)
  qed (simp add: add_connecting_rules_def Some Let_def)
qed (simp add: add_connecting_rules_def Let_def)

lemma connected_ok:
  assumes i: "fe_ifindex env (tm_interface tunnel) = Some i"
  shows "\<exists>b'. add_connected_rules env fwmark peers tunnel lan dns b = Inr b'"
proof -
  let ?iface = "tm_interface tunnel"
  obtain b1 where "fold_result (\<lambda>server b. and_then (add_allow_tunnel_dns_rule env ?iface Udp server b)
        (add_allow_tunnel_dns_rule env ?iface Tcp server)) (tunnel_dns dns)
      (fold (add_allow_tunnel_endpoint_rules env fwmark) peers b) = Inr b1"
    using dns_rules_ok(2) [OF i] by blast
  moreover obtain b2 where
    "fold_result (\<lambda>server b. and_then (add_allow_local_dns_rule env ?iface Udp server b)
        (add_allow_local_dns_rule env ?iface Tcp server)) (non_tunnel_dns dns) b1 = Inr b2"
    using dns_rules_ok(3) [OF i] by blast
  moreover obtain b3 where "add_allow_tunnel_rules env ?iface (add_drop_dns_rule env b2) = Inr b3"
    using builders_ok(1) [OF i] by blast
  ultimately show ?thesis by (simp add: add_connected_rules_def Let_def)
qed

lemma finalize_ok:
  assumes "fe_proc_mounts env \<noteq> None"
    and needed: "list_all (\<lambda>iface. fe_ifindex env iface \<noteq> None) (needed_interfaces policy)"
  shows "\<exists>b. finalize env policy fwmark = Inr b"
proof -
  obtain mounts where mounts: "fe_proc_mounts env = Some mounts" using assms(1) by blast
  obtain lo where "fe_ifindex env ''lo'' = Some lo"
    using needed by (auto simp: needed_interfaces_def)
  from loopback_ok [OF this] obtain b1 where b1: "add_loopback_rules env policy_batch_new = Inr b1"
    by blast
  obtain b2 where b2: "(if find_net_cls_mount_inner mounts \<noteq> None
      then add_split_tunneling_rules env policy fwmark b1 else Inr b1) = Inr b2"
    using split_tunneling_ok [OF needed] by (cases "find_net_cls_mount_inner mounts") auto
  have "\<exists>b'. add_policy_specific_rules env policy fwmark b = Inr b'" for b
  proof (cases policy)
    case (PolicyConnecting peers tunnel lan ep traffic)
    then show ?thesis
      using connecting_ok [OF needed [unfolded PolicyConnecting], of fwmark b]
      by (auto simp: add_policy_specific_rules_def Let_def)
  next
    case (PolicyConnected peers tunnel lan dns)
    then obtain i where "fe_ifindex env (tm_interface tunnel) = Some i"
      using needed by (auto simp: needed_interfaces_def)
    from connected_ok [OF this, of fwmark peers lan dns b] show ?thesis
      by (auto simp: add_policy_specific_rules_def Let_def PolicyConnected)
  qed (simp add: add_policy_specific_rules_def Let_def)
  with b1 b2 mounts show ?thesis
    by (simp add: finalize_def find_net_cls_mount_def Let_def)
qed

lemma finalize_needs:
  assumes "finalize env policy fwmark = Inr b"
  shows "fe_proc_mounts env \<noteq> None"
    and "list_all (\<lambda>iface. fe_ifindex env iface \<noteq> None) (needed_interfaces policy)"
proof -
  obtain b1 b2 mount where b1: "add_loopback_rules env policy_batch_new = Inr b1"
    and mount: "find_net_cls_mount env = Inr mount"
    and b: "add_policy_specific_rules env policy fwmark b2 = Inr b"
    using assms by (auto simp: finalize_def Let_def split: sum.splits)
  show "fe_proc_mounts env \<noteq> None"
    using mount by (auto simp: find_net_cls_mount_def split: option.splits)
  show "list_all (\<lambda>iface. fe_ifindex env iface \<noteq> None) (needed_interfaces policy)"
    using builders_need_interface(3) [OF b1] b
    by (auto simp: needed_interfaces_def add_policy_specific_rules_def add_connecting_rules_def
        add_connected_rules_def Let_def dest: builders_need_interface
        split: firewall_policy.splits option.splits allowed_tunnel_traffic.splits if_splits)
qed

end
