(* ===== verification/Firewall_Apply.thy ===== *)
theory Firewall_Apply
  imports Firewall_Security
begin

text \<open>
  \<^verbatim>\<open>Firewall\<close> of \<^verbatim>\<open>src/talpid-core/src/firewall/linux.rs\<close>: how a policy reaches the kernel. The
  kernel, its netlink socket and the \<^verbatim>\<open>sysctl\<close> files are operations on a world
  \<open>'w\<close>, the record \<open>kernel_ops\<close>; the locale \<open>nft_kernel\<close> says what the code relies on: a batch
  is one transaction, and a reply that ends without an error means that it was committed.
\<close>

section \<open>The kernel\<close>

text \<open>What one read of the socket, and the callback that parses it, give.\<close>

datatype nl_reply = RecvError | RecvEmpty | CbError | CbStop | CbOk

record 'w kernel_ops =
  k_env :: "'w \<Rightarrow> fw_env"
  k_dont_set_src_valid_mark :: bool
  k_dont_set_arp_ignore :: bool
  k_open :: "'w \<Rightarrow> bool \<times> 'w"
  k_send_batch :: "batch \<Rightarrow> 'w \<Rightarrow> bool \<times> nl_reply list \<times> 'w"
  k_get_tables :: "'w \<Rightarrow> bool \<times> (nl_reply \<times> string list) list \<times> 'w"
  k_write_src_valid_mark :: "string \<Rightarrow> 'w \<Rightarrow> bool \<times> 'w"
  k_read_arp_ignore :: "'w \<Rightarrow> string option \<times> 'w"
  k_write_arp_ignore :: "string \<Rightarrow> 'w \<Rightarrow> bool \<times> 'w"

section \<open>Messages to the kernel\<close>

text \<open>
  The loop over the replies. A list that ends without a stop is a socket that never answers
  again: the call does not return, which is \<open>None\<close>.
\<close>

fun process_replies :: "nl_reply list \<Rightarrow> (linux_fw_error, unit) result option" where
  "process_replies [] = None"
| "process_replies (RecvError # rs) = Some (Inl NetlinkRecvError)"
| "process_replies (RecvEmpty # rs) = Some (Inr ())"
| "process_replies (CbError # rs) = Some (Inl ProcessNetlinkError)"
| "process_replies (CbStop # rs) = Some (Inr ())"
| "process_replies (CbOk # rs) = process_replies rs"

definition send_and_process ::
  "'w kernel_ops \<Rightarrow> batch \<Rightarrow> 'w \<Rightarrow> ((linux_fw_error, unit) result \<times> 'w) option" where
  "send_and_process k b w =
     (case k_open k w of
        (False, w) \<Rightarrow> Some (Inl NetlinkOpenError, w)
      | (True, w) \<Rightarrow>
          (case k_send_batch k b w of
             (False, rs, w) \<Rightarrow> Some (Inl NetlinkSendError, w)
           | (True, rs, w) \<Rightarrow> map_option (\<lambda>r. (r, w)) (process_replies rs)))"

text \<open>The same loop, collecting the names of the tables that each message lists.\<close>

fun collect_tables ::
  "(nl_reply \<times> string list) list \<Rightarrow> string set \<Rightarrow> (linux_fw_error, string set) result option"
where
  "collect_tables [] table_set = None"
| "collect_tables ((RecvError, ts) # rs) table_set = Some (Inl NetlinkRecvError)"
| "collect_tables ((RecvEmpty, ts) # rs) table_set = Some (Inr table_set)"
| "collect_tables ((CbError, ts) # rs) table_set = Some (Inl ProcessNetlinkError)"
| "collect_tables ((CbStop, ts) # rs) table_set = Some (Inr (table_set \<union> set ts))"
| "collect_tables ((CbOk, ts) # rs) table_set = collect_tables rs (table_set \<union> set ts)"

definition verify_tables ::
  "'w kernel_ops \<Rightarrow> string list \<Rightarrow> 'w \<Rightarrow> ((linux_fw_error, unit) result \<times> 'w) option" where
  "verify_tables k expected_tables w =
     (case k_open k w of
        (False, w) \<Rightarrow> Some (Inl NetlinkOpenError, w)
      | (True, w) \<Rightarrow>
          (case k_get_tables k w of
             (False, rs, w) \<Rightarrow> Some (Inl NetlinkSendError, w)
           | (True, rs, w) \<Rightarrow>
               map_option (\<lambda>r. (and_then r (\<lambda>table_set.
                   if list_all (\<lambda>t. t \<in> table_set) expected_tables then Inr ()
                   else Inl NetfilterTableNotSetError), w)) (collect_tables rs {})))"

section \<open>Kernel settings\<close>

definition set_src_valid_mark_sysctl :: "'w kernel_ops \<Rightarrow> 'w \<Rightarrow> bool \<times> 'w" where
  "set_src_valid_mark_sysctl k w = k_write_src_valid_mark k ''1'' w"

definition lock_down_arp_ignore_sysctl :: "'w kernel_ops \<Rightarrow> 'w \<Rightarrow> bool \<times> 'w" where
  "lock_down_arp_ignore_sysctl k w =
     (case k_read_arp_ignore k w of
        (None, w) \<Rightarrow> (False, w)
      | (Some current_arp_ignore, w) \<Rightarrow>
          (if str_trim current_arp_ignore \<in> {''0'', ''1''} then k_write_arp_ignore k ''2'' w
           else (True, w)))"

text \<open>Errors are logged and otherwise ignored.\<close>

definition apply_kernel_config :: "'w kernel_ops \<Rightarrow> firewall_policy \<Rightarrow> 'w \<Rightarrow> 'w" where
  "apply_kernel_config k policy w =
     (let w = (if k_dont_set_src_valid_mark k then w
               else case policy of
                 PolicyConnecting peers tunnel lan ep traffic \<Rightarrow> snd (set_src_valid_mark_sysctl k w)
               | _ \<Rightarrow> w)
      in if k_dont_set_arp_ignore k then w
         else case policy of
           PolicyBlocked lan ep \<Rightarrow> w
         | _ \<Rightarrow> snd (lock_down_arp_ignore_sysctl k w))"

section \<open>The firewall\<close>

record firewall =
  fw_fwmark :: u32

definition firewall_new :: "u32 \<Rightarrow> (linux_fw_error, firewall) result" where
  "firewall_new fwmark = Inr \<lparr>fw_fwmark = fwmark\<rparr>"

definition from_args :: "firewall_arguments \<Rightarrow> (linux_fw_error, firewall) result" where
  "from_args args = firewall_new (fa_fwmark args)"

definition apply_policy ::
  "'w kernel_ops \<Rightarrow> firewall \<Rightarrow> firewall_policy \<Rightarrow> 'w \<Rightarrow>
    ((linux_fw_error, unit) result \<times> 'w) option" where
  "apply_policy k fw policy w =
     (case finalize (k_env k w) policy (fw_fwmark fw) of
        Inl e \<Rightarrow> Some (Inl e, w)
      | Inr b \<Rightarrow>
          (case send_and_process k b w of
             None \<Rightarrow> None
           | Some (Inl e, w) \<Rightarrow> Some (Inl e, w)
           | Some (Inr ok, w) \<Rightarrow> verify_tables k [TABLE_NAME] (apply_kernel_config k policy w)))"

definition reset_batch :: batch where
  "reset_batch = batch_deprecated_tables
     (batch_add (MsgDelTable TABLE_NAME Inet) (batch_add (MsgAddTable TABLE_NAME Inet) []))"

definition reset_policy ::
  "'w kernel_ops \<Rightarrow> 'w \<Rightarrow> ((linux_fw_error, unit) result \<times> 'w) option" where
  "reset_policy k w = send_and_process k reset_batch w"

section \<open>Transactions\<close>

text \<open>
  What the messages of a batch do to the tables of the kernel, after the manual of
  \<^verbatim>\<open>nft\<close>: adding a table that exists changes nothing, deleting one removes it with its contents,
  chains and rules are added at the end.
\<close>

type_synonym ruleset = "string \<times> proto_family \<Rightarrow> batch option"

fun apply_msg :: "batch_msg \<Rightarrow> ruleset \<Rightarrow> ruleset" where
  "apply_msg (MsgAddTable name family) rs =
     rs((name, family) := Some (case rs (name, family) of Some t \<Rightarrow> t | None \<Rightarrow> []))"
| "apply_msg (MsgDelTable name family) rs = rs((name, family) := None)"
| "apply_msg m rs =
     (case rs (TABLE_NAME, Inet) of
        Some t \<Rightarrow> rs((TABLE_NAME, Inet) := Some (t @ [m]))
      | None \<Rightarrow> rs)"

definition apply_batch :: "batch \<Rightarrow> ruleset \<Rightarrow> ruleset" where
  "apply_batch b rs = fold apply_msg b rs"

text \<open>The contents of the table that the batch of a policy leaves.\<close>

definition policy_table :: "batch \<Rightarrow> batch" where
  "policy_table b = drop (length policy_batch_new - length policy_chains) b"

lemma fold_apply_content:
  assumes "rs (TABLE_NAME, Inet) = Some t"
    and "\<And>m. m \<in> set b \<Longrightarrow> (\<exists>s. m = MsgAddChain s) \<or> (\<exists>c r. m = MsgAddRule c r)"
  shows "fold apply_msg b rs = rs((TABLE_NAME, Inet) := Some (t @ b))"
  using assms
proof (induction b arbitrary: rs t)
  case (Cons m b)
  let ?rs = "rs((TABLE_NAME, Inet) := Some (t @ [m]))"
  have "apply_msg m rs = ?rs"
    using Cons.prems(1) Cons.prems(2) [of m] by auto
  then have "fold apply_msg (m # b) rs = fold apply_msg b ?rs"
    by (simp only: fold_simps)
  also have "\<dots> = ?rs((TABLE_NAME, Inet) := Some ((t @ [m]) @ b))"
    by (rule Cons.IH) (use Cons.prems(2) in auto)
  finally show ?case by (simp only: fun_upd_upd append_assoc append_Cons append_Nil)
qed auto

lemma policy_batch_new_messages:
  "policy_batch_new =
     [MsgAddTable ''mullvadmangle4'' FamilyIpv4, MsgDelTable ''mullvadmangle4'' FamilyIpv4,
      MsgAddTable ''mullvadmangle6'' FamilyIpv6, MsgDelTable ''mullvadmangle6'' FamilyIpv6,
      MsgAddTable TABLE_NAME Inet, MsgDelTable TABLE_NAME Inet, MsgAddTable TABLE_NAME Inet] @
     map MsgAddChain policy_chains"
  by (simp add: policy_batch_new_def batch_add_def batch_deprecated_tables_def policy_chains_def)

lemma policy_table_rules_batch:
  "policy_table (policy_batch_new @ rules) = map MsgAddChain policy_chains @ rules"
  by (simp add: policy_table_def policy_batch_new_messages)

lemma apply_table_messages:
  "fold apply_msg
     [MsgAddTable ''mullvadmangle4'' FamilyIpv4, MsgDelTable ''mullvadmangle4'' FamilyIpv4,
      MsgAddTable ''mullvadmangle6'' FamilyIpv6, MsgDelTable ''mullvadmangle6'' FamilyIpv6,
      MsgAddTable TABLE_NAME Inet, MsgDelTable TABLE_NAME Inet, MsgAddTable TABLE_NAME Inet] rs =
   rs((''mullvadmangle4'', FamilyIpv4) := None, (''mullvadmangle6'', FamilyIpv6) := None,
      (TABLE_NAME, Inet) := Some [])"
  by (simp add: fun_upd_twist)

lemma apply_rules_batch:
  assumes "rules_batch b"
  shows "apply_batch b rs = rs
    ((''mullvadmangle4'', FamilyIpv4) := None, (''mullvadmangle6'', FamilyIpv6) := None,
     (TABLE_NAME, Inet) := Some (policy_table b))"
proof -
  obtain rules where b: "b = policy_batch_new @ map (\<lambda>(c, r). MsgAddRule c r) rules"
    using assms by (auto simp: rules_batch_def)
  let ?rs = "rs((''mullvadmangle4'', FamilyIpv4) := None, (''mullvadmangle6'', FamilyIpv6) := None,
      (TABLE_NAME, Inet) := Some [])"
  have "apply_batch b rs = fold apply_msg (policy_table b) ?rs"
    unfolding apply_batch_def b policy_table_rules_batch
    unfolding policy_batch_new_messages append_assoc fold_append comp_apply apply_table_messages ..
  also have "\<dots> = ?rs((TABLE_NAME, Inet) := Some ([] @ policy_table b))"
    by (rule fold_apply_content) (auto simp: b policy_table_rules_batch)
  finally show ?thesis by (simp only: fun_upd_upd append_Nil)
qed

lemma apply_reset_batch:
  "apply_batch reset_batch rs = rs
    ((TABLE_NAME, Inet) := None,
     (''mullvadmangle4'', FamilyIpv4) := None, (''mullvadmangle6'', FamilyIpv6) := None)"
  by (auto simp: apply_batch_def reset_batch_def batch_deprecated_tables_def batch_add_def)

lemma reset_batch_tables:
  "apply_batch reset_batch rs (TABLE_NAME, Inet) = None"
  "name \<notin> {TABLE_NAME, ''mullvadmangle4'', ''mullvadmangle6''} \<Longrightarrow>
     apply_batch reset_batch rs (name, family) = rs (name, family)"
  by (auto simp: apply_reset_batch TABLE_NAME_def fun_upd_apply)

text \<open>The table holds what the batch has, so it gives the batch's verdicts.\<close>

lemma policy_table_verdicts:
  assumes "rules_batch b"
  shows "batch_chains (policy_table b) = batch_chains b"
    and "chain_rules c (policy_table b) = chain_rules c b"
  using assms
  by (auto simp: rules_batch_def policy_table_def policy_batch_new_def batch_add_def
      batch_deprecated_tables_def policy_chains_def batch_chains_def chain_rules_def)

lemma run_chains_cong:
  assumes "batch_chains t = batch_chains b" and "\<And>c. chain_rules c t = chain_rules c b"
  shows "run_chains step t cs p = run_chains step b cs p"
  by (induction cs arbitrary: p)
    (simp_all add: chain_policy_def assms split: prod.splits nft_verdict.splits)

lemma run_hook_policy_table:
  "rules_batch b \<Longrightarrow> run_hook step (policy_table b) h p = run_hook step b h p"
  by (simp add: run_hook_def hook_chains_def policy_table_verdicts
      run_chains_cong [of "policy_table b" b])

section \<open>What the code relies on\<close>

locale nft_kernel =
  fixes k :: "'w kernel_ops" and tables :: "'w \<Rightarrow> ruleset" and arp_ignore :: "'w \<Rightarrow> string"
  assumes open_keeps: "k_open k w = (ok, w') \<Longrightarrow> tables w' = tables w"
    and send_failed: "k_send_batch k b w = (False, rs, w') \<Longrightarrow> tables w' = tables w"
    and send_is_transaction: "k_send_batch k b w = (True, rs, w') \<Longrightarrow>
          tables w' = tables w \<or> tables w' = apply_batch b (tables w)"
    and send_acknowledged: "k_send_batch k b w = (True, rs, w') \<Longrightarrow>
          process_replies rs = Some (Inr ()) \<Longrightarrow> tables w' = apply_batch b (tables w)"
    and send_answered: "k_send_batch k b w = (True, rs, w') \<Longrightarrow> process_replies rs \<noteq> None"
    and list_keeps: "k_get_tables k w = (ok, ts, w') \<Longrightarrow> tables w' = tables w"
    and list_answered: "k_get_tables k w = (True, ts, w') \<Longrightarrow> collect_tables ts {} \<noteq> None"
    and list_complete: "k_get_tables k w = (True, ts, w') \<Longrightarrow> collect_tables ts {} = Some (Inr names)
          \<Longrightarrow> TABLE_NAME \<in> names \<longleftrightarrow> (\<exists>family. tables w (TABLE_NAME, family) \<noteq> None)"
    and src_valid_mark_keeps: "k_write_src_valid_mark k v w = (ok, w') \<Longrightarrow> tables w' = tables w"
    and read_arp_ignore: "k_read_arp_ignore k w = (Some v, w') \<Longrightarrow> v = arp_ignore w \<and> arp_ignore w' = v"
    and read_arp_keeps: "k_read_arp_ignore k w = (r, w') \<Longrightarrow> tables w' = tables w"
    and write_arp_ignore: "k_write_arp_ignore k v w = (True, w') \<Longrightarrow> arp_ignore w' = v"
    and write_arp_keeps: "k_write_arp_ignore k v w = (ok, w') \<Longrightarrow> tables w' = tables w"
begin

lemma send_and_process_outcome:
  "\<exists>r w'. send_and_process k b w = Some (r, w') \<and>
     (tables w' = tables w \<or> tables w' = apply_batch b (tables w)) \<and>
     (r = Inr () \<longrightarrow> tables w' = apply_batch b (tables w))"
proof -
  obtain ok w1 where o: "k_open k w = (ok, w1)" by (cases "k_open k w")
  obtain sent rs w2 where s: "k_send_batch k b w1 = (sent, rs, w2)"
    by (cases "k_send_batch k b w1")
  note keeps = open_keeps [OF o]
  consider "\<not> ok" | "ok" "\<not> sent" | "ok" "sent" by blast
  then show ?thesis
  proof cases
    case 1
    then show ?thesis by (simp add: send_and_process_def o keeps)
  next
    case 2
    then have "tables w2 = tables w1" using send_failed s by auto
    with 2 show ?thesis by (simp add: send_and_process_def o s keeps)
  next
    case 3
    then obtain r where r: "process_replies rs = Some r"
      using send_answered s by fastforce
    have "tables w2 = tables w1 \<or> tables w2 = apply_batch b (tables w1)"
      using send_is_transaction s 3 by auto
    moreover have "r = Inr () \<Longrightarrow> tables w2 = apply_batch b (tables w1)"
      using send_acknowledged s 3 r by auto
    moreover have "send_and_process k b w = Some (r, w2)"
      using 3 by (simp add: send_and_process_def o s r)
    ultimately show ?thesis using keeps by auto
  qed
qed

lemma verify_tables_outcome:
  "\<exists>r w'. verify_tables k ns w = Some (r, w') \<and> tables w' = tables w"
proof -
  obtain ok w1 where o: "k_open k w = (ok, w1)" by (cases "k_open k w")
  obtain sent ts w2 where ts: "k_get_tables k w1 = (sent, ts, w2)"
    by (cases "k_get_tables k w1")
  note keeps = open_keeps [OF o] list_keeps [OF ts]
  show ?thesis
  proof (cases "ok \<and> sent")
    case True
    then obtain r where "collect_tables ts {} = Some r"
      using list_answered ts by fastforce
    with True show ?thesis by (simp add: verify_tables_def o ts keeps)
  next
    case False
    then show ?thesis by (cases ok) (simp_all add: verify_tables_def o ts keeps)
  qed
qed

lemma verify_tables_finds:
  assumes "tables w (TABLE_NAME, family) \<noteq> None"
  shows "verify_tables k [TABLE_NAME] w \<noteq> Some (Inl NetfilterTableNotSetError, w')"
proof -
  obtain ok w1 where o: "k_open k w = (ok, w1)" by (cases "k_open k w")
  obtain sent ts w2 where ts: "k_get_tables k w1 = (sent, ts, w2)"
    by (cases "k_get_tables k w1")
  have present: "\<exists>family. tables w1 (TABLE_NAME, family) \<noteq> None"
    using assms open_keeps [OF o] by auto
  have no_error: "collect_tables us s \<noteq> Some (Inl NetfilterTableNotSetError)" for us s
    by (induction us s rule: collect_tables.induct) auto
  show ?thesis
  proof (cases ok)
    case True
    show ?thesis
    proof (cases sent)
      case sent: True
      have "names \<noteq> Inr ns \<or> TABLE_NAME \<in> ns" if "collect_tables ts {} = Some names" for names ns
        using list_complete [of w1 ts w2 ns] present that sent ts by auto
      then show ?thesis
        using no_error [of ts "{}"] True sent o ts
        by (auto simp: verify_tables_def and_then_def split: sum.splits if_splits)
    qed (simp add: verify_tables_def o ts True)
  qed (simp add: verify_tables_def o)
qed

lemma lock_down_arp_ignore:
  assumes "lock_down_arp_ignore_sysctl k w = (True, w')"
  shows "str_trim (arp_ignore w') \<notin> {''0'', ''1''}"
proof -
  obtain r w1 where r: "k_read_arp_ignore k w = (r, w1)" by (cases "k_read_arp_ignore k w")
  have "str_trim ''2'' = ''2''" by code_simp
  then show ?thesis
    using assms read_arp_ignore [of w _ w1] write_arp_ignore [of "''2''" w1 w']
    by (auto simp: lock_down_arp_ignore_sysctl_def r split: option.splits if_splits)
qed

lemma lock_down_keeps: "tables (snd (lock_down_arp_ignore_sysctl k w)) = tables w"
proof -
  obtain r w1 where r: "k_read_arp_ignore k w = (r, w1)" by (cases "k_read_arp_ignore k w")
  obtain ok w2 where "k_write_arp_ignore k ''2'' w1 = (ok, w2)"
    by (cases "k_write_arp_ignore k ''2'' w1")
  then show ?thesis
    using read_arp_keeps [OF r] write_arp_keeps
    by (auto simp: lock_down_arp_ignore_sysctl_def r split: option.splits)
qed

lemma kernel_config_keeps: "tables (apply_kernel_config k policy w) = tables w"
proof -
  have "tables (snd (set_src_valid_mark_sysctl k w)) = tables w" for w
    using src_valid_mark_keeps [of "''1''" w]
    by (cases "k_write_src_valid_mark k ''1'' w") (simp add: set_src_valid_mark_sysctl_def)
  then show ?thesis
    by (auto simp: apply_kernel_config_def Let_def lock_down_keeps split: firewall_policy.splits)
qed

lemma apply_policy_outcome:
  "\<exists>r w'. apply_policy k fw policy w = Some (r, w') \<and>
     (tables w' = tables w \<or> (\<exists>b. finalize (k_env k w) policy (fw_fwmark fw) = Inr b \<and>
        tables w' = apply_batch b (tables w))) \<and>
     (r = Inr () \<longrightarrow> (\<exists>b. finalize (k_env k w) policy (fw_fwmark fw) = Inr b \<and>
        tables w' = apply_batch b (tables w)))"
proof (cases "finalize (k_env k w) policy (fw_fwmark fw)")
  case (Inl e)
  then show ?thesis by (simp add: apply_policy_def)
next
  case (Inr b)
  obtain r1 w1 where send: "send_and_process k b w = Some (r1, w1)"
    and either: "tables w1 = tables w \<or> tables w1 = apply_batch b (tables w)"
    and ok: "r1 = Inr () \<longrightarrow> tables w1 = apply_batch b (tables w)"
    using send_and_process_outcome by blast
  show ?thesis
  proof (cases r1)
    case (Inl e)
    then have "apply_policy k fw policy w = Some (Inl e, w1)"
      using Inr send by (simp add: apply_policy_def)
    with Inr either show ?thesis by auto
  next
    case r1: (Inr u)
    obtain r2 w2 where
      verify: "verify_tables k [TABLE_NAME] (apply_kernel_config k policy w1) = Some (r2, w2)"
      and "tables w2 = tables w1"
      using verify_tables_outcome kernel_config_keeps by metis
    moreover have "apply_policy k fw policy w = Some (r2, w2)"
      using Inr r1 send verify by (simp add: apply_policy_def)
    ultimately show ?thesis using Inr r1 ok by auto
  qed
qed

lemma reset_policy_outcome:
  "\<exists>r w'. reset_policy k w = Some (r, w') \<and>
     (tables w' = tables w \<or> tables w' = apply_batch reset_batch (tables w)) \<and>
     (r = Inr () \<longrightarrow> tables w' = apply_batch reset_batch (tables w))"
  unfolding reset_policy_def by (rule send_and_process_outcome)

end

section \<open>A kernel with these laws\<close>

text \<open>
  Transactions are applied at once and acknowledged; the listing names the table if it exists.
  The settings can be read and written.
\<close>

record sim_kernel =
  sim_tables :: ruleset
  sim_arp_ignore :: string
  sim_env :: fw_env

definition sim_ops :: "sim_kernel kernel_ops" where
  "sim_ops =
     \<lparr>k_env = sim_env,
      k_dont_set_src_valid_mark = False,
      k_dont_set_arp_ignore = False,
      k_open = (\<lambda>w. (True, w)),
      k_send_batch = (\<lambda>b w. (True, [CbOk, CbStop], w\<lparr>sim_tables := apply_batch b (sim_tables w)\<rparr>)),
      k_get_tables = (\<lambda>w. (True, [(CbStop,
         if list_ex (\<lambda>f. sim_tables w (TABLE_NAME, f) \<noteq> None) [Inet, FamilyIpv4, FamilyIpv6]
         then [TABLE_NAME] else [])], w)),
      k_write_src_valid_mark = (\<lambda>v w. (True, w)),
      k_read_arp_ignore = (\<lambda>w. (Some (sim_arp_ignore w), w)),
      k_write_arp_ignore = (\<lambda>v w. (True, w\<lparr>sim_arp_ignore := v\<rparr>))\<rparr>"

lemma proto_family_cases: "(\<exists>f. P f) \<longleftrightarrow> P Inet \<or> P FamilyIpv4 \<or> P FamilyIpv6"
  by (metis proto_family.exhaust)

interpretation sim: nft_kernel sim_ops sim_tables sim_arp_ignore
  by unfold_locales (auto simp: sim_ops_def proto_family_cases)

section \<open>Enforcement\<close>

text \<open>A table that gives every packet the verdict that the policy specifies.\<close>

definition enforces :: "nft_step \<Rightarrow> fw_env \<Rightarrow> firewall_policy \<Rightarrow> u32 \<Rightarrow> batch \<Rightarrow> bool" where
  "enforces step env policy fwmark t \<longleftrightarrow>
     (\<forall>p. send_verdict step t p = (if may_leave env policy fwmark p then VAccept else rejection p)) \<and>
     (\<forall>p. receive_verdict step t p = VAccept \<longleftrightarrow> may_enter env policy p)"

lemma policy_table_enforces:
  assumes "nft_vm step" and "finalize env policy fwmark = Inr b"
  shows "enforces step env policy fwmark (policy_table b)"
proof -
  have hooks: "run_hook step (policy_table b) = run_hook step b"
    by (intro ext run_hook_policy_table rules_batch_finalize [OF assms])
  have "send_verdict step (policy_table b) p = send_verdict step b p"
    and "receive_verdict step (policy_table b) p = receive_verdict step b p" for p
    unfolding send_verdict_def receive_verdict_def hooks by (rule refl)+
  then show ?thesis
    using send_accept [OF assms] receive_accept [OF assms] by (simp add: enforces_def)
qed

end
