(* ===== verification/Firewall_Properties.thy ===== *)
theory Firewall_Properties
  imports Firewall_Apply
begin

text \<open>
  The properties of the Linux firewall: exact verdicts on sent, received and routed packets, the
  consequences that \<^verbatim>\<open>docs/security.md\<close> promises, and when a batch can be made at all.
\<close>

section \<open>Examples\<close>

text \<open>A machine and policies on which the theorems are applied.\<close>

definition example_env :: fw_env where
  "example_env =
     \<lparr>fe_ifindex = (\<lambda>name. if name = ''lo'' then Some 1 else if name = ''wg0'' then Some 5 else None),
      fe_proc_mounts = Some ''net_cls /sys/fs/cgroup/net_cls cgroup rw,net_cls 0 0'',
      fe_add_counters = False\<rparr>"

definition example_tunnel :: tunnel_metadata where
  "example_tunnel =
     \<lparr>tm_interface = ''wg0'', tm_ips = [V4 (ipv4_addr 10 64 0 2)],
      tm_ipv4_gateway = ipv4_addr 10 64 0 1, tm_ipv6_gateway = None\<rparr>"

definition example_peer :: allowed_endpoint where
  "example_peer =
     \<lparr>ae_endpoint = endpoint_new (V4 (ipv4_addr 185 65 135 1)) 51820 Udp, ae_clients = ClientsRoot\<rparr>"

definition example_connected :: firewall_policy where
  "example_connected =
     PolicyConnected [example_peer] example_tunnel True
       \<lparr>tunnel_dns = [V4 (ipv4_addr 10 64 0 1)], non_tunnel_dns = []\<rparr>"

definition example_blocked :: firewall_policy where
  "example_blocked = PolicyBlocked False (Some example_peer)"

text \<open>A UDP name lookup that leaves through another interface than the tunnel.\<close>

definition example_packet :: packet where
  "example_packet =
     \<lparr>p_iif = 0, p_oif = 2, p_ip = HdrV4 (ipv4_addr 192 168 1 7) (ipv4_addr 8 8 8 8),
      p_l4proto = IPPROTO_UDP, p_sport = 40000, p_dport = 53, p_icmp_type = 0, p_icmp_code = 0,
      p_mark = 0, p_ct_mark = 0, p_ct_state = 8, p_skuid = Some 1000, p_cgroup = 0\<rparr>"

text \<open>A new TCP connection from the local network to the address of the tunnel.\<close>

definition example_probe :: packet where
  "example_probe = example_packet
     \<lparr>p_iif := 2, p_oif := 0, p_l4proto := IPPROTO_TCP, p_dport := 22, p_skuid := None,
      p_ip := HdrV4 (ipv4_addr 192 168 1 66) (ipv4_addr 10 64 0 2)\<rparr>"

lemmas example_simps = example_env_def example_tunnel_def example_peer_def example_connected_def
  example_blocked_def example_packet_def example_probe_def

lemmas packet_simps = on_iface_def off_iface_def packet_iface_def packet_addr_def packet_port_def
  has_port_def has_endpoint_def is_icmpv6_def established_def root_or_all_def split_tunneled_def
  p_src_def p_dst_def l4proto_def ipv4_addr_def endpoint_new_def prefix_mask_def
  mask_eq_exp_minus_1

lemmas specification_simps = may_leave_def may_enter_def may_forward_def marked_def traffic_defs
  dhcp_ndp_defs requests_dns_def to_lan_def from_lan_def local_dns_def tunnel_dns_request_def
  dhcp_server_request_def rejection_def Let_def ALLOWED_LAN_NETS_def ALLOWED_LAN_MULTICAST_NETS_def
  DHCPV6_SERVER_ADDRS_def IPV6_LINK_LOCAL_def SOLICITED_NODE_MULTICAST_def BROADCAST_def
  ROUTER_SOLICITATION_OUT_DST_ADDR_def NET_CLS_CLASSID_def SPLIT_TUNNEL_MARK_def CT_ESTABLISHED_def
  ROOT_UID_def

lemma example_batches:
  obtains b where "finalize example_env example_connected fwmark = Inr b"
  using finalize_ok [of example_env example_connected fwmark]
  by (auto simp: example_env_def example_connected_def needed_interfaces_def example_tunnel_def)


text \<open>Where a name lookup may go while connected.\<close>

lemma connected_lookup_leaves:
  assumes "may_leave env (PolicyConnected peers tunnel lan dns) fwmark p"
    and "requests_dns p" and "\<not> on_iface env DirOut ''lo'' p"
    and "p_ct_mark p \<noteq> SPLIT_TUNNEL_MARK" and "p_cgroup p \<noteq> NET_CLS_CLASSID"
  shows "on_iface env DirOut (tm_interface tunnel) p \<and> packet_addr EndDst p \<in> set (tunnel_dns dns) \<or>
    off_iface env DirOut (tm_interface tunnel) p \<and> packet_addr EndDst p \<in> set (non_tunnel_dns dns) \<or>
    (\<exists>peer \<in> set peers. has_endpoint EndDst (ae_endpoint peer) p \<and>
      (p_mark p = fwmark \<or> allow_all (ae_clients peer)))"
proof -
  let ?policy = "PolicyConnected peers tunnel lan dns"
  have "\<not> dhcp_out p"
    using assms(2)
    by (auto simp: dhcp_out_def dhcpv4_request_def dhcpv6_request_def requests_dns_def
        has_port_def list_ex_iff)
  moreover have "\<not> ndp_out p"
    using assms(2) by (auto simp: ndp_out_def router_solicitation_def is_icmpv6_def
        requests_dns_def has_port_def l4proto_def)
  moreover have "marked env ?policy fwmark p = p \<or>
      (\<exists>peer \<in> set peers. allow_all (ae_clients peer) \<and> has_endpoint EndDst (ae_endpoint peer) p)"
    using assms(5) by (auto simp: marked_def policy_peers_def list_ex_iff)
  ultimately show ?thesis
    using assms(1-4)
    by (auto simp: may_leave_def traffic_defs split_tunneled_def list_ex_iff
        tunnel_dns_request_def local_dns_def Let_def)
qed

text \<open>
  C1. The verdict on every packet that the host sends is the one of the security specification:
  accepted exactly if it may leave (loopback, excluded applications, DHCP, neighbour discovery,
  the tunnel's own packets, the allowed endpoint, name lookups at the configured servers and
  otherwise, never a name lookup, the tunnel and, if allowed, the local network), rejected
  with an error to the sender in every other case.
\<close>

theorem send_verdict_is_specified:
  assumes "nft_vm step" and "finalize env policy fwmark = Inr b"
  shows "send_verdict step b p = (if may_leave env policy fwmark p then VAccept else rejection p)"
  by (rule send_accept [OF assms])

theorem send_verdict_is_specified_witness:
  "nft_vm nft_eval \<and> (\<exists>b. finalize example_env example_connected 1 = Inr b \<and>
     send_verdict nft_eval b example_packet = VReject IcmpPortUnreach)"
proof -
  obtain b where b: "finalize example_env example_connected 1 = Inr b" by (rule example_batches)
  have "\<not> may_leave example_env example_connected 1 example_packet"
    by (simp add: example_simps packet_simps specification_simps)
  moreover have "rejection example_packet = VReject IcmpPortUnreach"
    by (simp add: example_simps packet_simps specification_simps)
  ultimately show ?thesis
    using send_verdict_is_specified [OF ref_vm.nft_vm_axioms b, of example_packet] b
      ref_vm.nft_vm_axioms by auto
qed

text \<open>
  C2. A packet addressed to the host is accepted exactly if the security specification lets it
  enter, whatever marks the prerouting chain sets on it first.
\<close>

theorem receive_verdict_is_specified:
  assumes "nft_vm step" and "finalize env policy fwmark = Inr b"
  shows "receive_verdict step b p = VAccept \<longleftrightarrow> may_enter env policy p"
  by (rule receive_accept [OF assms])

theorem receive_verdict_is_specified_witness:
  "nft_vm nft_eval \<and> (\<exists>b. finalize example_env example_connected 1 = Inr b \<and>
     receive_verdict nft_eval b example_probe \<noteq> VAccept \<and>
     receive_verdict nft_eval b (example_probe\<lparr>p_iif := 5\<rparr>) = VAccept)"
proof -
  obtain b where b: "finalize example_env example_connected 1 = Inr b" by (rule example_batches)
  have "\<not> may_enter example_env example_connected example_probe"
    by (simp add: example_simps packet_simps specification_simps)
  moreover have "may_enter example_env example_connected (example_probe\<lparr>p_iif := 5\<rparr>)"
    by (simp add: example_simps packet_simps specification_simps)
  ultimately show ?thesis
    using receive_verdict_is_specified [OF ref_vm.nft_vm_axioms b] b ref_vm.nft_vm_axioms by auto
qed





text \<open>
  C3. While connected, a name lookup that is neither on the loopback interface nor from an
  excluded application leaves only through the tunnel to a tunnel DNS server, outside the
  tunnel to a configured server of the local network, or to the tunnel's own endpoint.
\<close>

theorem connected_policy_leaks_no_dns:
  assumes "nft_vm step" and "finalize env (PolicyConnected peers tunnel lan dns) fwmark = Inr b"
    and "requests_dns p" and "send_verdict step b p = VAccept"
    and "\<not> on_iface env DirOut ''lo'' p"
    and "p_ct_mark p \<noteq> SPLIT_TUNNEL_MARK" and "p_cgroup p \<noteq> NET_CLS_CLASSID"
  shows "on_iface env DirOut (tm_interface tunnel) p \<and> packet_addr EndDst p \<in> set (tunnel_dns dns) \<or>
    off_iface env DirOut (tm_interface tunnel) p \<and> packet_addr EndDst p \<in> set (non_tunnel_dns dns) \<or>
    (\<exists>peer \<in> set peers. has_endpoint EndDst (ae_endpoint peer) p \<and>
      (p_mark p = fwmark \<or> allow_all (ae_clients peer)))"
proof -
  have "may_leave env (PolicyConnected peers tunnel lan dns) fwmark p"
    using send_accept [OF assms(1,2), of p] assms(4) by (simp add: rejection_def split: if_splits)
  then show ?thesis by (rule connected_lookup_leaves) (rule assms(3,5-7))+
qed

theorem connected_policy_leaks_no_dns_witness:
  "\<exists>b. finalize example_env example_connected 1 = Inr b \<and>
     requests_dns (example_packet\<lparr>p_oif := 5,
       p_ip := HdrV4 (ipv4_addr 10 64 0 2) (ipv4_addr 10 64 0 1)\<rparr>) \<and>
     send_verdict nft_eval b (example_packet\<lparr>p_oif := 5,
       p_ip := HdrV4 (ipv4_addr 10 64 0 2) (ipv4_addr 10 64 0 1)\<rparr>) = VAccept \<and>
     on_iface example_env DirOut ''wg0'' (example_packet\<lparr>p_oif := 5,
       p_ip := HdrV4 (ipv4_addr 10 64 0 2) (ipv4_addr 10 64 0 1)\<rparr>)"
proof -
  let ?p = "example_packet\<lparr>p_oif := 5, p_ip := HdrV4 (ipv4_addr 10 64 0 2) (ipv4_addr 10 64 0 1)\<rparr>"
  obtain b where b: "finalize example_env example_connected 1 = Inr b" by (rule example_batches)
  have "may_leave example_env example_connected 1 ?p"
    by (simp add: example_simps packet_simps specification_simps)
  then have accepted: "send_verdict nft_eval b ?p = VAccept"
    by (simp add: send_accept [OF ref_vm.nft_vm_axioms b])
  have dns: "requests_dns ?p"
    by (simp add: example_simps packet_simps specification_simps)
  have "\<not> on_iface example_env DirOut ''lo'' ?p"
    "p_ct_mark ?p \<noteq> SPLIT_TUNNEL_MARK" "p_cgroup ?p \<noteq> NET_CLS_CLASSID"
    "\<not> has_endpoint EndDst (ae_endpoint example_peer) ?p"
    by (simp_all add: example_simps packet_simps specification_simps)
  then have "on_iface example_env DirOut (tm_interface example_tunnel) ?p"
    using connected_policy_leaks_no_dns [OF ref_vm.nft_vm_axioms b [unfolded example_connected_def]
        dns accepted] by auto
  with accepted b dns show ?thesis by (auto simp: example_tunnel_def)
qed



text \<open>
  C8. The batch of a policy can be made exactly if the mount table can be read and the loopback
  interface and, where the policy has rules for it, the tunnel interface exist.
\<close>

theorem finalize_succeeds_iff:
  "(\<exists>b. finalize env policy fwmark = Inr b) \<longleftrightarrow>
     fe_proc_mounts env \<noteq> None \<and>
     list_all (\<lambda>iface. fe_ifindex env iface \<noteq> None) (needed_interfaces policy)"
  using finalize_ok finalize_needs by blast

text \<open>
  C7. While connected, a new connection of an excluded application is never routed into the
  tunnel: the postrouting chain drops it there, and on every other interface but loopback it
  is accepted with its source address rewritten.
\<close>

theorem excluded_traffic_avoids_tunnel:
  assumes "nft_vm step" and "finalize env (PolicyConnected peers tunnel lan dns) fwmark = Inr b"
    and "split_tunneling_available env" and "split_tunneled p"
  shows "fst (run_hook step b HookPostRouting p) =
    (if on_iface env DirOut (tm_interface tunnel) p then VDrop else VAccept)"
proof -
  have "fst (run_hook step b HookPostRouting p) =
      fst (run_chain step (chain_policy b ChainNat) (chain_rules ChainNat b) p)"
    unfolding run_hook_def hook_chains_rules_batch [OF rules_batch_finalize [OF assms(1,2)]]
    by (rule fst_run_chains_single)
  then show ?thesis
    using assms(3,4)
    by (auto simp: run_policy_chain [OF assms(1,2)] policy_guards_def chain_simps
        specific_guards_peers split_tunneling_guards_def only_def
        split: prod.splits)
qed

theorem excluded_traffic_avoids_tunnel_witness:
  "\<exists>b. finalize example_env example_connected 1 = Inr b \<and>
     fst (run_hook nft_eval b HookPostRouting
       (example_packet\<lparr>p_oif := 5, p_ct_mark := SPLIT_TUNNEL_MARK\<rparr>)) = VDrop"
proof -
  obtain b where b: "finalize example_env example_connected 1 = Inr b" by (rule example_batches)
  have avail: "split_tunneling_available example_env"
    by (simp add: split_tunneling_available_def example_env_def find_net_cls_mount_def
        find_net_cls_mount_inner_def parse_mount_line_def)
  show ?thesis
    using excluded_traffic_avoids_tunnel [OF ref_vm.nft_vm_axioms b [unfolded example_connected_def]
        avail, of "example_packet\<lparr>p_oif := 5, p_ct_mark := SPLIT_TUNNEL_MARK\<rparr>"] b
    by (simp add: example_simps packet_simps)
qed

section \<open>Applying and resetting policies\<close>

definition example_kernel :: sim_kernel where
  "example_kernel = \<lparr>sim_tables = (\<lambda>_. None), sim_arp_ignore = ''0'', sim_env = example_env\<rparr>"

definition example_firewall :: firewall where
  "example_firewall = \<lparr>fw_fwmark = 1\<rparr>"

lemma example_apply:
  obtains w' where "apply_policy sim_ops example_firewall example_connected example_kernel =
    Some (Inr (), w')"
proof -
  obtain b where b: "finalize example_env example_connected 1 = Inr b" by (rule example_batches)
  have "apply_batch b (\<lambda>_. None) (TABLE_NAME, Inet) = Some (policy_table b)"
    by (simp add: apply_rules_batch [OF rules_batch_finalize [OF ref_vm.nft_vm_axioms b]])
  with b that show thesis
    by (simp add: apply_policy_def send_and_process_def verify_tables_def apply_kernel_config_def
        set_src_valid_mark_sysctl_def lock_down_arp_ignore_sysctl_def sim_ops_def example_kernel_def
        example_firewall_def example_connected_def [of] str_trim_def is_whitespace_def)
qed

text \<open>
  C9. When applying a policy succeeds, the kernel holds a table that gives every sent and every
  received packet the verdict that the policy specifies.
\<close>

theorem apply_policy_enforces:
  assumes "nft_kernel k tables arp_ignore" and "nft_vm step"
    and "apply_policy k fw policy w = Some (Inr (), w')"
  shows "\<exists>t. tables w' (TABLE_NAME, Inet) = Some t \<and>
    enforces step (k_env k w) policy (fw_fwmark fw) t"
proof -
  obtain b where b: "finalize (k_env k w) policy (fw_fwmark fw) = Inr b"
    and "tables w' = apply_batch b (tables w)"
    using nft_kernel.apply_policy_outcome [OF assms(1), of fw policy w] assms(3) by auto
  then show ?thesis
    using apply_rules_batch [OF rules_batch_finalize [OF assms(2) b]]
      policy_table_enforces [OF assms(2) b] by simp
qed

theorem apply_policy_enforces_witness:
  "\<exists>w' t. apply_policy sim_ops example_firewall example_connected example_kernel =
       Some (Inr (), w') \<and> sim_tables w' (TABLE_NAME, Inet) = Some t \<and>
     enforces nft_eval example_env example_connected 1 t"
proof -
  obtain w' where w': "apply_policy sim_ops example_firewall example_connected example_kernel =
    Some (Inr (), w')" by (rule example_apply)
  from apply_policy_enforces [OF sim.nft_kernel_axioms ref_vm.nft_vm_axioms w'] w' show ?thesis
    by (auto simp: example_kernel_def example_firewall_def sim_ops_def)
qed

text \<open>
  C10. Applying a policy always returns and is atomic: either the kernel's tables are as they
  were, or the table of the policy has replaced the previous one and only the two tables of
  old versions have been removed besides.
\<close>

theorem apply_policy_is_atomic:
  assumes "nft_kernel k tables arp_ignore"
  shows "\<exists>r w'. apply_policy k fw policy w = Some (r, w') \<and>
    (tables w' = tables w \<or>
     (\<exists>b. finalize (k_env k w) policy (fw_fwmark fw) = Inr b \<and>
        tables w' = (tables w)
          ((''mullvadmangle4'', FamilyIpv4) := None, (''mullvadmangle6'', FamilyIpv6) := None,
           (TABLE_NAME, Inet) := Some (policy_table b))))"
  using nft_kernel.apply_policy_outcome [OF assms, of fw policy w]
    apply_rules_batch [OF rules_batch_finalize [OF ref_vm.nft_vm_axioms]]
  by metis

theorem apply_policy_is_atomic_witness:
  "nft_kernel sim_ops sim_tables sim_arp_ignore \<and>
   (\<exists>r w'. apply_policy sim_ops example_firewall example_connected example_kernel = Some (r, w'))"
  using sim.nft_kernel_axioms apply_policy_is_atomic [OF sim.nft_kernel_axioms] by blast

text \<open>
  Resetting the policy always returns; if it succeeds the table is gone, and if it fails
  the table is either gone or as it was. No table of another program changes.
\<close>

theorem reset_policy_removes_table:
  assumes "nft_kernel k tables arp_ignore"
  shows "\<exists>r w'. reset_policy k w = Some (r, w') \<and>
    (tables w' (TABLE_NAME, Inet) = None \<or> r \<noteq> Inr () \<and> tables w' = tables w) \<and>
    (name \<in> {TABLE_NAME, ''mullvadmangle4'', ''mullvadmangle6''} \<or>
     tables w' (name, family) = tables w (name, family))"
proof -
  obtain r w' where "reset_policy k w = Some (r, w')"
    and "tables w' = tables w \<or> tables w' = apply_batch reset_batch (tables w)"
    and "r = Inr () \<longrightarrow> tables w' = apply_batch reset_batch (tables w)"
    using nft_kernel.reset_policy_outcome [OF assms] by blast
  then show ?thesis
    using reset_batch_tables [where rs = "tables w"] by metis
qed

theorem reset_policy_removes_table_witness:
  "nft_kernel sim_ops sim_tables sim_arp_ignore \<and>
   (\<exists>r w'. reset_policy sim_ops example_kernel = Some (r, w'))"
  using sim.nft_kernel_axioms reset_policy_removes_table [OF sim.nft_kernel_axioms] by blast

end
