(* ===== verification/Tunnel_State_Machine.thy ===== *)
theory Tunnel_State_Machine
  imports Firewall_Policy
begin

text \<open>
  \<^verbatim>\<open>src/talpid-core/src/tunnel_state_machine/\<close>: the five states of the tunnel, the values they
  share, and the handlers of commands, tunnel events and the closing of the tunnel. What the
  handlers call outside this module (firewall, DNS, routes, NetworkManager, the generator of
  tunnel parameters, the thread that runs the tunnel) is the record \<open>platform\<close> of operations
  on a world \<open>'w\<close>. Messages on one-shot channels are recorded in the order they are sent.
\<close>

section \<open>Commands and events\<close>

datatype lockdown_mode = LockdownDisabled | LockdownEnabled bool

definition lockdown_yes :: lockdown_mode where "lockdown_yes = LockdownEnabled True"
definition lockdown_no :: lockdown_mode where "lockdown_no = LockdownDisabled"

definition lockdown_bool :: "lockdown_mode \<Rightarrow> bool" where
  "lockdown_bool m = (case m of LockdownEnabled _ \<Rightarrow> True | LockdownDisabled \<Rightarrow> False)"

definition lockdown_from :: "bool \<Rightarrow> lockdown_mode" where
  "lockdown_from block = (if block then lockdown_yes else lockdown_no)"

definition lockdown_eq :: "lockdown_mode \<Rightarrow> lockdown_mode \<Rightarrow> bool" where
  "lockdown_eq a b \<longleftrightarrow> lockdown_bool a = lockdown_bool b"

text \<open>The number in a command is the one-shot channel on which its completion is awaited.\<close>

type_synonym tx = nat

datatype tunnel_command =
  CmdAllowLan bool tx
| CmdAllowEndpoint allowed_endpoint tx
| CmdDns dns_config tx
| CmdLockdownMode lockdown_mode tx
| CmdConnectivity connectivity
| CmdConnect
| CmdDisconnect
| CmdBlock error_state_cause

text \<open>\<open>Inl ()\<close> stands for \<^verbatim>\<open>oneshot::Canceled\<close>.\<close>

datatype event_result =
  EvCommand "tunnel_command option"
| EvEvent "tunnel_event option"
| EvClose "(unit, error_state_cause option) result"

section \<open>The platform and the shared values\<close>

record 'w platform =
  pf_apply_policy :: "firewall_policy \<Rightarrow> 'w \<Rightarrow> bool \<times> 'w"
  pf_reset_policy :: "'w \<Rightarrow> bool \<times> 'w"
  pf_dns_set :: "string \<Rightarrow> resolved_dns_config \<Rightarrow> 'w \<Rightarrow> bool \<times> 'w"
  pf_dns_reset :: "'w \<Rightarrow> bool \<times> 'w"
  pf_dns_reset_before_interface_removal :: "'w \<Rightarrow> bool \<times> 'w"
  pf_generate ::
    "u32 \<Rightarrow> ip_availability \<Rightarrow> 'w \<Rightarrow> (parameter_generation_error, tunnel_parameters) result \<times> 'w"
  pf_clear_routes :: "'w \<Rightarrow> bool \<times> 'w"
  pf_clear_routing_rules :: "'w \<Rightarrow> bool \<times> 'w"
  pf_nm_new :: "'w \<Rightarrow> bool \<times> 'w"
  pf_nm_disable :: "'w \<Rightarrow> bool option \<times> 'w"
  pf_nm_enable :: "'w \<Rightarrow> 'w"
  pf_start_tunnel :: "tunnel_parameters \<Rightarrow> u32 \<Rightarrow> 'w \<Rightarrow> 'w"

datatype message = Completed tx | CloseTunnel

record 'w tsm =
  ts_allow_lan :: bool
  ts_lockdown_mode :: lockdown_mode
  ts_connectivity :: connectivity
  ts_dns_config :: dns_config
  ts_allowed_endpoint :: allowed_endpoint
  ts_connectivity_check_was_enabled :: "bool option"
  ts_sent :: "message list"
  ts_world :: 'w

definition on_world :: "('w \<Rightarrow> 'a \<times> 'w) \<Rightarrow> 'w tsm \<Rightarrow> 'a \<times> 'w tsm" where
  "on_world f s = (case f (ts_world s) of (a, w) \<Rightarrow> (a, s\<lparr>ts_world := w\<rparr>))"

definition send_message :: "message \<Rightarrow> 'w tsm \<Rightarrow> 'w tsm" where
  "send_message msg s = s\<lparr>ts_sent := ts_sent s @ [msg]\<rparr>"

definition set_allow_lan :: "bool \<Rightarrow> 'w tsm \<Rightarrow> bool \<times> 'w tsm" where
  "set_allow_lan allow_lan s =
     (if ts_allow_lan s \<noteq> allow_lan then (True, s\<lparr>ts_allow_lan := allow_lan\<rparr>) else (False, s))"

definition set_dns_config :: "dns_config \<Rightarrow> 'w tsm \<Rightarrow> bool \<times> 'w tsm" where
  "set_dns_config dns s =
     (if ts_dns_config s \<noteq> dns then (True, s\<lparr>ts_dns_config := dns\<rparr>) else (False, s))"

definition disable_connectivity_check :: "'w platform \<Rightarrow> 'w tsm \<Rightarrow> 'w tsm" where
  "disable_connectivity_check pf s =
     (if ts_connectivity_check_was_enabled s = None then
        (case on_world (pf_nm_new pf) s of
           (False, s) \<Rightarrow> s
         | (True, s) \<Rightarrow>
             (case on_world (pf_nm_disable pf) s of
                (r, s) \<Rightarrow> s\<lparr>ts_connectivity_check_was_enabled := r\<rparr>))
      else s)"

definition reset_connectivity_check :: "'w platform \<Rightarrow> 'w tsm \<Rightarrow> 'w tsm" where
  "reset_connectivity_check pf s =
     (let was_enabled = ts_connectivity_check_was_enabled s;
          s = s\<lparr>ts_connectivity_check_was_enabled := None\<rparr>
      in if was_enabled = Some True then
           (case on_world (pf_nm_new pf) s of
              (False, s) \<Rightarrow> s
            | (True, s) \<Rightarrow> s\<lparr>ts_world := pf_nm_enable pf (ts_world s)\<rparr>)
         else s)"

section \<open>States\<close>

datatype after_disconnect = AfterNothing | AfterBlock error_state_cause | AfterReconnect u32

definition after_action :: "after_disconnect \<Rightarrow> action_after_disconnect" where
  "after_action a =
     (case a of
        AfterNothing \<Rightarrow> ActionNothing
      | AfterBlock _ \<Rightarrow> ActionBlock
      | AfterReconnect _ \<Rightarrow> ActionReconnect)"

text \<open>
  The receiving ends of the tunnel's channels are not data: what they deliver is the input of
  \<open>handle_event\<close>. Of the future that resolves when the tunnel has closed, the states keep
  whether it has been resolved (\<^verbatim>\<open>is_terminated\<close>).
\<close>

record connecting_state =
  cg_tunnel_parameters :: tunnel_parameters
  cg_tunnel_metadata :: "tunnel_metadata option"
  cg_allowed_tunnel_traffic :: allowed_tunnel_traffic
  cg_close_terminated :: bool
  cg_retry_attempt :: u32

record connected_state =
  cd_metadata :: tunnel_metadata
  cd_tunnel_parameters :: tunnel_parameters
  cd_close_terminated :: bool

record disconnecting_state =
  dg_close_terminated :: bool
  dg_after_disconnect :: after_disconnect

datatype tunnel_state =
  DisconnectedState
| ConnectingState connecting_state
| ConnectedState connected_state
| DisconnectingState disconnecting_state
| ErrorState error_state_cause

datatype event_consequence =
  NewState tunnel_state tunnel_state_transition
| SameState tunnel_state
| Finished

type_synonym entered = "tunnel_state \<times> tunnel_state_transition"

definition new_state :: "entered \<times> 'w tsm \<Rightarrow> event_consequence \<times> 'w tsm" where
  "new_state r = (case r of ((st, tr), s) \<Rightarrow> (NewState st tr, s))"

section \<open>Error state\<close>

definition error_set_firewall_policy ::
  "'w platform \<Rightarrow> 'w tsm \<Rightarrow> (firewall_policy_error, unit) result \<times> 'w tsm" where
  "error_set_firewall_policy pf s =
     (let policy = PolicyBlocked (ts_allow_lan s) (Some (ts_allowed_endpoint s));
          s = disable_connectivity_check pf s
      in case on_world (pf_apply_policy pf policy) s of
           (True, s) \<Rightarrow> (Inr (), s)
         | (False, s) \<Rightarrow> (Inl FirewallGeneric, s))"

definition error_enter :: "'w platform \<Rightarrow> error_state_cause \<Rightarrow> 'w tsm \<Rightarrow> entered \<times> 'w tsm" where
  "error_enter pf block_reason s =
     (case error_set_firewall_policy pf s of
        (r, s) \<Rightarrow>
          ((ErrorState block_reason,
            TransError \<lparr>es_cause = block_reason,
              es_block_failure = (case r of Inl e \<Rightarrow> Some e | Inr _ \<Rightarrow> None)\<rparr>), s))"

definition error_reset_dns :: "'w platform \<Rightarrow> 'w tsm \<Rightarrow> 'w tsm" where
  "error_reset_dns pf s = snd (on_world (pf_dns_reset pf) s)"

section \<open>Connecting state: entering\<close>

definition tunnel_clients :: "tunnel_parameters \<Rightarrow> allowed_clients" where
  "tunnel_clients params =
     (if get_openvpn_local_proxy_settings params \<noteq> None then ClientsAll else ClientsRoot)"

definition peer_endpoints_of :: "tunnel_parameters \<Rightarrow> allowed_endpoint list" where
  "peer_endpoints_of params =
     map (\<lambda>e. \<lparr>ae_endpoint = e, ae_clients = tunnel_clients params\<rparr>) (get_next_hop_endpoints params)"

definition connecting_policy ::
  "tunnel_parameters \<Rightarrow> tunnel_metadata option \<Rightarrow> allowed_tunnel_traffic \<Rightarrow> 'w tsm \<Rightarrow> firewall_policy"
where
  "connecting_policy params md traffic s =
     PolicyConnecting (peer_endpoints_of params) md (ts_allow_lan s) (ts_allowed_endpoint s) traffic"

definition connecting_set_firewall_policy ::
  "'w platform \<Rightarrow> tunnel_parameters \<Rightarrow> tunnel_metadata option \<Rightarrow> allowed_tunnel_traffic \<Rightarrow> 'w tsm \<Rightarrow>
    (firewall_policy_error, unit) result \<times> 'w tsm" where
  "connecting_set_firewall_policy pf params md traffic s =
     (let s = disable_connectivity_check pf s
      in case on_world (pf_apply_policy pf (connecting_policy params md traffic s)) s of
           (True, s) \<Rightarrow> (Inr (), s)
         | (False, s) \<Rightarrow> (Inl FirewallGeneric, s))"

definition INITIAL_ALLOWED_TUNNEL_TRAFFIC :: allowed_tunnel_traffic where
  "INITIAL_ALLOWED_TUNNEL_TRAFFIC = TrafficNone"

definition start_tunnel ::
  "'w platform \<Rightarrow> tunnel_parameters \<Rightarrow> u32 \<Rightarrow> 'w tsm \<Rightarrow> connecting_state \<times> 'w tsm" where
  "start_tunnel pf params retry_attempt s =
     (\<lparr>cg_tunnel_parameters = params, cg_tunnel_metadata = None,
       cg_allowed_tunnel_traffic = INITIAL_ALLOWED_TUNNEL_TRAFFIC,
       cg_close_terminated = False, cg_retry_attempt = retry_attempt\<rparr>,
      s\<lparr>ts_world := pf_start_tunnel pf params retry_attempt (ts_world s)\<rparr>)"

definition connecting_enter :: "'w platform \<Rightarrow> u32 \<Rightarrow> 'w tsm \<Rightarrow> entered \<times> 'w tsm" where
  "connecting_enter pf retry_attempt s =
     (case availability (ts_connectivity s) of
        None \<Rightarrow> error_enter pf IsOffline s
      | Some ip_availability \<Rightarrow>
          (case on_world (pf_generate pf retry_attempt ip_availability) s of
             (Inl err, s) \<Rightarrow> error_enter pf (TunnelParameterError err) s
           | (Inr params, s) \<Rightarrow>
               (case connecting_set_firewall_policy pf params None TrafficNone s of
                  (Inl error, s) \<Rightarrow> error_enter pf (SetFirewallPolicyError error) s
                | (Inr ok, s) \<Rightarrow>
                    (case start_tunnel pf params retry_attempt s of
                       (st, s) \<Rightarrow>
                         ((ConnectingState st,
                           TransConnecting (get_tunnel_endpoint (cg_tunnel_parameters st))), s)))))"

section \<open>Disconnected state\<close>

definition disconnected_transition :: "'w tsm \<Rightarrow> entered" where
  "disconnected_transition s =
     (DisconnectedState, TransDisconnected (lockdown_bool (ts_lockdown_mode s)))"

definition disconnected_set_firewall_policy :: "'w platform \<Rightarrow> bool \<Rightarrow> 'w tsm \<Rightarrow> 'w tsm" where
  "disconnected_set_firewall_policy pf should_reset_firewall s =
     (if lockdown_bool (ts_lockdown_mode s) then
        snd (on_world
          (pf_apply_policy pf (PolicyBlocked (ts_allow_lan s) (Some (ts_allowed_endpoint s)))) s)
      else if should_reset_firewall then snd (on_world (pf_reset_policy pf) s)
      else s)"

definition disconnected_enter :: "'w platform \<Rightarrow> bool \<Rightarrow> 'w tsm \<Rightarrow> entered \<times> 'w tsm" where
  "disconnected_enter pf should_reset_firewall s =
     (let s = disconnected_set_firewall_policy pf should_reset_firewall s;
          s = reset_connectivity_check pf s
      in (disconnected_transition s, s))"

definition disconnected_reset_dns :: "'w platform \<Rightarrow> 'w tsm \<Rightarrow> 'w tsm" where
  "disconnected_reset_dns pf s = snd (on_world (pf_dns_reset pf) s)"

definition disconnected_handle_event ::
  "'w platform \<Rightarrow> tunnel_command option \<Rightarrow> 'w tsm \<Rightarrow> event_consequence \<times> 'w tsm" where
  "disconnected_handle_event pf command s =
     (case command of
        Some (CmdAllowLan allow_lan complete_tx) \<Rightarrow>
          (case set_allow_lan allow_lan s of
             (changed, s) \<Rightarrow>
               (SameState DisconnectedState, send_message (Completed complete_tx)
                 (if changed then disconnected_set_firewall_policy pf False s else s)))
      | Some (CmdAllowEndpoint endpoint tx) \<Rightarrow>
          (SameState DisconnectedState, send_message (Completed tx)
            (if ts_allowed_endpoint s \<noteq> endpoint
             then disconnected_set_firewall_policy pf False (s\<lparr>ts_allowed_endpoint := endpoint\<rparr>)
             else s))
      | Some (CmdDns servers complete_tx) \<Rightarrow>
          (SameState DisconnectedState,
           send_message (Completed complete_tx) (snd (set_dns_config servers s)))
      | Some (CmdLockdownMode lockdown_mode complete_tx) \<Rightarrow>
          (if \<not> lockdown_eq (ts_lockdown_mode s) lockdown_mode then
             (let s = s\<lparr>ts_lockdown_mode := lockdown_mode\<rparr>;
                  s = disconnected_set_firewall_policy pf True s;
                  s = send_message (Completed complete_tx) s
              in new_state (disconnected_transition s, s))
           else (SameState DisconnectedState, send_message (Completed complete_tx) s))
      | Some (CmdConnectivity connectivity) \<Rightarrow>
          (SameState DisconnectedState, s\<lparr>ts_connectivity := connectivity\<rparr>)
      | Some CmdConnect \<Rightarrow> new_state (connecting_enter pf 0 s)
      | Some (CmdBlock reason) \<Rightarrow> (SameState DisconnectedState, s)
      | None \<Rightarrow> (Finished, disconnected_reset_dns pf s)
      | Some CmdDisconnect \<Rightarrow> (SameState DisconnectedState, s))"

section \<open>Disconnecting state\<close>

definition disconnecting_enter :: "bool \<Rightarrow> after_disconnect \<Rightarrow> 'w tsm \<Rightarrow> entered \<times> 'w tsm" where
  "disconnecting_enter close_terminated after_disconnect s =
     (let s = send_message CloseTunnel s
      in ((DisconnectingState
             \<lparr>dg_close_terminated = close_terminated, dg_after_disconnect = after_disconnect\<rparr>,
           TransDisconnecting (after_action after_disconnect)), s))"

definition disconnecting_handle_commands ::
  "disconnecting_state \<Rightarrow> tunnel_command option \<Rightarrow> 'w tsm \<Rightarrow> event_consequence \<times> 'w tsm" where
  "disconnecting_handle_commands self command s =
     (let (self, s) =
        (case command of
           Some (CmdAllowLan allow_lan complete_tx) \<Rightarrow>
             (self, send_message (Completed complete_tx) (snd (set_allow_lan allow_lan s)))
         | Some (CmdAllowEndpoint endpoint tx) \<Rightarrow>
             (self, send_message (Completed tx) (s\<lparr>ts_allowed_endpoint := endpoint\<rparr>))
         | Some (CmdDns servers complete_tx) \<Rightarrow>
             (self, send_message (Completed complete_tx) (snd (set_dns_config servers s)))
         | Some (CmdLockdownMode lockdown_mode complete_tx) \<Rightarrow>
             (self, send_message (Completed complete_tx) (s\<lparr>ts_lockdown_mode := lockdown_mode\<rparr>))
         | Some (CmdConnectivity connectivity) \<Rightarrow>
             (self\<lparr>dg_after_disconnect :=
                (case dg_after_disconnect self of
                   AfterReconnect n \<Rightarrow>
                     (if is_offline connectivity then AfterBlock IsOffline else AfterReconnect n)
                 | AfterBlock IsOffline \<Rightarrow>
                     (if \<not> is_offline connectivity then AfterReconnect 0 else AfterBlock IsOffline)
                 | other \<Rightarrow> other)\<rparr>,
              s\<lparr>ts_connectivity := connectivity\<rparr>)
         | Some CmdConnect \<Rightarrow>
             (self\<lparr>dg_after_disconnect :=
                (case dg_after_disconnect self of
                   AfterReconnect retry_attempt \<Rightarrow> AfterReconnect retry_attempt
                 | _ \<Rightarrow> AfterReconnect 0)\<rparr>, s)
         | Some CmdDisconnect \<Rightarrow> (self\<lparr>dg_after_disconnect := AfterNothing\<rparr>, s)
         | Some (CmdBlock reason) \<Rightarrow>
             (self\<lparr>dg_after_disconnect :=
                (case dg_after_disconnect self of
                   AfterNothing \<Rightarrow> AfterNothing
                 | _ \<Rightarrow> AfterBlock reason)\<rparr>, s)
         | None \<Rightarrow>
             (case dg_after_disconnect self of
                AfterReconnect _ \<Rightarrow> (self\<lparr>dg_after_disconnect := AfterNothing\<rparr>, s)
              | _ \<Rightarrow> (self, s)))
      in (SameState (DisconnectingState self), s))"

definition disconnecting_after_disconnect ::
  "'w platform \<Rightarrow> disconnecting_state \<Rightarrow> error_state_cause option \<Rightarrow> 'w tsm \<Rightarrow> entered \<times> 'w tsm"
where
  "disconnecting_after_disconnect pf self block_reason s =
     (case block_reason of
        Some reason \<Rightarrow> error_enter pf reason s
      | None \<Rightarrow>
          (case dg_after_disconnect self of
             AfterNothing \<Rightarrow> disconnected_enter pf True s
           | AfterBlock cause \<Rightarrow> error_enter pf cause s
           | AfterReconnect retry_attempt \<Rightarrow> connecting_enter pf retry_attempt s))"

text \<open>
  Which event is handled: if the close event was taken before, the next command if there is one
  (\<^verbatim>\<open>try_next\<close>: \<open>None\<close> if the open channel is empty), and otherwise what \<^verbatim>\<open>select!\<close> gives.
\<close>

definition disconnecting_result ::
  "disconnecting_state \<Rightarrow> bool \<Rightarrow> tunnel_command option option \<Rightarrow> event_result \<Rightarrow> event_result" where
  "disconnecting_result self commands_done next_command selected =
     (if dg_close_terminated self then
        (if commands_done then EvClose (Inr None)
         else case next_command of
           Some command \<Rightarrow> EvCommand command
         | None \<Rightarrow> EvClose (Inr None))
      else selected)"

definition block_reason_of :: "(unit, error_state_cause option) result \<Rightarrow> error_state_cause option"
where
  "block_reason_of r = (case r of Inl _ \<Rightarrow> None | Inr reason \<Rightarrow> reason)"

text \<open>\<open>None\<close> is the panic of \<^verbatim>\<open>unreachable!\<close>.\<close>

definition disconnecting_handle_event ::
  "'w platform \<Rightarrow> disconnecting_state \<Rightarrow> event_result \<Rightarrow> 'w tsm \<Rightarrow>
    (event_consequence \<times> 'w tsm) option" where
  "disconnecting_handle_event pf self result s =
     (case result of
        EvCommand command \<Rightarrow> Some (disconnecting_handle_commands self command s)
      | EvClose result \<Rightarrow>
          Some (new_state (disconnecting_after_disconnect pf self (block_reason_of result) s))
      | EvEvent _ \<Rightarrow> None)"

section \<open>Connected state\<close>

definition resolve_dns :: "tunnel_metadata \<Rightarrow> 'w tsm \<Rightarrow> resolved_dns_config" where
  "resolve_dns md s = dns_resolve (ts_dns_config s) (gateways md)"

definition get_firewall_policy :: "connected_state \<Rightarrow> 'w tsm \<Rightarrow> firewall_policy" where
  "get_firewall_policy self s =
     PolicyConnected (peer_endpoints_of (cd_tunnel_parameters self)) (cd_metadata self)
       (ts_allow_lan s) (resolve_dns (cd_metadata self) s)"

definition connected_set_firewall_policy ::
  "'w platform \<Rightarrow> connected_state \<Rightarrow> 'w tsm \<Rightarrow> (firewall_policy_error, unit) result \<times> 'w tsm" where
  "connected_set_firewall_policy pf self s =
     (case on_world (pf_apply_policy pf (get_firewall_policy self s)) s of
        (True, s) \<Rightarrow> (Inr (), s)
      | (False, s) \<Rightarrow> (Inl FirewallGeneric, s))"

definition set_dns :: "'w platform \<Rightarrow> connected_state \<Rightarrow> 'w tsm \<Rightarrow> bool \<times> 'w tsm" where
  "set_dns pf self s =
     on_world (pf_dns_set pf (tm_interface (cd_metadata self)) (resolve_dns (cd_metadata self) s)) s"

definition connected_reset_dns :: "'w platform \<Rightarrow> 'w tsm \<Rightarrow> 'w tsm" where
  "connected_reset_dns pf s = snd (on_world (pf_dns_reset_before_interface_removal pf) s)"

definition reset_routes :: "'w platform \<Rightarrow> 'w tsm \<Rightarrow> 'w tsm" where
  "reset_routes pf s =
     (let s = snd (on_world (pf_clear_routes pf) s)
      in snd (on_world (pf_clear_routing_rules pf) s))"

definition connected_enter ::
  "'w platform \<Rightarrow> tunnel_metadata \<Rightarrow> tunnel_parameters \<Rightarrow> bool \<Rightarrow> 'w tsm \<Rightarrow> entered \<times> 'w tsm" where
  "connected_enter pf metadata params close_terminated s =
     (let self = \<lparr>cd_metadata = metadata, cd_tunnel_parameters = params,
            cd_close_terminated = close_terminated\<rparr>;
          tunnel_endpoint = (get_tunnel_endpoint params)
            \<lparr>te_tunnel_interface := Some (tm_interface metadata)\<rparr>
      in case connected_set_firewall_policy pf self s of
           (Inl error, s) \<Rightarrow>
             disconnecting_enter close_terminated (AfterBlock (SetFirewallPolicyError error)) s
         | (Inr ok, s) \<Rightarrow>
             (case set_dns pf self s of
                (False, s) \<Rightarrow> disconnecting_enter close_terminated (AfterBlock SetDnsError) s
              | (True, s) \<Rightarrow> ((ConnectedState self, TransConnected tunnel_endpoint), s)))"

definition connected_disconnect ::
  "'w platform \<Rightarrow> connected_state \<Rightarrow> after_disconnect \<Rightarrow> 'w tsm \<Rightarrow> event_consequence \<times> 'w tsm"
where
  "connected_disconnect pf self after_disconnect s =
     (let s = connected_reset_dns pf s;
          s = reset_routes pf s
      in new_state (disconnecting_enter (cd_close_terminated self) after_disconnect s))"

text \<open>
  The handler of a new DNS configuration returns early, without an answer, when the firewall
  cannot be updated.
\<close>

definition connected_handle_commands ::
  "'w platform \<Rightarrow> connected_state \<Rightarrow> tunnel_command option \<Rightarrow> 'w tsm \<Rightarrow>
    event_consequence \<times> 'w tsm" where
  "connected_handle_commands pf self command s =
     (case command of
        Some (CmdAllowLan allow_lan complete_tx) \<Rightarrow>
          (let (consequence, s) =
             (case set_allow_lan allow_lan s of
                (True, s) \<Rightarrow>
                  (case connected_set_firewall_policy pf self s of
                     (Inr ok, s) \<Rightarrow> (SameState (ConnectedState self), s)
                   | (Inl error, s) \<Rightarrow>
                       connected_disconnect pf self (AfterBlock (SetFirewallPolicyError error)) s)
              | (False, s) \<Rightarrow> (SameState (ConnectedState self), s))
           in (consequence, send_message (Completed complete_tx) s))
      | Some (CmdAllowEndpoint endpoint tx) \<Rightarrow>
          (SameState (ConnectedState self),
           send_message (Completed tx) (s\<lparr>ts_allowed_endpoint := endpoint\<rparr>))
      | Some (CmdDns servers complete_tx) \<Rightarrow>
          (case set_dns_config servers s of
             (False, s) \<Rightarrow>
               (SameState (ConnectedState self), send_message (Completed complete_tx) s)
           | (True, s) \<Rightarrow>
               (case connected_set_firewall_policy pf self s of
                  (Inl error, s) \<Rightarrow>
                    connected_disconnect pf self (AfterBlock (SetFirewallPolicyError error)) s
                | (Inr ok, s) \<Rightarrow>
                    (let (consequence, s) =
                       (case set_dns pf self s of
                          (True, s) \<Rightarrow> (SameState (ConnectedState self), s)
                        | (False, s) \<Rightarrow> connected_disconnect pf self (AfterBlock SetDnsError) s)
                     in (consequence, send_message (Completed complete_tx) s))))
      | Some (CmdLockdownMode lockdown_mode complete_tx) \<Rightarrow>
          (SameState (ConnectedState self),
           send_message (Completed complete_tx) (s\<lparr>ts_lockdown_mode := lockdown_mode\<rparr>))
      | Some (CmdConnectivity connectivity) \<Rightarrow>
          (let s = s\<lparr>ts_connectivity := connectivity\<rparr>
           in if is_offline connectivity
              then connected_disconnect pf self (AfterBlock IsOffline) s
              else (SameState (ConnectedState self), s))
      | Some CmdConnect \<Rightarrow> connected_disconnect pf self (AfterReconnect 0) s
      | Some CmdDisconnect \<Rightarrow> connected_disconnect pf self AfterNothing s
      | None \<Rightarrow> connected_disconnect pf self AfterNothing s
      | Some (CmdBlock reason) \<Rightarrow> connected_disconnect pf self (AfterBlock reason) s)"

definition connected_handle_tunnel_events ::
  "'w platform \<Rightarrow> connected_state \<Rightarrow> tunnel_event option \<Rightarrow> 'w tsm \<Rightarrow> event_consequence \<times> 'w tsm"
where
  "connected_handle_tunnel_events pf self event s =
     (case event of
        Some EvDown \<Rightarrow> connected_disconnect pf self (AfterReconnect 0) s
      | None \<Rightarrow> connected_disconnect pf self (AfterReconnect 0) s
      | Some _ \<Rightarrow> (SameState (ConnectedState self), s))"

definition connected_handle_tunnel_close_event ::
  "'w platform \<Rightarrow> connected_state \<Rightarrow> error_state_cause option \<Rightarrow> 'w tsm \<Rightarrow>
    event_consequence \<times> 'w tsm" where
  "connected_handle_tunnel_close_event pf self block_reason s =
     (case block_reason of
        Some block_reason \<Rightarrow>
          (let s = connected_reset_dns pf s;
               s = reset_routes pf s
           in new_state (error_enter pf block_reason s))
      | None \<Rightarrow>
          (let s = connected_reset_dns pf s;
               s = reset_routes pf s
           in new_state (connecting_enter pf 0 s)))"

definition connected_handle_event ::
  "'w platform \<Rightarrow> connected_state \<Rightarrow> event_result \<Rightarrow> 'w tsm \<Rightarrow> event_consequence \<times> 'w tsm" where
  "connected_handle_event pf self result s =
     (case result of
        EvCommand command \<Rightarrow> connected_handle_commands pf self command s
      | EvEvent event \<Rightarrow> connected_handle_tunnel_events pf self event s
      | EvClose result \<Rightarrow>
          connected_handle_tunnel_close_event pf (self\<lparr>cd_close_terminated := True\<rparr>)
            (block_reason_of result) s)"

section \<open>Connecting state: handlers\<close>

definition connecting_disconnect ::
  "'w platform \<Rightarrow> connecting_state \<Rightarrow> after_disconnect \<Rightarrow> 'w tsm \<Rightarrow> event_consequence \<times> 'w tsm"
where
  "connecting_disconnect pf self after_disconnect s =
     (let s = reset_routes pf s
      in new_state (disconnecting_enter (cg_close_terminated self) after_disconnect s))"

definition connecting_reset_firewall ::
  "'w platform \<Rightarrow> connecting_state \<Rightarrow> 'w tsm \<Rightarrow> event_consequence \<times> 'w tsm" where
  "connecting_reset_firewall pf self s =
     (case connecting_set_firewall_policy pf (cg_tunnel_parameters self) (cg_tunnel_metadata self)
             (cg_allowed_tunnel_traffic self) s of
        (Inr ok, s) \<Rightarrow> (SameState (ConnectingState self), s)
      | (Inl error, s) \<Rightarrow>
          connecting_disconnect pf self (AfterBlock (SetFirewallPolicyError error)) s)"

definition connecting_handle_commands ::
  "'w platform \<Rightarrow> connecting_state \<Rightarrow> tunnel_command option \<Rightarrow> 'w tsm \<Rightarrow>
    event_consequence \<times> 'w tsm" where
  "connecting_handle_commands pf self command s =
     (case command of
        Some (CmdAllowLan allow_lan complete_tx) \<Rightarrow>
          (let (consequence, s) =
             (case set_allow_lan allow_lan s of
                (True, s) \<Rightarrow> connecting_reset_firewall pf self s
              | (False, s) \<Rightarrow> (SameState (ConnectingState self), s))
           in (consequence, send_message (Completed complete_tx) s))
      | Some (CmdAllowEndpoint endpoint tx) \<Rightarrow>
          (if ts_allowed_endpoint s \<noteq> endpoint then
             (case connecting_set_firewall_policy pf (cg_tunnel_parameters self)
                     (cg_tunnel_metadata self) (cg_allowed_tunnel_traffic self)
                     (s\<lparr>ts_allowed_endpoint := endpoint\<rparr>) of
                (Inl error, s) \<Rightarrow>
                  connecting_disconnect pf self (AfterBlock (SetFirewallPolicyError error))
                    (send_message (Completed tx) s)
              | (Inr ok, s) \<Rightarrow>
                  (SameState (ConnectingState self), send_message (Completed tx) s))
           else (SameState (ConnectingState self), send_message (Completed tx) s))
      | Some (CmdDns servers complete_tx) \<Rightarrow>
          (SameState (ConnectingState self),
           send_message (Completed complete_tx) (snd (set_dns_config servers s)))
      | Some (CmdLockdownMode lockdown_mode complete_tx) \<Rightarrow>
          (SameState (ConnectingState self),
           send_message (Completed complete_tx) (s\<lparr>ts_lockdown_mode := lockdown_mode\<rparr>))
      | Some (CmdConnectivity connectivity) \<Rightarrow>
          (let s = s\<lparr>ts_connectivity := connectivity\<rparr>
           in if is_offline connectivity
              then connecting_disconnect pf self (AfterBlock IsOffline) s
              else (SameState (ConnectingState self), s))
      | Some CmdConnect \<Rightarrow> connecting_disconnect pf self (AfterReconnect 0) s
      | Some CmdDisconnect \<Rightarrow> connecting_disconnect pf self AfterNothing s
      | None \<Rightarrow> connecting_disconnect pf self AfterNothing s
      | Some (CmdBlock reason) \<Rightarrow> connecting_disconnect pf self (AfterBlock reason) s)"

definition connecting_handle_tunnel_events ::
  "'w platform \<Rightarrow> connecting_state \<Rightarrow> tunnel_event option \<Rightarrow> 'w tsm \<Rightarrow> event_consequence \<times> 'w tsm"
where
  "connecting_handle_tunnel_events pf self event s =
     (case event of
        Some (EvAuthFailed reason) \<Rightarrow>
          connecting_disconnect pf self (AfterBlock (AuthFailed reason)) s
      | Some (EvInterfaceUp metadata traffic) \<Rightarrow>
          (let self = self\<lparr>cg_allowed_tunnel_traffic := traffic,
                 cg_tunnel_metadata := Some metadata\<rparr>
           in case connecting_set_firewall_policy pf (cg_tunnel_parameters self)
                     (cg_tunnel_metadata self) (cg_allowed_tunnel_traffic self) s of
                (Inr ok, s) \<Rightarrow> (SameState (ConnectingState self), s)
              | (Inl error, s) \<Rightarrow>
                  connecting_disconnect pf self (AfterBlock (SetFirewallPolicyError error)) s)
      | Some (EvUp metadata) \<Rightarrow>
          new_state (connected_enter pf metadata (cg_tunnel_parameters self)
            (cg_close_terminated self) s)
      | Some EvDown \<Rightarrow>
          (SameState (ConnectingState (self
             \<lparr>cg_allowed_tunnel_traffic := INITIAL_ALLOWED_TUNNEL_TRAFFIC,
              cg_tunnel_metadata := None\<rparr>)), s)
      | None \<Rightarrow>
          (let retry_attempt = cg_retry_attempt self + 1
           in connecting_disconnect pf self (AfterReconnect retry_attempt) s))"

definition connecting_handle_tunnel_close_event ::
  "'w platform \<Rightarrow> connecting_state \<Rightarrow> error_state_cause option \<Rightarrow> 'w tsm \<Rightarrow>
    event_consequence \<times> 'w tsm" where
  "connecting_handle_tunnel_close_event pf self block_reason s =
     (case block_reason of
        Some block_reason \<Rightarrow>
          (let s = reset_routes pf s
           in new_state (error_enter pf block_reason s))
      | None \<Rightarrow>
          (let s = reset_routes pf s
           in new_state (connecting_enter pf (cg_retry_attempt self + 1) s)))"

definition connecting_handle_event ::
  "'w platform \<Rightarrow> connecting_state \<Rightarrow> event_result \<Rightarrow> 'w tsm \<Rightarrow> event_consequence \<times> 'w tsm" where
  "connecting_handle_event pf self result s =
     (case result of
        EvCommand command \<Rightarrow> connecting_handle_commands pf self command s
      | EvEvent event \<Rightarrow> connecting_handle_tunnel_events pf self event s
      | EvClose result \<Rightarrow>
          connecting_handle_tunnel_close_event pf (self\<lparr>cg_close_terminated := True\<rparr>)
            (block_reason_of result) s)"

section \<open>Error state: handler\<close>

definition error_handle_event ::
  "'w platform \<Rightarrow> error_state_cause \<Rightarrow> tunnel_command option \<Rightarrow> 'w tsm \<Rightarrow>
    event_consequence \<times> 'w tsm" where
  "error_handle_event pf self command s =
     (case command of
        Some (CmdAllowLan allow_lan complete_tx) \<Rightarrow>
          (case set_allow_lan allow_lan s of
             (changed, s) \<Rightarrow>
               (SameState (ErrorState self), send_message (Completed complete_tx)
                 (if changed then snd (error_set_firewall_policy pf s) else s)))
      | Some (CmdAllowEndpoint endpoint tx) \<Rightarrow>
          (SameState (ErrorState self), send_message (Completed tx)
            (if ts_allowed_endpoint s \<noteq> endpoint
             then snd (error_set_firewall_policy pf (s\<lparr>ts_allowed_endpoint := endpoint\<rparr>))
             else s))
      | Some (CmdDns servers complete_tx) \<Rightarrow>
          (case set_dns_config servers s of
             (changed, s) \<Rightarrow>
               (SameState (ErrorState self), send_message (Completed complete_tx)
                 (if changed then snd (error_set_firewall_policy pf s) else s)))
      | Some (CmdLockdownMode lockdown_mode complete_tx) \<Rightarrow>
          (SameState (ErrorState self),
           send_message (Completed complete_tx) (s\<lparr>ts_lockdown_mode := lockdown_mode\<rparr>))
      | Some (CmdConnectivity connectivity) \<Rightarrow>
          (let s = s\<lparr>ts_connectivity := connectivity\<rparr>
           in if \<not> is_offline connectivity \<and>
                (self = IsOffline \<or>
                 (case self of
                    TunnelParameterError (IpVersionUnavailable family) \<Rightarrow>
                      has_family connectivity family
                  | _ \<Rightarrow> False))
              then new_state (connecting_enter pf 0 (error_reset_dns pf s))
              else (SameState (ErrorState self), s))
      | Some CmdConnect \<Rightarrow> new_state (connecting_enter pf 0 (error_reset_dns pf s))
      | Some CmdDisconnect \<Rightarrow>
          (let s = reset_connectivity_check pf s;
               s = error_reset_dns pf s
           in new_state (disconnected_enter pf True s))
      | None \<Rightarrow>
          (let s = reset_connectivity_check pf s;
               s = error_reset_dns pf s
           in new_state (disconnected_enter pf True s))
      | Some (CmdBlock reason) \<Rightarrow> new_state (error_enter pf reason s))"

section \<open>The machine\<close>

text \<open>
  \<^verbatim>\<open>TunnelState::handle_event\<close>, for the event that the state's wait gives. \<open>None\<close> if the state
  does not wait for such an event, or panics on it.
\<close>

definition handle_event ::
  "'w platform \<Rightarrow> tunnel_state \<Rightarrow> event_result \<Rightarrow> 'w tsm \<Rightarrow> (event_consequence \<times> 'w tsm) option"
where
  "handle_event pf st result s =
     (case st of
        DisconnectedState \<Rightarrow>
          (case result of
             EvCommand command \<Rightarrow> Some (disconnected_handle_event pf command s) | _ \<Rightarrow> None)
      | ConnectingState self \<Rightarrow> Some (connecting_handle_event pf self result s)
      | ConnectedState self \<Rightarrow> Some (connected_handle_event pf self result s)
      | DisconnectingState self \<Rightarrow> disconnecting_handle_event pf self result s
      | ErrorState self \<Rightarrow>
          (case result of
             EvCommand command \<Rightarrow> Some (error_handle_event pf self command s) | _ \<Rightarrow> None))"

record initial_tunnel_state =
  is_allow_lan :: bool
  is_lockdown_mode :: lockdown_mode
  is_dns_config :: dns_config
  is_allowed_endpoint :: allowed_endpoint
  is_reset_firewall :: bool

text \<open>
  The queue of commands with the state of its channel (\<^verbatim>\<open>closed\<close>: every sender is gone) and of
  the \<^verbatim>\<open>Fuse\<close> around it (\<^verbatim>\<open>done\<close>: the end has been delivered once), the listener to
  transitions and what it has received.
\<close>

record 'w machine =
  mc_current_state :: "tunnel_state option"
  mc_commands :: "tunnel_command list"
  mc_closed :: bool
  mc_done :: bool
  mc_listening :: bool
  mc_running :: bool
  mc_transitions :: "tunnel_state_transition list"
  mc_tsm :: "'w tsm"

definition initial_firewall_arguments :: "initial_tunnel_state \<Rightarrow> u32 \<Rightarrow> firewall_arguments" where
  "initial_firewall_arguments settings fwmark =
     \<lparr>fa_initial_state =
        (if lockdown_bool (is_lockdown_mode settings) \<or> \<not> is_reset_firewall settings
         then InitialBlocked (is_allowed_endpoint settings) else InitialNone),
      fa_allow_lan = is_allow_lan settings,
      fa_fwmark = fwmark\<rparr>"

definition machine_new ::
  "'w platform \<Rightarrow> initial_tunnel_state \<Rightarrow> connectivity \<Rightarrow> 'w \<Rightarrow> 'w machine" where
  "machine_new pf settings connectivity w =
     (let s = \<lparr>ts_allow_lan = is_allow_lan settings,
            ts_lockdown_mode = is_lockdown_mode settings,
            ts_connectivity = connectivity,
            ts_dns_config = is_dns_config settings,
            ts_allowed_endpoint = is_allowed_endpoint settings,
            ts_connectivity_check_was_enabled = None,
            ts_sent = [], ts_world = w\<rparr>;
          ((initial_state, _), s) = disconnected_enter pf (is_reset_firewall settings) s
      in \<lparr>mc_current_state = Some initial_state, mc_commands = [], mc_closed = False,
          mc_done = False, mc_listening = True, mc_running = True, mc_transitions = [],
          mc_tsm = s\<rparr>)"

text \<open>\<^verbatim>\<open>commands.next()\<close>: \<open>None\<close> while there is nothing to deliver.\<close>

definition commands_next :: "'w machine \<Rightarrow> (tunnel_command option \<times> 'w machine) option" where
  "commands_next m =
     (if mc_done m then Some (None, m)
      else case mc_commands m of
        c # cs \<Rightarrow> Some (Some c, m\<lparr>mc_commands := cs\<rparr>)
      | [] \<Rightarrow> (if mc_closed m then Some (None, m\<lparr>mc_done := True\<rparr>) else None))"

text \<open>\<^verbatim>\<open>try_next\<close> on the channel itself, which does not tell the \<^verbatim>\<open>Fuse\<close>.\<close>

definition commands_try_next :: "'w machine \<Rightarrow> tunnel_command option option \<times> 'w machine" where
  "commands_try_next m =
     (case mc_commands m of
        c # cs \<Rightarrow> (Some (Some c), m\<lparr>mc_commands := cs\<rparr>)
      | [] \<Rightarrow> (if mc_closed m then Some None else None, m))"

text \<open>One pass of the loop of \<^verbatim>\<open>TunnelStateMachine::run\<close>, for the event it waited for.\<close>

definition run_once :: "'w platform \<Rightarrow> event_result \<Rightarrow> 'w machine \<Rightarrow> 'w machine option" where
  "run_once pf result m =
     (case mc_current_state m of
        None \<Rightarrow> None
      | Some st \<Rightarrow>
          (case handle_event pf st result (mc_tsm m) of
             None \<Rightarrow> None
           | Some (NewState st tr, s) \<Rightarrow>
               Some (m\<lparr>mc_current_state := Some st, mc_tsm := s,
                 mc_transitions := mc_transitions m @ (if mc_listening m then [tr] else []),
                 mc_running := mc_listening m\<rparr>)
           | Some (SameState st, s) \<Rightarrow> Some (m\<lparr>mc_current_state := Some st, mc_tsm := s\<rparr>)
           | Some (Finished, s) \<Rightarrow>
               Some (m\<lparr>mc_current_state := None, mc_tsm := s, mc_running := False\<rparr>)))"

text \<open>Which of its inputs a state waits for.\<close>

definition waits_for_commands :: "tunnel_state \<Rightarrow> bool \<Rightarrow> bool" where
  "waits_for_commands st commands_done =
     (case st of
        DisconnectedState \<Rightarrow> True
      | ErrorState _ \<Rightarrow> True
      | ConnectingState _ \<Rightarrow> \<not> commands_done
      | ConnectedState _ \<Rightarrow> \<not> commands_done
      | DisconnectingState self \<Rightarrow> \<not> dg_close_terminated self \<and> \<not> commands_done)"

definition waits_for_events :: "tunnel_state \<Rightarrow> bool" where
  "waits_for_events st = (case st of ConnectingState _ \<Rightarrow> True | ConnectedState _ \<Rightarrow> True | _ \<Rightarrow> False)"

definition waits_for_close :: "tunnel_state \<Rightarrow> bool" where
  "waits_for_close st =
     (case st of
        ConnectingState self \<Rightarrow> \<not> cg_close_terminated self
      | ConnectedState self \<Rightarrow> \<not> cd_close_terminated self
      | DisconnectingState self \<Rightarrow> \<not> dg_close_terminated self
      | _ \<Rightarrow> False)"

text \<open>
  One pass of the loop: a command is taken from the queue, or the tunnel reports an event or that
  it has closed.
\<close>

inductive loop_step :: "'w platform \<Rightarrow> 'w machine \<Rightarrow> 'w machine \<Rightarrow> bool" for pf where
  step_command:
    "mc_running m \<Longrightarrow> mc_current_state m = Some st \<Longrightarrow> waits_for_commands st (mc_done m) \<Longrightarrow>
     commands_next m = Some (c, m1) \<Longrightarrow> run_once pf (EvCommand c) m1 = Some m' \<Longrightarrow> loop_step pf m m'"
| step_event:
    "mc_running m \<Longrightarrow> mc_current_state m = Some st \<Longrightarrow> waits_for_events st \<Longrightarrow>
     run_once pf (EvEvent e) m = Some m' \<Longrightarrow> loop_step pf m m'"
| step_close:
    "mc_running m \<Longrightarrow> mc_current_state m = Some st \<Longrightarrow> waits_for_close st \<Longrightarrow>
     run_once pf (EvClose r) m = Some m' \<Longrightarrow> loop_step pf m m'"
| step_close_terminated:
    "mc_running m \<Longrightarrow> mc_current_state m = Some (DisconnectingState self) \<Longrightarrow>
     dg_close_terminated self \<Longrightarrow> commands_try_next m = (c, m1) \<Longrightarrow>
     run_once pf (disconnecting_result self (mc_done m) c r) (if mc_done m then m else m1) = Some m'
     \<Longrightarrow> loop_step pf m m'"

text \<open>
  The machine with its environment: another part of the program sends a command, drops its handle,
  or stops listening.
\<close>

inductive tsm_step :: "'w platform \<Rightarrow> 'w machine \<Rightarrow> 'w machine \<Rightarrow> bool" for pf where
  loop: "loop_step pf m m' \<Longrightarrow> tsm_step pf m m'"
| env_send: "\<not> mc_closed m \<Longrightarrow> tsm_step pf m (m\<lparr>mc_commands := mc_commands m @ [c]\<rparr>)"
| env_drop_handle: "tsm_step pf m (m\<lparr>mc_closed := True\<rparr>)"
| env_stop_listening: "tsm_step pf m (m\<lparr>mc_listening := False\<rparr>)"

inductive tsm_reachable :: "'w platform \<Rightarrow> 'w machine \<Rightarrow> bool" for pf where
  reachable_new: "tsm_reachable pf (machine_new pf settings connectivity w)"
| reachable_step: "tsm_reachable pf m \<Longrightarrow> tsm_step pf m m' \<Longrightarrow> tsm_reachable pf m'"

inductive_cases loop_stepE: "loop_step pf m m'"
inductive_cases tsm_stepE: "tsm_step pf m m'"

end
