(* ===== verification/Tunnel_Frames.thy ===== *)
theory Tunnel_Frames
  imports Tunnel_State_Machine
begin

text \<open>
  What the functions of the tunnel state machine leave alone, whatever the platform does: the
  settings, the messages sent, and what a state keeps of itself when it stays.
\<close>

section \<open>What the helpers leave alone\<close>

text \<open>The values that commands set, apart from the world and the messages.\<close>

definition settings ::
  "'w tsm \<Rightarrow> bool \<times> lockdown_mode \<times> connectivity \<times> dns_config \<times> allowed_endpoint" where
  "settings s = (ts_allow_lan s, ts_lockdown_mode s, ts_connectivity s, ts_dns_config s,
     ts_allowed_endpoint s)"

lemma on_world_eq: "on_world f s = (a, s') \<longleftrightarrow>
    (\<exists>w'. f (ts_world s) = (a, w') \<and> s' = s\<lparr>ts_world := w'\<rparr>)"
  by (auto simp: on_world_def split: prod.splits)

lemma on_world_snd: "snd (on_world f s) = s\<lparr>ts_world := snd (f (ts_world s))\<rparr>"
  by (auto simp: on_world_def split: prod.splits)

lemma settings_simps [simp]:
  "settings (s\<lparr>ts_world := w\<rparr>) = settings s"
  "settings (s\<lparr>ts_sent := ms\<rparr>) = settings s"
  "settings (s\<lparr>ts_connectivity_check_was_enabled := c\<rparr>) = settings s"
  "settings (send_message msg s) = settings s"
  by (simp_all add: settings_def send_message_def)

lemma send_message_simps [simp]:
  "ts_world (send_message msg s) = ts_world s"
  "ts_allow_lan (send_message msg s) = ts_allow_lan s"
  "ts_lockdown_mode (send_message msg s) = ts_lockdown_mode s"
  "ts_connectivity (send_message msg s) = ts_connectivity s"
  "ts_dns_config (send_message msg s) = ts_dns_config s"
  "ts_allowed_endpoint (send_message msg s) = ts_allowed_endpoint s"
  "ts_sent (send_message msg s) = ts_sent s @ [msg]"
  by (simp_all add: send_message_def)

lemma helper_settings [tsm_simps]:
  "settings (disable_connectivity_check pf s) = settings s"
  "settings (reset_connectivity_check pf s) = settings s"
  "settings (error_reset_dns pf s) = settings s"
  "settings (disconnected_reset_dns pf s) = settings s"
  "settings (connected_reset_dns pf s) = settings s"
  "settings (reset_routes pf s) = settings s"
  by (auto simp: disable_connectivity_check_def reset_connectivity_check_def error_reset_dns_def
      disconnected_reset_dns_def connected_reset_dns_def reset_routes_def on_world_def Let_def
      split: prod.splits bool.splits)

lemma helper_sent [tsm_simps]:
  "ts_sent (disable_connectivity_check pf s) = ts_sent s"
  "ts_sent (reset_connectivity_check pf s) = ts_sent s"
  "ts_sent (error_reset_dns pf s) = ts_sent s"
  "ts_sent (disconnected_reset_dns pf s) = ts_sent s"
  "ts_sent (connected_reset_dns pf s) = ts_sent s"
  "ts_sent (reset_routes pf s) = ts_sent s"
  by (auto simp: disable_connectivity_check_def reset_connectivity_check_def error_reset_dns_def
      disconnected_reset_dns_def connected_reset_dns_def reset_routes_def on_world_def Let_def
      split: prod.splits bool.splits)

lemma settings_fields:
  assumes "settings s' = settings s"
  shows "ts_allow_lan s' = ts_allow_lan s" "ts_lockdown_mode s' = ts_lockdown_mode s"
    "ts_connectivity s' = ts_connectivity s" "ts_dns_config s' = ts_dns_config s"
    "ts_allowed_endpoint s' = ts_allowed_endpoint s"
  using assms by (simp_all add: settings_def)

lemma policy_settings:
  assumes "settings s' = settings s"
  shows "get_firewall_policy c s' = get_firewall_policy c s"
    "connecting_policy params md tr s' = connecting_policy params md tr s"
  using settings_fields [OF assms]
  by (simp_all add: get_firewall_policy_def connecting_policy_def resolve_dns_def)

text \<open>The functions that apply a policy or set the DNS servers change the world only.\<close>

lemma connecting_set_frame:
  assumes "connecting_set_firewall_policy pf params md tr s = (r, s')"
  shows "settings s' = settings s" "ts_sent s' = ts_sent s"
  using assms by (auto simp: connecting_set_firewall_policy_def Let_def on_world_eq tsm_simps
      split: prod.splits bool.splits)

lemma connected_set_frame:
  assumes "connected_set_firewall_policy pf c s = (r, s')"
  shows "settings s' = settings s" "ts_sent s' = ts_sent s"
  using assms by (auto simp: connected_set_firewall_policy_def on_world_eq
      split: prod.splits bool.splits)

lemma error_set_frame:
  assumes "error_set_firewall_policy pf s = (r, s')"
  shows "settings s' = settings s" "ts_sent s' = ts_sent s"
  using assms by (auto simp: error_set_firewall_policy_def Let_def on_world_eq tsm_simps
      split: prod.splits bool.splits)

lemma error_set_frame_snd [tsm_simps]:
  "settings (snd (error_set_firewall_policy pf s)) = settings s"
  "ts_sent (snd (error_set_firewall_policy pf s)) = ts_sent s"
  using error_set_frame [of pf s "fst (error_set_firewall_policy pf s)"] by simp_all

lemma disconnected_set_frame [tsm_simps]:
  "settings (disconnected_set_firewall_policy pf b s) = settings s"
  "ts_sent (disconnected_set_firewall_policy pf b s) = ts_sent s"
  by (simp_all add: disconnected_set_firewall_policy_def on_world_snd)

lemma set_dns_frame:
  assumes "set_dns pf c s = (b, s')"
  shows "settings s' = settings s" "ts_sent s' = ts_sent s"
  using assms by (auto simp: set_dns_def on_world_eq)

section \<open>What a state keeps of itself\<close>

primrec consequence_state :: "event_consequence \<Rightarrow> tunnel_state option" where
  "consequence_state (NewState st tr) = Some st"
| "consequence_state (SameState st) = Some st"
| "consequence_state Finished = None"

text \<open>Every change of state goes through \<open>new_state\<close>; otherwise a state keeps what it reported.\<close>

lemma new_state_not_same [simp]:
  "new_state r \<noteq> (SameState st, s')"
  "connecting_disconnect pf c a s \<noteq> (SameState st, s')"
  "connected_disconnect pf c' a s \<noteq> (SameState st, s')"
  by (auto simp: new_state_def connecting_disconnect_def connected_disconnect_def Let_def
      split: prod.splits)

lemma connecting_same:
  assumes "connecting_handle_event pf c result s = (SameState st, s')"
  shows "\<exists>c'. st = ConnectingState c' \<and> cg_tunnel_parameters c' = cg_tunnel_parameters c"
proof -
  have reset: "\<exists>c'. st = ConnectingState c' \<and> cg_tunnel_parameters c' = cg_tunnel_parameters d"
    if "connecting_reset_firewall pf d s1 = (SameState st, s2)" for d s1 s2
    using that by (auto simp: connecting_reset_firewall_def split: prod.splits sum.splits)
  show ?thesis
    using assms reset
    by (fastforce simp: connecting_handle_event_def connecting_handle_commands_def Let_def
        connecting_handle_tunnel_events_def connecting_handle_tunnel_close_event_def
        split: event_result.splits option.splits tunnel_command.splits tunnel_event.splits
          prod.splits sum.splits bool.splits if_splits)
qed

lemma connected_same:
  assumes "connected_handle_event pf c result s = (SameState st, s')"
  shows "st = ConnectedState c"
  using assms
  by (auto simp: connected_handle_event_def connected_handle_commands_def Let_def
      connected_handle_tunnel_events_def connected_handle_tunnel_close_event_def
      split: event_result.splits option.splits tunnel_command.splits tunnel_event.splits
        prod.splits sum.splits bool.splits if_splits)

lemma error_same:
  assumes "error_handle_event pf c cmd s = (SameState st, s')"
  shows "st = ErrorState c"
  using assms
  by (auto simp: error_handle_event_def Let_def
      split: option.splits tunnel_command.splits prod.splits if_splits)

lemma disconnected_same:
  assumes "disconnected_handle_event pf cmd s = (SameState st, s')"
  shows "st = DisconnectedState \<and> lockdown_bool (ts_lockdown_mode s') = lockdown_bool (ts_lockdown_mode s)"
proof -
  have lockdown: "ts_lockdown_mode (disconnected_set_firewall_policy pf b s1) = ts_lockdown_mode s1"
    for b s1 using disconnected_set_frame(1) settings_fields(2) by blast
  show ?thesis
    using assms
    by (auto simp: disconnected_handle_event_def Let_def lockdown set_allow_lan_def set_dns_config_def
        split: option.splits tunnel_command.splits if_splits)
qed

lemma disconnecting_handle_commands_frame:
  "\<exists>d' s'. disconnecting_handle_commands d cmd s = (SameState (DisconnectingState d'), s') \<and>
     dg_close_terminated d' = dg_close_terminated d \<and> ts_world s' = ts_world s"
proof (cases cmd)
  case None
  then show ?thesis
    by (cases "dg_after_disconnect d") (simp_all add: disconnecting_handle_commands_def)
next
  case (Some k)
  then show ?thesis
    by (cases k) (simp_all add: disconnecting_handle_commands_def set_allow_lan_def set_dns_config_def)
qed

end
