(* ===== verification/Tunnel_Enforcement.thy ===== *)
theory Tunnel_Enforcement
  imports Tunnel_Frames
begin

text \<open>
  What the tunnel state machine makes of a firewall that keeps its contract. The locale
  \<open>tsm_platform\<close> is the contract: applying a policy that succeeds puts it in force, a failed
  application leaves the old policy or the new one, a reset removes the policy, and nothing
  else changes what is in force. The invariant of the machine and its preservation by every
  handler are proved in the locale, once for every platform.
\<close>

section \<open>The contract\<close>

locale tsm_platform =
  fixes pf :: "'w platform" and holds :: "'w \<Rightarrow> firewall_policy \<Rightarrow> bool"
  assumes apply_ok: "pf_apply_policy pf p w = (True, w') \<Longrightarrow> holds w' p"
    and apply_failed: "pf_apply_policy pf p w = (False, w') \<Longrightarrow> holds w' p \<or> holds w' = holds w"
    and reset_ok: "pf_reset_policy pf w = (True, w') \<Longrightarrow> \<not> holds w' p"
    and reset_failed: "pf_reset_policy pf w = (False, w') \<Longrightarrow>
          holds w' = (\<lambda>p. False) \<or> holds w' = holds w"
    and dns_set_frame: "holds (snd (pf_dns_set pf i d w)) = holds w"
    and dns_reset_frame: "holds (snd (pf_dns_reset pf w)) = holds w"
    and dns_remove_frame: "holds (snd (pf_dns_reset_before_interface_removal pf w)) = holds w"
    and generate_frame: "holds (snd (pf_generate pf n av w)) = holds w"
    and clear_routes_frame: "holds (snd (pf_clear_routes pf w)) = holds w"
    and clear_rules_frame: "holds (snd (pf_clear_routing_rules pf w)) = holds w"
    and nm_new_frame: "holds (snd (pf_nm_new pf w)) = holds w"
    and nm_disable_frame: "holds (snd (pf_nm_disable pf w)) = holds w"
    and nm_enable_frame: "holds (pf_nm_enable pf w) = holds w"
    and start_tunnel_frame: "holds (pf_start_tunnel pf params n w) = holds w"

section \<open>The invariant\<close>

text \<open>
  While connected the policy in force is the one of the current settings. While connecting it is
  the one of the current settings and relay for some tunnel, the one the state knows if it
  knows one (once the tunnel reports that it is going down, the state forgets the tunnel and
  the firewall still has it). While disconnecting, some policy is in force. The future that
  resolves when the tunnel closes is pending in all three.
\<close>

definition state_inv ::
  "('w \<Rightarrow> firewall_policy \<Rightarrow> bool) \<Rightarrow> tunnel_state \<Rightarrow> 'w tsm \<Rightarrow> bool" where
  "state_inv holds st s \<longleftrightarrow>
     (case st of
        ConnectedState c \<Rightarrow>
          \<not> cd_close_terminated c \<and> holds (ts_world s) (get_firewall_policy c s)
      | ConnectingState c \<Rightarrow>
          \<not> cg_close_terminated c \<and>
          (\<exists>md tr. holds (ts_world s) (connecting_policy (cg_tunnel_parameters c) md tr s) \<and>
             (cg_tunnel_metadata c = None \<or>
              md = cg_tunnel_metadata c \<and> tr = cg_allowed_tunnel_traffic c))
      | DisconnectingState d \<Rightarrow> \<not> dg_close_terminated d \<and> (\<exists>p. holds (ts_world s) p)
      | _ \<Rightarrow> True)"

definition filtered :: "('w \<Rightarrow> firewall_policy \<Rightarrow> bool) \<Rightarrow> 'w tsm \<Rightarrow> bool" where
  "filtered holds s \<longleftrightarrow> (\<exists>p. holds (ts_world s) p)"

text \<open>
  Filtering is given up only on the way into, or in, the disconnected state without lockdown mode.
\<close>

definition keeps_filter ::
  "('w \<Rightarrow> firewall_policy \<Rightarrow> bool) \<Rightarrow> 'w tsm \<Rightarrow> tunnel_state option \<Rightarrow> 'w tsm \<Rightarrow> bool" where
  "keeps_filter holds s st s' \<longleftrightarrow>
     (filtered holds s \<longrightarrow>
      st \<noteq> Some DisconnectedState \<or> lockdown_bool (ts_lockdown_mode s') \<longrightarrow> filtered holds s')"

text \<open>
  What a transition tells about the state it announces. The error state says whether traffic is
  blocked; the disconnected state says whether lockdown mode is on.
\<close>

definition report_inv ::
  "('w \<Rightarrow> firewall_policy \<Rightarrow> bool) \<Rightarrow> tunnel_state_transition \<Rightarrow> tunnel_state \<Rightarrow> 'w tsm \<Rightarrow> bool" where
  "report_inv holds tr st s =
     (case (tr, st) of
        (TransDisconnected locked_down, DisconnectedState) \<Rightarrow>
          locked_down = lockdown_bool (ts_lockdown_mode s)
      | (TransConnecting endpoint, ConnectingState c) \<Rightarrow>
          endpoint = get_tunnel_endpoint (cg_tunnel_parameters c)
      | (TransConnected endpoint, ConnectedState c) \<Rightarrow>
          endpoint = (get_tunnel_endpoint (cd_tunnel_parameters c))
            \<lparr>te_tunnel_interface := Some (tm_interface (cd_metadata c))\<rparr>
      | (TransDisconnecting _, DisconnectingState _) \<Rightarrow> True
      | (TransError info, ErrorState c) \<Rightarrow>
          es_cause info = c \<and> (is_blocking info \<longrightarrow> filtered holds s)
      | _ \<Rightarrow> False)"

definition step_ok ::
  "('w \<Rightarrow> firewall_policy \<Rightarrow> bool) \<Rightarrow> 'w tsm \<Rightarrow> event_consequence \<times> 'w tsm \<Rightarrow> bool" where
  "step_ok holds s r \<longleftrightarrow>
     (case fst r of
        NewState st tr \<Rightarrow> state_inv holds st (snd r) \<and> report_inv holds tr st (snd r)
      | SameState st \<Rightarrow> state_inv holds st (snd r)
      | Finished \<Rightarrow> True) \<and>
     keeps_filter holds s (consequence_state (fst r)) (snd r)"

lemma step_ok_simps:
  "step_ok holds s (NewState st tr, s') \<longleftrightarrow>
     state_inv holds st s' \<and> report_inv holds tr st s' \<and> keeps_filter holds s (Some st) s'"
  "step_ok holds s (SameState st, s') \<longleftrightarrow> state_inv holds st s' \<and> keeps_filter holds s (Some st) s'"
  "step_ok holds s (Finished, s') \<longleftrightarrow> keeps_filter holds s None s'"
  by (simp_all add: step_ok_def)

lemma state_inv_filtered:
  "state_inv holds st s \<Longrightarrow> st \<noteq> DisconnectedState \<Longrightarrow> (\<And>c. st \<noteq> ErrorState c) \<Longrightarrow> filtered holds s"
  by (cases st) (auto simp: state_inv_def filtered_def)

lemma state_inv_settings:
  assumes "holds (ts_world s') = holds (ts_world s)" and "settings s' = settings s"
  shows "state_inv holds st s' = state_inv holds st s" "filtered holds s' = filtered holds s"
  using assms(1) policy_settings [OF assms(2)]
  by (auto simp: state_inv_def filtered_def split: tunnel_state.splits)

lemma report_inv_settings:
  assumes "holds (ts_world s') = holds (ts_world s)" and "ts_lockdown_mode s' = ts_lockdown_mode s"
  shows "report_inv holds tr st s' = report_inv holds tr st s"
  using assms by (cases tr; cases st) (simp_all add: report_inv_def filtered_def)

lemma state_inv_trivial [simp]:
  "state_inv holds DisconnectedState s" "state_inv holds (ErrorState c) s"
  by (simp_all add: state_inv_def)

text \<open>
  The invariant of the machine. While it runs, the last transition it announced describes its
  state, and before the first announcement it is disconnected.
\<close>

definition machine_ok :: "('w \<Rightarrow> firewall_policy \<Rightarrow> bool) \<Rightarrow> 'w machine \<Rightarrow> bool" where
  "machine_ok holds m =
     (case mc_current_state m of
        None \<Rightarrow> \<not> mc_running m
      | Some st \<Rightarrow>
          state_inv holds st (mc_tsm m) \<and>
          (mc_running m \<longrightarrow>
             (if mc_transitions m = [] then st = DisconnectedState
              else report_inv holds (last (mc_transitions m)) st (mc_tsm m))))"

lemma machine_ok_env [simp]:
  "machine_ok holds (m\<lparr>mc_commands := cs\<rparr>) = machine_ok holds m"
  "machine_ok holds (m\<lparr>mc_closed := b\<rparr>) = machine_ok holds m"
  "machine_ok holds (m\<lparr>mc_done := b\<rparr>) = machine_ok holds m"
  "machine_ok holds (m\<lparr>mc_listening := b\<rparr>) = machine_ok holds m"
  by (simp_all add: machine_ok_def split: option.splits)

lemma commands_next_frame:
  assumes "commands_next m = Some (c, m1)"
  shows "mc_tsm m1 = mc_tsm m" "mc_current_state m1 = mc_current_state m"
    "mc_running m1 = mc_running m" "mc_transitions m1 = mc_transitions m"
    "mc_listening m1 = mc_listening m" "mc_closed m1 = mc_closed m"
    "machine_ok holds m1 = machine_ok holds m"
  using assms by (auto simp: commands_next_def split: if_splits list.splits)

lemma commands_try_next_frame:
  assumes "commands_try_next m = (c, m1)"
  shows "mc_tsm m1 = mc_tsm m" "mc_current_state m1 = mc_current_state m"
    "mc_running m1 = mc_running m" "machine_ok holds m1 = machine_ok holds m"
  using assms by (auto simp: commands_try_next_def split: list.splits)

context tsm_platform
begin

lemma helper_holds [tsm_simps]:
  "holds (ts_world (disable_connectivity_check pf s)) = holds (ts_world s)"
  "holds (ts_world (reset_connectivity_check pf s)) = holds (ts_world s)"
  "holds (ts_world (error_reset_dns pf s)) = holds (ts_world s)"
  "holds (ts_world (disconnected_reset_dns pf s)) = holds (ts_world s)"
  "holds (ts_world (connected_reset_dns pf s)) = holds (ts_world s)"
  "holds (ts_world (reset_routes pf s)) = holds (ts_world s)"
proof -
  note frames = nm_new_frame [of "ts_world s"] nm_enable_frame
  show "holds (ts_world (disable_connectivity_check pf s)) = holds (ts_world s)"
    using nm_new_frame [of "ts_world s"] nm_disable_frame [of "snd (pf_nm_new pf (ts_world s))"]
    by (auto simp: disable_connectivity_check_def on_world_def split: prod.splits bool.splits)
  show "holds (ts_world (reset_connectivity_check pf s)) = holds (ts_world s)"
    using nm_new_frame [of "ts_world s"] nm_enable_frame
    by (auto simp: reset_connectivity_check_def on_world_def Let_def
        split: prod.splits bool.splits)
  show "holds (ts_world (error_reset_dns pf s)) = holds (ts_world s)"
    "holds (ts_world (disconnected_reset_dns pf s)) = holds (ts_world s)"
    "holds (ts_world (connected_reset_dns pf s)) = holds (ts_world s)"
    "holds (ts_world (reset_routes pf s)) = holds (ts_world s)"
    by (simp_all add: error_reset_dns_def disconnected_reset_dns_def connected_reset_dns_def
        reset_routes_def on_world_snd dns_reset_frame dns_remove_frame clear_routes_frame
        clear_rules_frame Let_def)
qed

text \<open>What an attempt to apply a policy may leave.\<close>

lemma connecting_set_outcome:
  assumes "connecting_set_firewall_policy pf params md tr s = (r, s')"
  shows "settings s' = settings s" and "ts_sent s' = ts_sent s"
    and "r = Inr ok \<Longrightarrow> holds (ts_world s') (connecting_policy params md tr s')"
    and "holds (ts_world s') (connecting_policy params md tr s') \<or>
      holds (ts_world s') = holds (ts_world s)"
proof -
  let ?s = "disable_connectivity_check pf s"
  obtain b w where w: "pf_apply_policy pf (connecting_policy params md tr ?s) (ts_world ?s) = (b, w)"
    by (cases "pf_apply_policy pf (connecting_policy params md tr ?s) (ts_world ?s)")
  then have s': "s' = ?s\<lparr>ts_world := w\<rparr>" and r: "r = Inr ok \<Longrightarrow> b"
    using assms by (auto simp: connecting_set_firewall_policy_def on_world_def Let_def
        split: bool.splits)
  show settings: "settings s' = settings s" and "ts_sent s' = ts_sent s"
    by (simp_all add: s' tsm_simps)
  have policy: "connecting_policy params md tr s' = connecting_policy params md tr ?s"
    by (rule policy_settings) (simp add: s')
  show "r = Inr ok \<Longrightarrow> holds (ts_world s') (connecting_policy params md tr s')"
    using w r apply_ok by (simp add: s' policy [unfolded s'])
  show "holds (ts_world s') (connecting_policy params md tr s') \<or>
      holds (ts_world s') = holds (ts_world s)"
    using w apply_ok apply_failed [of _ "ts_world ?s" w]
    by (cases b) (auto simp: s' policy [unfolded s'] tsm_simps)
qed

lemma connected_set_outcome:
  assumes "connected_set_firewall_policy pf c s = (r, s')"
  shows "settings s' = settings s" and "ts_sent s' = ts_sent s"
    and "r = Inr ok \<Longrightarrow> holds (ts_world s') (get_firewall_policy c s')"
    and "holds (ts_world s') (get_firewall_policy c s') \<or> holds (ts_world s') = holds (ts_world s)"
proof -
  obtain b w where w: "pf_apply_policy pf (get_firewall_policy c s) (ts_world s) = (b, w)"
    by (cases "pf_apply_policy pf (get_firewall_policy c s) (ts_world s)")
  then have s': "s' = s\<lparr>ts_world := w\<rparr>" and r: "r = Inr ok \<Longrightarrow> b"
    using assms by (auto simp: connected_set_firewall_policy_def on_world_def split: bool.splits)
  show "settings s' = settings s" and "ts_sent s' = ts_sent s" by (simp_all add: s')
  have policy: "get_firewall_policy c s' = get_firewall_policy c s"
    by (rule policy_settings) (simp add: s')
  show "r = Inr ok \<Longrightarrow> holds (ts_world s') (get_firewall_policy c s')"
    using w r apply_ok by (simp add: s' policy [unfolded s'])
  show "holds (ts_world s') (get_firewall_policy c s') \<or> holds (ts_world s') = holds (ts_world s)"
    using w apply_ok apply_failed [of _ "ts_world s" w]
    by (cases b) (auto simp: s' policy [unfolded s'])
qed

lemma error_set_outcome:
  assumes "error_set_firewall_policy pf s = (r, s')"
  shows "settings s' = settings s" and "ts_sent s' = ts_sent s"
    and "r = Inr ok \<Longrightarrow> holds (ts_world s') (PolicyBlocked (ts_allow_lan s') (Some (ts_allowed_endpoint s')))"
    and "holds (ts_world s') (PolicyBlocked (ts_allow_lan s') (Some (ts_allowed_endpoint s'))) \<or>
      holds (ts_world s') = holds (ts_world s)"
proof -
  let ?s = "disable_connectivity_check pf s"
  let ?p = "PolicyBlocked (ts_allow_lan s) (Some (ts_allowed_endpoint s))"
  obtain b w where w: "pf_apply_policy pf ?p (ts_world ?s) = (b, w)"
    by (cases "pf_apply_policy pf ?p (ts_world ?s)")
  then have s': "s' = ?s\<lparr>ts_world := w\<rparr>" and r: "r = Inr ok \<Longrightarrow> b"
    using assms by (auto simp: error_set_firewall_policy_def on_world_def Let_def
        split: bool.splits)
  show settings: "settings s' = settings s" and "ts_sent s' = ts_sent s"
    by (simp_all add: s' tsm_simps)
  note fields = settings_fields [OF settings]
  show "r = Inr ok \<Longrightarrow> holds (ts_world s') (PolicyBlocked (ts_allow_lan s') (Some (ts_allowed_endpoint s')))"
    using w r apply_ok by (simp add: fields) (simp add: s')
  show "holds (ts_world s') (PolicyBlocked (ts_allow_lan s') (Some (ts_allowed_endpoint s'))) \<or>
      holds (ts_world s') = holds (ts_world s)"
    using w apply_ok apply_failed [of _ "ts_world ?s" w]
    by (cases b) (simp_all add: fields, auto simp: s' tsm_simps)
qed

lemma error_enter_outcome:
  assumes "error_enter pf cause s = ((st, tr), s')"
  obtains info where "st = ErrorState cause" and "tr = TransError info" and "es_cause info = cause"
    and "settings s' = settings s" and "ts_sent s' = ts_sent s"
    and "is_blocking info \<Longrightarrow>
      holds (ts_world s') (PolicyBlocked (ts_allow_lan s') (Some (ts_allowed_endpoint s')))"
    and "filtered holds s \<Longrightarrow> filtered holds s'"
proof -
  obtain r s1 where r: "error_set_firewall_policy pf s = (r, s1)"
    by (cases "error_set_firewall_policy pf s")
  note o = error_set_outcome [OF r]
  have s': "s' = s1" and st: "st = ErrorState cause"
    and tr: "tr = TransError \<lparr>es_cause = cause,
      es_block_failure = (case r of Inl e \<Rightarrow> Some e | Inr _ \<Rightarrow> None)\<rparr>"
    using assms r by (auto simp: error_enter_def)
  show thesis
  proof (rule that [OF st tr])
    show "filtered holds s \<Longrightarrow> filtered holds s'"
      using o(4) by (auto simp: s' filtered_def)
    show "is_blocking \<lparr>es_cause = cause,
        es_block_failure = (case r of Inl e \<Rightarrow> Some e | Inr _ \<Rightarrow> None)\<rparr> \<Longrightarrow>
      holds (ts_world s') (PolicyBlocked (ts_allow_lan s') (Some (ts_allowed_endpoint s')))"
      using o(3) by (auto simp: s' is_blocking_def split: sum.splits)
  qed (use o in \<open>simp_all add: s'\<close>)
qed

lemma error_enter_ok:
  "filtered holds s0 \<longrightarrow> filtered holds s \<Longrightarrow> step_ok holds s0 (new_state (error_enter pf cause s))"
proof -
  assume *: "filtered holds s0 \<longrightarrow> filtered holds s"
  obtain st tr s' where e: "error_enter pf cause s = ((st, tr), s')"
    by (metis surj_pair)
  from e show ?thesis
    by (rule error_enter_outcome) (use * e in \<open>auto simp: new_state_def step_ok_simps keeps_filter_def report_inv_def
      filtered_def [of holds s']\<close>)
qed

lemma connecting_enter_ok:
  assumes *: "filtered holds s0 \<longrightarrow> filtered holds s"
  shows "step_ok holds s0 (new_state (connecting_enter pf n s))"
proof (cases "availability (ts_connectivity s)")
  case None
  then show ?thesis using error_enter_ok [OF *] by (simp add: connecting_enter_def)
next
  case (Some av)
  obtain r w where g: "pf_generate pf n av (ts_world s) = (r, w)"
    by (cases "pf_generate pf n av (ts_world s)")
  let ?s = "s\<lparr>ts_world := w\<rparr>"
  have **: "filtered holds s0 \<longrightarrow> filtered holds ?s"
    using * generate_frame [of n av "ts_world s"] by (simp add: g filtered_def)
  show ?thesis
  proof (cases r)
    case (Inl e)
    then show ?thesis
      using error_enter_ok [OF **] by (simp add: connecting_enter_def Some on_world_def g)
  next
    case (Inr params)
    obtain q s1 where q: "connecting_set_firewall_policy pf params None TrafficNone ?s = (q, s1)"
      by (cases "connecting_set_firewall_policy pf params None TrafficNone ?s")
    note o = connecting_set_outcome [OF q]
    have f: "filtered holds s0 \<longrightarrow> filtered holds s1"
      using ** o(4) by (auto simp: filtered_def)
    show ?thesis
    proof (cases q)
      case (Inl e)
      then show ?thesis
        using error_enter_ok [OF f] Inr by (simp add: connecting_enter_def Some on_world_def g q)
    next
      case q': (Inr ok)
      have "holds (ts_world s1) (connecting_policy params None TrafficNone s1)"
        using o(3) q' by blast
      then have "\<exists>md tr. holds (ts_world s1) (connecting_policy params md tr (s1\<lparr>ts_world := w\<rparr>))" for w
        using policy_settings(2) [of "s1\<lparr>ts_world := w\<rparr>" s1] by (auto intro!: exI)
      then show ?thesis
        using Inr q' by (auto simp: connecting_enter_def Some on_world_def g q start_tunnel_def
            new_state_def step_ok_simps state_inv_def keeps_filter_def filtered_def
            report_inv_def start_tunnel_frame)
    qed
  qed
qed

lemma disconnected_set_filtered:
  "lockdown_bool (ts_lockdown_mode s) \<Longrightarrow> filtered holds s \<Longrightarrow>
     filtered holds (disconnected_set_firewall_policy pf b s)"
proof -
  assume lockdown: "lockdown_bool (ts_lockdown_mode s)" and f: "filtered holds s"
  let ?p = "PolicyBlocked (ts_allow_lan s) (Some (ts_allowed_endpoint s))"
  obtain ok w where "pf_apply_policy pf ?p (ts_world s) = (ok, w)"
    by (cases "pf_apply_policy pf ?p (ts_world s)")
  then show "filtered holds (disconnected_set_firewall_policy pf b s)"
    using lockdown f apply_ok [of ?p "ts_world s" w] apply_failed [of ?p "ts_world s" w]
    by (cases ok) (auto simp: disconnected_set_firewall_policy_def on_world_def filtered_def)
qed

lemma disconnected_enter_ok:
  assumes "filtered holds s0 \<longrightarrow> filtered holds s"
  shows "step_ok holds s0 (new_state (disconnected_enter pf b s))"
proof -
  let ?s = "disconnected_set_firewall_policy pf b s"
  have "filtered holds (reset_connectivity_check pf ?s) = filtered holds ?s"
    by (simp add: filtered_def tsm_simps)
  moreover have "ts_lockdown_mode (reset_connectivity_check pf ?s) = ts_lockdown_mode s"
    using settings_fields(2) [of "reset_connectivity_check pf ?s" s]
    by (simp add: tsm_simps)
  ultimately show ?thesis
    using assms disconnected_set_filtered [of s b]
    by (auto simp: disconnected_enter_def disconnected_transition_def new_state_def step_ok_simps
        keeps_filter_def report_inv_def Let_def)
qed

lemma disconnecting_enter_ok:
  assumes "filtered holds s"
  shows "step_ok holds s0 (new_state (disconnecting_enter False after s))"
  using assms by (auto simp: disconnecting_enter_def new_state_def step_ok_simps state_inv_def
      filtered_def keeps_filter_def report_inv_def Let_def)

lemma set_dns_outcome:
  assumes "set_dns pf c s = (b, s')"
  shows "settings s' = settings s" and "ts_sent s' = ts_sent s"
    and "holds (ts_world s') = holds (ts_world s)"
  using assms dns_set_frame [of "tm_interface (cd_metadata c)" "resolve_dns (cd_metadata c) s" "ts_world s"]
  by (auto simp: set_dns_def on_world_eq)

lemma connected_enter_ok:
  assumes f: "filtered holds s"
  shows "step_ok holds s0 (new_state (connected_enter pf md params False s))"
proof -
  let ?c = "\<lparr>cd_metadata = md, cd_tunnel_parameters = params, cd_close_terminated = False\<rparr>"
  obtain r s1 where r: "connected_set_firewall_policy pf ?c s = (r, s1)"
    by (cases "connected_set_firewall_policy pf ?c s")
  note o = connected_set_outcome [OF r]
  have f1: "filtered holds s1" using f o(4) by (auto simp: filtered_def)
  obtain b s2 where b: "set_dns pf ?c s1 = (b, s2)" by (cases "set_dns pf ?c s1")
  note d = set_dns_outcome [OF b]
  have f2: "filtered holds s2" using f1 d(3) by (simp add: filtered_def)
  consider e where "r = Inl e" | ok where "r = Inr ok" "\<not> b" | ok where "r = Inr ok" "b"
    by (cases r) auto
  then show ?thesis
  proof cases
    case 1
    then show ?thesis
      using disconnecting_enter_ok [OF f1] r by (simp add: connected_enter_def Let_def)
  next
    case 2
    then show ?thesis
      using disconnecting_enter_ok [OF f2] r b by (simp add: connected_enter_def Let_def)
  next
    case 3
    then have "holds (ts_world s2) (get_firewall_policy ?c s2)"
      using o(3) d(3) policy_settings(1) [OF d(1)] by auto
    then show ?thesis
      using 3 r b f2 by (simp add: connected_enter_def Let_def new_state_def step_ok_simps
          state_inv_def keeps_filter_def report_inv_def)
  qed
qed

lemma connected_disconnect_ok:
  assumes "filtered holds s" and "\<not> cd_close_terminated c"
  shows "step_ok holds s0 (connected_disconnect pf c after s)"
proof -
  have "filtered holds (reset_routes pf (connected_reset_dns pf s))"
    using assms(1) by (simp add: filtered_def tsm_simps)
  then show ?thesis
    using disconnecting_enter_ok assms(2) by (simp add: connected_disconnect_def Let_def)
qed

lemma connecting_disconnect_ok:
  assumes "filtered holds s" and "\<not> cg_close_terminated c"
  shows "step_ok holds s0 (connecting_disconnect pf c after s)"
proof -
  have "filtered holds (reset_routes pf s)"
    using assms(1) by (simp add: filtered_def tsm_simps)
  then show ?thesis
    using disconnecting_enter_ok assms(2) by (simp add: connecting_disconnect_def Let_def)
qed

text \<open>A step that only sends a message, or sets values that the policies do not mention.\<close>

lemma step_ok_send: "step_ok holds s0 (c, send_message msg s) = step_ok holds s0 (c, s)"
proof -
  have "state_inv holds st (send_message msg s) = state_inv holds st s"
    and "filtered holds (send_message msg s) = filtered holds s"
    and "report_inv holds tr st (send_message msg s) = report_inv holds tr st s" for st tr
    by (rule state_inv_settings report_inv_settings; simp)+
  then show ?thesis
    by (auto simp: step_ok_def keeps_filter_def split: event_consequence.splits)
qed

lemma step_ok_same:
  assumes "state_inv holds st s" and "filtered holds s"
  shows "step_ok holds s0 (SameState st, s)"
  using assms by (simp add: step_ok_simps keeps_filter_def)

text \<open>The setters, by what they change.\<close>

lemma settings_update_holds [simp]:
  "state_inv holds (ConnectingState c) (s\<lparr>ts_dns_config := d\<rparr>) = state_inv holds (ConnectingState c) s"
  "state_inv holds st (s\<lparr>ts_lockdown_mode := m\<rparr>) = state_inv holds st s"
  "state_inv holds st (s\<lparr>ts_connectivity := k\<rparr>) = state_inv holds st s"
  "state_inv holds (ConnectedState d') (s\<lparr>ts_allowed_endpoint := e\<rparr>) = state_inv holds (ConnectedState d') s"
  "filtered holds (s\<lparr>ts_dns_config := d\<rparr>) = filtered holds s"
  "filtered holds (s\<lparr>ts_lockdown_mode := m\<rparr>) = filtered holds s"
  "filtered holds (s\<lparr>ts_connectivity := k\<rparr>) = filtered holds s"
  "filtered holds (s\<lparr>ts_allowed_endpoint := e\<rparr>) = filtered holds s"
  "filtered holds (s\<lparr>ts_allow_lan := b\<rparr>) = filtered holds s"
  "filtered holds (send_message msg s) = filtered holds s"
  by (auto simp: state_inv_def filtered_def connecting_policy_def get_firewall_policy_def
      resolve_dns_def split: tunnel_state.splits)

section \<open>The handlers keep the invariant\<close>

lemma connecting_reset_firewall_ok:
  assumes "filtered holds s" and "\<not> cg_close_terminated c"
  shows "step_ok holds s0 (connecting_reset_firewall pf c s)"
proof -
  obtain r s1 where r: "connecting_set_firewall_policy pf (cg_tunnel_parameters c)
      (cg_tunnel_metadata c) (cg_allowed_tunnel_traffic c) s = (r, s1)"
    by (metis surj_pair)
  note o = connecting_set_outcome [OF r]
  have f: "filtered holds s1" using assms(1) o(4) by (auto simp: filtered_def)
  show ?thesis
  proof (cases r)
    case (Inl e)
    then show ?thesis
      using connecting_disconnect_ok [OF f assms(2)] r by (simp add: connecting_reset_firewall_def)
  next
    case (Inr ok)
    then have "state_inv holds (ConnectingState c) s1"
      using o(3) assms(2) by (auto simp: state_inv_def)
    then show ?thesis
      using Inr r f step_ok_same by (simp add: connecting_reset_firewall_def)
  qed
qed

lemma connecting_handle_commands_ok:
  assumes inv: "state_inv holds (ConnectingState c) s"
  shows "step_ok holds s (connecting_handle_commands pf c cmd s)"
proof -
  have open': "\<not> cg_close_terminated c" and f: "filtered holds s"
    using inv state_inv_filtered [OF inv] by (simp_all add: state_inv_def)
  note disconnect = connecting_disconnect_ok [OF _ open']
  show ?thesis
  proof (cases cmd)
    case None
    then show ?thesis using disconnect [OF f] by (simp add: connecting_handle_commands_def)
  next
    case (Some k)
    show ?thesis
    proof (cases k)
      case (CmdAllowLan b tx)
      obtain cq s1 where "connecting_reset_firewall pf c (s\<lparr>ts_allow_lan := b\<rparr>) = (cq, s1)"
        by (metis surj_pair)
      then show ?thesis
        using connecting_reset_firewall_ok [of "s\<lparr>ts_allow_lan := b\<rparr>" c s] open' f inv Some CmdAllowLan
        by (simp add: connecting_handle_commands_def set_allow_lan_def step_ok_send step_ok_same)
    next
      case (CmdAllowEndpoint e tx)
      let ?s = "s\<lparr>ts_allowed_endpoint := e\<rparr>"
      obtain r s1 where r: "connecting_set_firewall_policy pf (cg_tunnel_parameters c)
          (cg_tunnel_metadata c) (cg_allowed_tunnel_traffic c) ?s = (r, s1)"
        by (metis surj_pair)
      note o = connecting_set_outcome [OF r]
      have f1: "filtered holds s1" using f o(4) by (auto simp: filtered_def)
      show ?thesis
      proof (cases r)
        case (Inl err)
        then show ?thesis
          using Some CmdAllowEndpoint r f1 disconnect [of "send_message (Completed tx) s1" s] inv f
          by (simp add: connecting_handle_commands_def step_ok_send step_ok_same)
      next
        case (Inr ok)
        then have "state_inv holds (ConnectingState c) s1"
          using o(3) open' by (auto simp: state_inv_def)
        then show ?thesis
          using Inr Some CmdAllowEndpoint r f1 inv f
          by (simp add: connecting_handle_commands_def step_ok_send step_ok_same)
      qed
    qed (use f inv disconnect Some in \<open>auto simp: connecting_handle_commands_def step_ok_send
        step_ok_same set_dns_config_def Let_def\<close>)
  qed
qed

lemma connecting_handle_tunnel_events_ok:
  assumes inv: "state_inv holds (ConnectingState c) s"
  shows "step_ok holds s (connecting_handle_tunnel_events pf c ev s)"
proof -
  have open': "\<not> cg_close_terminated c" and f: "filtered holds s"
    using inv state_inv_filtered [OF inv] by (simp_all add: state_inv_def)
  note disconnect = connecting_disconnect_ok [OF f open']
  show ?thesis
  proof (cases ev)
    case None
    then show ?thesis using disconnect by (simp add: connecting_handle_tunnel_events_def Let_def)
  next
    case (Some k)
    show ?thesis
    proof (cases k)
      case (EvInterfaceUp md traffic)
      let ?c = "c\<lparr>cg_allowed_tunnel_traffic := traffic, cg_tunnel_metadata := Some md\<rparr>"
      have "connecting_handle_tunnel_events pf c ev s = connecting_reset_firewall pf ?c s"
        by (simp add: Some EvInterfaceUp connecting_handle_tunnel_events_def
            connecting_reset_firewall_def Let_def)
      then show ?thesis using connecting_reset_firewall_ok [OF f, of ?c] open' by simp
    next
      case EvDown
      have "state_inv holds (ConnectingState
          (c\<lparr>cg_allowed_tunnel_traffic := INITIAL_ALLOWED_TUNNEL_TRAFFIC, cg_tunnel_metadata := None\<rparr>)) s"
        using inv by (auto simp: state_inv_def)
      then show ?thesis
        using f Some EvDown by (simp add: connecting_handle_tunnel_events_def step_ok_same)
    qed (use disconnect connected_enter_ok [OF f] open' Some in
        \<open>simp_all add: connecting_handle_tunnel_events_def\<close>)
  qed
qed

lemma connecting_handle_tunnel_close_event_ok:
  "step_ok holds s (connecting_handle_tunnel_close_event pf c reason s)"
proof -
  have "filtered holds s \<longrightarrow> filtered holds (reset_routes pf s)"
    by (simp add: filtered_def tsm_simps)
  then show ?thesis
    using error_enter_ok connecting_enter_ok
    by (simp add: connecting_handle_tunnel_close_event_def Let_def split: option.splits)
qed

lemma connecting_handle_event_ok:
  assumes "state_inv holds (ConnectingState c) s"
  shows "step_ok holds s (connecting_handle_event pf c result s)"
  using connecting_handle_commands_ok [OF assms] connecting_handle_tunnel_events_ok [OF assms]
    connecting_handle_tunnel_close_event_ok
  by (simp add: connecting_handle_event_def split: event_result.splits)

lemma connected_set_cases:
  assumes f: "filtered holds s" and open': "\<not> cd_close_terminated c"
  obtains (failed) err s1 where "connected_set_firewall_policy pf c s = (Inl err, s1)"
      and "filtered holds s1" and "ts_sent s1 = ts_sent s"
  | (applied) ok s1 where "connected_set_firewall_policy pf c s = (Inr ok, s1)"
      and "filtered holds s1" and "ts_sent s1 = ts_sent s" and "state_inv holds (ConnectedState c) s1"
proof -
  obtain r s1 where r: "connected_set_firewall_policy pf c s = (r, s1)" by (metis surj_pair)
  note o = connected_set_outcome [OF r]
  have f1: "filtered holds s1" using f o(4) by (auto simp: filtered_def)
  show thesis
  proof (cases r)
    case (Inl e)
    with r f1 o(2) show thesis using failed by blast
  next
    case (Inr ok)
    then have "state_inv holds (ConnectedState c) s1" using o(3) open' by (auto simp: state_inv_def)
    with r Inr f1 o(2) show thesis using applied by blast
  qed
qed

lemma connected_handle_dns_ok:
  assumes f: "filtered holds s" and open': "\<not> cd_close_terminated c"
    and changed: "ts_dns_config s \<noteq> d"
  shows "step_ok holds s (connected_handle_commands pf c (Some (CmdDns d tx)) s)"
proof -
  let ?s = "s\<lparr>ts_dns_config := d\<rparr>"
  note disconnect = connected_disconnect_ok [OF _ open']
  from f have "filtered holds ?s" by simp
  then show ?thesis using open'
  proof (cases rule: connected_set_cases)
    case (failed err s1)
    then show ?thesis
      using changed disconnect [of s1] by (simp add: connected_handle_commands_def set_dns_config_def)
  next
    case (applied ok s1)
    obtain b s2 where b: "set_dns pf c s1 = (b, s2)" by (metis surj_pair)
    note d = set_dns_outcome [OF b]
    have f2: "filtered holds s2" using applied d(3) by (simp add: filtered_def)
    have inv2: "state_inv holds (ConnectedState c) s2"
      using applied state_inv_settings(1) [where holds = holds and st = "ConnectedState c", OF d(3) d(1)]
      by simp
    obtain cq s3 where cq: "connected_disconnect pf c (AfterBlock SetDnsError) s2 = (cq, s3)"
      by (metis surj_pair)
    show ?thesis
      using changed applied b f2 inv2 disconnect [OF f2, of s "AfterBlock SetDnsError"]
      by (cases b) (simp_all add: connected_handle_commands_def set_dns_config_def cq step_ok_send
          step_ok_same)
  qed
qed

lemma connected_handle_commands_ok:
  assumes inv: "state_inv holds (ConnectedState c) s"
  shows "step_ok holds s (connected_handle_commands pf c cmd s)"
proof -
  have open': "\<not> cd_close_terminated c" and f: "filtered holds s"
    using inv state_inv_filtered [OF inv] by (simp_all add: state_inv_def)
  note disconnect = connected_disconnect_ok [OF _ open']
  show ?thesis
  proof (cases cmd)
    case None
    then show ?thesis using disconnect [OF f] by (simp add: connected_handle_commands_def)
  next
    case (Some k)
    show ?thesis
    proof (cases k)
      case (CmdAllowLan b tx)
      from f have "filtered holds (s\<lparr>ts_allow_lan := b\<rparr>)" by simp
      then show ?thesis using open'
      proof (cases rule: connected_set_cases)
        case (failed err s1)
        obtain cq s2 where cq: "connected_disconnect pf c (AfterBlock (SetFirewallPolicyError err)) s1 = (cq, s2)"
          by (metis surj_pair)
        show ?thesis
          using Some CmdAllowLan failed cq inv f disconnect [of s1 s "AfterBlock (SetFirewallPolicyError err)"]
          by (simp add: connected_handle_commands_def set_allow_lan_def step_ok_send step_ok_same)
      next
        case (applied ok s1)
        then show ?thesis
          using Some CmdAllowLan inv f
          by (simp add: connected_handle_commands_def set_allow_lan_def step_ok_send step_ok_same)
      qed
    next
      case (CmdDns d tx)
      then show ?thesis
        using Some inv f open' connected_handle_dns_ok [of s c d tx]
        by (cases "ts_dns_config s = d")
          (simp_all add: connected_handle_commands_def set_dns_config_def step_ok_send step_ok_same)
    qed (use f inv disconnect Some in \<open>auto simp: connected_handle_commands_def step_ok_send
        step_ok_same Let_def\<close>)
  qed
qed

lemma connected_handle_tunnel_events_ok:
  assumes inv: "state_inv holds (ConnectedState c) s"
  shows "step_ok holds s (connected_handle_tunnel_events pf c ev s)"
proof -
  have "\<not> cd_close_terminated c" and f: "filtered holds s"
    using inv state_inv_filtered [OF inv] by (simp_all add: state_inv_def)
  then show ?thesis
    using connected_disconnect_ok inv step_ok_same
    by (auto simp: connected_handle_tunnel_events_def split: option.splits tunnel_event.splits)
qed

lemma connected_handle_tunnel_close_event_ok:
  "step_ok holds s (connected_handle_tunnel_close_event pf c reason s)"
proof -
  have "filtered holds s \<longrightarrow> filtered holds (reset_routes pf (connected_reset_dns pf s))"
    by (simp add: filtered_def tsm_simps)
  then show ?thesis
    using error_enter_ok connecting_enter_ok
    by (simp add: connected_handle_tunnel_close_event_def Let_def split: option.splits)
qed

lemma connected_handle_event_ok:
  assumes "state_inv holds (ConnectedState c) s"
  shows "step_ok holds s (connected_handle_event pf c result s)"
  using connected_handle_commands_ok [OF assms] connected_handle_tunnel_events_ok [OF assms]
    connected_handle_tunnel_close_event_ok
  by (simp add: connected_handle_event_def split: event_result.splits)

lemma disconnecting_handle_commands_ok:
  assumes inv: "state_inv holds (DisconnectingState d) s"
  shows "step_ok holds s (disconnecting_handle_commands d cmd s)"
proof -
  have f: "filtered holds s" using state_inv_filtered [OF inv] by simp
  obtain d' s' where r: "disconnecting_handle_commands d cmd s = (SameState (DisconnectingState d'), s')"
    and d': "dg_close_terminated d' = dg_close_terminated d" and s': "ts_world s' = ts_world s"
    using disconnecting_handle_commands_frame by blast
  have "state_inv holds (DisconnectingState d') s'" and "filtered holds s'"
    using inv f d' s' by (simp_all add: state_inv_def filtered_def)
  then show ?thesis by (simp add: r step_ok_same)
qed

lemma disconnecting_handle_event_ok:
  assumes inv: "state_inv holds (DisconnectingState d) s"
    and "disconnecting_handle_event pf d result s = Some r"
  shows "step_ok holds s r"
  using assms(2) disconnecting_handle_commands_ok [OF inv] error_enter_ok [of s s]
    connecting_enter_ok [of s s] disconnected_enter_ok [of s s]
  by (auto simp: disconnecting_handle_event_def disconnecting_after_disconnect_def
      split: event_result.splits option.splits after_disconnect.splits)

lemma error_set_filtered:
  "filtered holds s \<Longrightarrow> filtered holds (snd (error_set_firewall_policy pf s))"
  using error_set_outcome(4) [of s "fst (error_set_firewall_policy pf s)"
      "snd (error_set_firewall_policy pf s)"]
  by (auto simp: filtered_def)

lemma error_handle_event_ok: "step_ok holds s (error_handle_event pf cause cmd s)"
proof -
  have same: "step_ok holds s (SameState (ErrorState cause), s')"
    if "filtered holds s \<longrightarrow> filtered holds s'" for s'
    using that by (simp add: step_ok_simps keeps_filter_def)
  have dns: "filtered holds (error_reset_dns pf s') = filtered holds s'"
    and check: "filtered holds (reset_connectivity_check pf s') = filtered holds s'" for s'
    by (simp_all add: filtered_def tsm_simps)
  note enter = error_enter_ok connecting_enter_ok disconnected_enter_ok
  show ?thesis
    by (auto simp: error_handle_event_def Let_def step_ok_send set_allow_lan_def set_dns_config_def
        dns check error_set_filtered intro!: same enter
        split: option.splits tunnel_command.splits)
qed

lemma disconnected_handle_event_ok: "step_ok holds s (disconnected_handle_event pf cmd s)"
proof -
  have same: "step_ok holds s (SameState DisconnectedState, s')"
    if "lockdown_bool (ts_lockdown_mode s') \<longrightarrow> filtered holds s \<longrightarrow> filtered holds s'" for s'
    using that by (auto simp: step_ok_simps keeps_filter_def)
  have lockdown: "ts_lockdown_mode (disconnected_set_firewall_policy pf b s') = ts_lockdown_mode s'"
    for b s' using disconnected_set_frame(1) settings_fields(2) by blast
  have dns: "filtered holds (disconnected_reset_dns pf s) = filtered holds s"
    by (simp add: filtered_def tsm_simps)
  have transition: "step_ok holds s (new_state (disconnected_transition s', s'))"
    if "lockdown_bool (ts_lockdown_mode s') \<longrightarrow> filtered holds s \<longrightarrow> filtered holds s'" for s'
    using that by (auto simp: new_state_def disconnected_transition_def step_ok_simps
        keeps_filter_def report_inv_def)
  show ?thesis
    by (auto simp: disconnected_handle_event_def Let_def step_ok_send set_allow_lan_def
        set_dns_config_def dns lockdown disconnected_set_filtered step_ok_simps(3)
        keeps_filter_def intro!: same transition connecting_enter_ok
        split: option.splits tunnel_command.splits)
qed

theorem handle_event_ok:
  assumes "state_inv holds st s" and "handle_event pf st result s = Some r"
  shows "step_ok holds s r"
proof (cases st)
  case DisconnectedState
  then show ?thesis
    using assms disconnected_handle_event_ok by (auto simp: handle_event_def split: event_result.splits)
next
  case (ErrorState c)
  then show ?thesis
    using assms error_handle_event_ok by (auto simp: handle_event_def split: event_result.splits)
next
  case (ConnectingState c)
  then show ?thesis
    using assms connecting_handle_event_ok [of c s result] by (auto simp: handle_event_def)
next
  case (ConnectedState c)
  then show ?thesis
    using assms connected_handle_event_ok [of c s result] by (auto simp: handle_event_def)
next
  case (DisconnectingState d)
  then show ?thesis
    using assms disconnecting_handle_event_ok [of d s result r] by (simp add: handle_event_def)
qed

section \<open>Reports stay true\<close>

lemma handle_event_same_report:
  assumes inv: "state_inv holds st s" and r: "handle_event pf st result s = Some (SameState st', s')"
    and report: "report_inv holds tr st s"
  shows "report_inv holds tr st' s'"
proof (cases st)
  case DisconnectedState
  then obtain cmd where "disconnected_handle_event pf cmd s = (SameState st', s')"
    using r by (auto simp: handle_event_def split: event_result.splits)
  from disconnected_same [OF this] show ?thesis
    using report DisconnectedState by (cases tr) (auto simp: report_inv_def)
next
  case (ErrorState c)
  then have st': "st' = ErrorState c"
    using r error_same by (auto simp: handle_event_def split: event_result.splits)
  have "filtered holds s \<longrightarrow> filtered holds s'"
    using handle_event_ok [OF inv r] st' by (simp add: step_ok_simps keeps_filter_def)
  then show ?thesis
    using report ErrorState st' by (cases tr) (auto simp: report_inv_def)
next
  case (ConnectingState c)
  then show ?thesis
    using r report connecting_same [of pf c result s st' s'] by (cases tr)
      (auto simp: handle_event_def report_inv_def)
next
  case (ConnectedState c)
  then show ?thesis
    using r report connected_same [of pf c result s st' s'] by (cases tr)
      (auto simp: handle_event_def report_inv_def)
next
  case (DisconnectingState d)
  then obtain cmd where "disconnecting_handle_commands d cmd s = (SameState st', s')"
    using r by (auto simp: handle_event_def disconnecting_handle_event_def split: event_result.splits)
  then obtain d' where "st' = DisconnectingState d'"
    using disconnecting_handle_commands_frame [of d cmd s] by auto
  then show ?thesis
    using report DisconnectingState by (cases tr) (auto simp: report_inv_def)
qed

section \<open>The machine keeps the invariant\<close>

lemma run_once_ok:
  assumes ok: "machine_ok holds m" and running: "mc_running m" and r: "run_once pf result m = Some m'"
  shows "machine_ok holds m' \<and> keeps_filter holds (mc_tsm m) (mc_current_state m') (mc_tsm m')"
proof -
  obtain st where st: "mc_current_state m = Some st" using ok running
    by (auto simp: machine_ok_def split: option.splits)
  then have inv: "state_inv holds st (mc_tsm m)" using ok by (simp add: machine_ok_def)
  obtain cq s' where h: "handle_event pf st result (mc_tsm m) = Some (cq, s')"
    using r st by (auto simp: run_once_def split: option.splits)
  note step = handle_event_ok [OF inv h]
  show ?thesis
  proof (cases cq)
    case (NewState st' tr)
    then show ?thesis
      using step r st h by (auto simp: run_once_def machine_ok_def step_ok_simps)
  next
    case Finished
    then show ?thesis
      using step r st h by (auto simp: run_once_def machine_ok_def step_ok_simps)
  next
    case (SameState st')
    have "report_inv holds (last (mc_transitions m)) st' s'" if "mc_transitions m \<noteq> []"
      using handle_event_same_report [OF inv h [unfolded SameState]] ok running st that
      by (simp add: machine_ok_def)
    moreover have "st' = DisconnectedState" if "st = DisconnectedState"
      using h SameState that disconnected_same [of pf _ "mc_tsm m" st' s']
      by (auto simp: handle_event_def split: event_result.splits)
    ultimately show ?thesis
      using step r st h SameState ok running by (auto simp: run_once_def machine_ok_def step_ok_simps)
  qed
qed

lemma loop_step_ok:
  assumes "loop_step pf m m'" and ok: "machine_ok holds m"
  shows "machine_ok holds m' \<and> keeps_filter holds (mc_tsm m) (mc_current_state m') (mc_tsm m')"
  using assms(1)
proof (cases rule: loop_step.cases)
  case (step_command st c m1)
  note frame = commands_next_frame [OF step_command(4)]
  show ?thesis
    using run_once_ok [OF _ _ step_command(5)] ok step_command(1) by (simp add: frame)
next
  case (step_close_terminated self c m1 r)
  note frame = commands_try_next_frame [OF step_close_terminated(4)]
  show ?thesis
    using run_once_ok [OF _ _ step_close_terminated(5)] ok step_close_terminated(1)
    by (cases "mc_done m") (simp_all add: frame)
qed (use run_once_ok ok in blast)+

lemma tsm_step_ok:
  assumes "tsm_step pf m m'" and ok: "machine_ok holds m"
  shows "machine_ok holds m'"
  using assms(1) by (cases rule: tsm_stepE) (use loop_step_ok ok in auto)

lemma machine_new_ok: "machine_ok holds (machine_new pf initial connectivity w)"
  by (simp add: machine_new_def machine_ok_def disconnected_enter_def disconnected_transition_def
      Let_def)

theorem reachable_ok: "tsm_reachable pf m \<Longrightarrow> machine_ok holds m"
  by (induction rule: tsm_reachable.induct) (simp_all add: machine_new_ok tsm_step_ok)

end

end
