(* ===== verification/Linux_Host.thy ===== *)
theory Linux_Host
  imports Firewall_Apply Tunnel_Enforcement
begin

text \<open>
  The tunnel state machine on Linux: its firewall is the one of \<open>Firewall_Apply\<close>. The contract that
  the machine relies on, \<open>tsm_platform\<close>, follows from the kernel's transactions and from the rules
  of the policies; what remains assumed of the other services is that they leave the tables of
  the firewall alone.
\<close>

section \<open>The platform\<close>

text \<open>
  The machine only asks whether an operation succeeded. An exchange with the kernel that does not
  end (\<open>None\<close>) is excluded by \<open>nft_kernel\<close>.
\<close>

definition succeeded :: "((linux_fw_error, unit) result \<times> 'w) option \<Rightarrow> 'w \<Rightarrow> bool \<times> 'w" where
  "succeeded r w =
     (case r of
        Some (Inr _, w') \<Rightarrow> (True, w')
      | Some (Inl _, w') \<Rightarrow> (False, w')
      | None \<Rightarrow> (False, w))"

definition linux_platform :: "'w kernel_ops \<Rightarrow> firewall \<Rightarrow> 'w platform \<Rightarrow> 'w platform" where
  "linux_platform k fw services = services
     \<lparr>pf_apply_policy := \<lambda>policy w. succeeded (apply_policy k fw policy w) w,
      pf_reset_policy := \<lambda>w. succeeded (reset_policy k w) w\<rparr>"

text \<open>A policy is in force if the table in the kernel gives every packet the policy's verdict.\<close>

definition linux_holds ::
  "('w \<Rightarrow> ruleset) \<Rightarrow> nft_step \<Rightarrow> firewall \<Rightarrow> 'w \<Rightarrow> firewall_policy \<Rightarrow> bool" where
  "linux_holds tables step fw w policy \<longleftrightarrow>
     (\<exists>env t. tables w (TABLE_NAME, Inet) = Some t \<and> enforces step env policy (fw_fwmark fw) t)"

section \<open>The contract holds\<close>

locale linux_host = nft_kernel k tables arp_ignore + vm: nft_vm step
  for k :: "'w kernel_ops" and tables :: "'w \<Rightarrow> ruleset" and arp_ignore :: "'w \<Rightarrow> string"
    and step :: nft_step +
  fixes fw :: firewall and services :: "'w platform"
  assumes dns_set_tables: "tables (snd (pf_dns_set services i d w)) = tables w"
    and dns_reset_tables: "tables (snd (pf_dns_reset services w)) = tables w"
    and dns_remove_tables: "tables (snd (pf_dns_reset_before_interface_removal services w)) = tables w"
    and generate_tables: "tables (snd (pf_generate services n av w)) = tables w"
    and clear_routes_tables: "tables (snd (pf_clear_routes services w)) = tables w"
    and clear_rules_tables: "tables (snd (pf_clear_routing_rules services w)) = tables w"
    and nm_new_tables: "tables (snd (pf_nm_new services w)) = tables w"
    and nm_disable_tables: "tables (snd (pf_nm_disable services w)) = tables w"
    and nm_enable_tables: "tables (pf_nm_enable services w) = tables w"
    and start_tunnel_tables: "tables (pf_start_tunnel services params n w) = tables w"
begin

lemma holds_tables: "tables w' = tables w \<Longrightarrow> linux_holds tables step fw w' = linux_holds tables step fw w"
  by (simp add: linux_holds_def fun_eq_iff)

lemma apply_batch_holds:
  assumes "finalize env policy (fw_fwmark fw) = Inr b" and "tables w' = apply_batch b (tables w)"
  shows "linux_holds tables step fw w' policy"
  using apply_rules_batch [OF rules_batch_finalize [OF vm.nft_vm_axioms assms(1)], of "tables w"]
    policy_table_enforces [OF vm.nft_vm_axioms assms(1)] assms(2)
  by (auto simp: linux_holds_def)

lemma linux_apply:
  assumes "pf_apply_policy (linux_platform k fw services) policy w = (ok, w')"
  shows "ok \<Longrightarrow> linux_holds tables step fw w' policy"
    and "linux_holds tables step fw w' policy \<or> linux_holds tables step fw w' = linux_holds tables step fw w"
proof -
  obtain r w1 where r: "apply_policy k fw policy w = Some (r, w1)"
    and either: "tables w1 = tables w \<or> (\<exists>b. finalize (k_env k w) policy (fw_fwmark fw) = Inr b \<and>
        tables w1 = apply_batch b (tables w))"
    and ok: "r = Inr () \<longrightarrow> (\<exists>b. finalize (k_env k w) policy (fw_fwmark fw) = Inr b \<and>
        tables w1 = apply_batch b (tables w))"
    using apply_policy_outcome [of fw policy w] by blast
  have w': "w' = w1" "ok \<longleftrightarrow> r = Inr ()"
    using assms r by (auto simp: linux_platform_def succeeded_def split: sum.splits)
  show "ok \<Longrightarrow> linux_holds tables step fw w' policy"
    using ok apply_batch_holds unfolding w' by blast
  show "linux_holds tables step fw w' policy \<or> linux_holds tables step fw w' = linux_holds tables step fw w"
    using either apply_batch_holds holds_tables unfolding w' by blast
qed

lemma linux_reset:
  assumes "pf_reset_policy (linux_platform k fw services) w = (ok, w')"
  shows "ok \<Longrightarrow> \<not> linux_holds tables step fw w' policy"
    and "linux_holds tables step fw w' = (\<lambda>p. False) \<or>
      linux_holds tables step fw w' = linux_holds tables step fw w"
proof -
  obtain r w1 where r: "reset_policy k w = Some (r, w1)"
    and either: "tables w1 = tables w \<or> tables w1 = apply_batch reset_batch (tables w)"
    and ok: "r = Inr () \<longrightarrow> tables w1 = apply_batch reset_batch (tables w)"
    using reset_policy_outcome [of w] by blast
  have w': "w' = w1" "ok \<longleftrightarrow> r = Inr ()"
    using assms r by (auto simp: linux_platform_def succeeded_def split: sum.splits)
  show "ok \<Longrightarrow> \<not> linux_holds tables step fw w' policy"
    using ok reset_batch_tables(1) unfolding w' by (simp add: linux_holds_def)
  show "linux_holds tables step fw w' = (\<lambda>p. False) \<or>
      linux_holds tables step fw w' = linux_holds tables step fw w"
    using either
  proof
    assume "tables w1 = apply_batch reset_batch (tables w)"
    then show ?thesis by (intro disjI1 ext) (simp add: w' linux_holds_def reset_batch_tables(1))
  next
    assume "tables w1 = tables w"
    then show ?thesis unfolding w' by (intro disjI2 holds_tables)
  qed
qed

end

lemma platform_services [simp]:
  "pf_dns_set (linux_platform k fw services) = pf_dns_set services"
  "pf_dns_reset (linux_platform k fw services) = pf_dns_reset services"
  "pf_dns_reset_before_interface_removal (linux_platform k fw services) =
     pf_dns_reset_before_interface_removal services"
  "pf_generate (linux_platform k fw services) = pf_generate services"
  "pf_clear_routes (linux_platform k fw services) = pf_clear_routes services"
  "pf_clear_routing_rules (linux_platform k fw services) = pf_clear_routing_rules services"
  "pf_nm_new (linux_platform k fw services) = pf_nm_new services"
  "pf_nm_disable (linux_platform k fw services) = pf_nm_disable services"
  "pf_nm_enable (linux_platform k fw services) = pf_nm_enable services"
  "pf_start_tunnel (linux_platform k fw services) = pf_start_tunnel services"
  by (simp_all add: linux_platform_def)

sublocale linux_host \<subseteq> machine: tsm_platform "linux_platform k fw services" "linux_holds tables step fw"
  by unfold_locales
    ((erule linux_apply(1), simp) | (erule linux_apply(2)) | (erule linux_reset(1), simp) |
     (erule linux_reset(2)) |
     (rule holds_tables, simp add: dns_set_tables dns_reset_tables dns_remove_tables generate_tables
        clear_routes_tables clear_rules_tables nm_new_tables nm_disable_tables nm_enable_tables
        start_tunnel_tables))+

context linux_host
begin

lemma connected_table:
  assumes "tsm_reachable (linux_platform k fw services) m"
    and "mc_current_state m = Some (ConnectedState c)"
  obtains env t where "tables (ts_world (mc_tsm m)) (TABLE_NAME, Inet) = Some t"
    and "enforces step env (get_firewall_policy c (mc_tsm m)) (fw_fwmark fw) t"
  using machine.reachable_ok [OF assms(1)] assms(2)
  by (auto simp: machine_ok_def state_inv_def linux_holds_def)

end

section \<open>A host with these laws\<close>

text \<open>
  The simulated kernel, with services that succeed and tunnel parameters that do not depend on
  the attempt. NetworkManager is not running.
\<close>

definition sim_services :: "tunnel_parameters \<Rightarrow> sim_kernel platform" where
  "sim_services params =
     \<lparr>pf_apply_policy = (\<lambda>policy w. (True, w)),
      pf_reset_policy = (\<lambda>w. (True, w)),
      pf_dns_set = (\<lambda>i d w. (True, w)),
      pf_dns_reset = (\<lambda>w. (True, w)),
      pf_dns_reset_before_interface_removal = (\<lambda>w. (True, w)),
      pf_generate = (\<lambda>n av w. (Inr params, w)),
      pf_clear_routes = (\<lambda>w. (True, w)),
      pf_clear_routing_rules = (\<lambda>w. (True, w)),
      pf_nm_new = (\<lambda>w. (False, w)),
      pf_nm_disable = (\<lambda>w. (None, w)),
      pf_nm_enable = (\<lambda>w. w),
      pf_start_tunnel = (\<lambda>params n w. w)\<rparr>"

abbreviation "sim_platform fw params \<equiv> linux_platform sim_ops fw (sim_services params)"

interpretation sim_host: linux_host sim_ops sim_tables sim_arp_ignore nft_eval fw "sim_services params"
  for fw :: firewall and params :: tunnel_parameters
  by unfold_locales (simp_all add: sim_services_def)

lemma sim_apply_policy:
  assumes "finalize (sim_env w) policy (fw_fwmark fw) = Inr b"
  shows "\<exists>w'. pf_apply_policy (sim_platform fw params) policy w = (True, w') \<and> sim_env w' = sim_env w"
proof -
  have table: "apply_batch b (sim_tables w) (TABLE_NAME, Inet) = Some (policy_table b)"
    by (simp add: apply_rules_batch [OF rules_batch_finalize [OF ref_vm.nft_vm_axioms assms]])
  let ?w = "apply_kernel_config sim_ops policy (w\<lparr>sim_tables := apply_batch b (sim_tables w)\<rparr>)"
  have config: "sim_tables ?w = apply_batch b (sim_tables w) \<and> sim_env ?w = sim_env w"
    by (cases policy) (simp_all add: apply_kernel_config_def set_src_valid_mark_sysctl_def
        lock_down_arp_ignore_sysctl_def sim_ops_def Let_def)
  have "apply_policy sim_ops fw policy w = verify_tables sim_ops [TABLE_NAME] ?w"
    using assms by (simp add: apply_policy_def send_and_process_def sim_ops_def)
  also have "\<dots> = Some (Inr (), ?w)"
    using config table by (simp add: verify_tables_def) (simp add: sim_ops_def)
  finally show ?thesis using config by (simp add: linux_platform_def succeeded_def)
qed

end
