(* ===== verification/Tunnel_Behaviour.thy ===== *)
theory Tunnel_Behaviour
  imports Tunnel_Frames
begin

text \<open>
  Behaviour of the tunnel state machine that does not depend on what the platform does: the diagram
  of its states, the answers to commands, the connectivity it needs to run a tunnel, and how it
  shuts down.
\<close>

section \<open>The diagram of states\<close>

datatype phase = PDisconnected | PConnecting | PConnected | PDisconnecting | PError

primrec phase_of :: "tunnel_state \<Rightarrow> phase" where
  "phase_of DisconnectedState = PDisconnected"
| "phase_of (ConnectingState _) = PConnecting"
| "phase_of (ConnectedState _) = PConnected"
| "phase_of (DisconnectingState _) = PDisconnecting"
| "phase_of (ErrorState _) = PError"

primrec phase_announced :: "tunnel_state_transition \<Rightarrow> phase" where
  "phase_announced (TransDisconnected _) = PDisconnected"
| "phase_announced (TransConnecting _) = PConnecting"
| "phase_announced (TransConnected _) = PConnected"
| "phase_announced (TransDisconnecting _) = PDisconnecting"
| "phase_announced (TransError _) = PError"

fun diagram :: "phase \<Rightarrow> phase \<Rightarrow> bool" where
  "diagram PDisconnected q = (q = PDisconnected \<or> q = PConnecting \<or> q = PError)"
| "diagram PConnecting q = (q = PConnecting \<or> q = PConnected \<or> q = PDisconnecting \<or> q = PError)"
| "diagram PConnected q = (q = PDisconnecting \<or> q = PConnecting \<or> q = PError)"
| "diagram PDisconnecting q = (q = PDisconnected \<or> q = PConnecting \<or> q = PError)"
| "diagram PError q = (q = PConnecting \<or> q = PDisconnected \<or> q = PError)"

definition phase_ok :: "phase \<Rightarrow> event_consequence \<times> 'w tsm \<Rightarrow> bool" where
  "phase_ok p r =
     (case fst r of
        NewState st tr \<Rightarrow> phase_of st = phase_announced tr \<and> diagram p (phase_of st)
      | SameState st \<Rightarrow> phase_of st = p
      | Finished \<Rightarrow> p = PDisconnected)"

lemma phase_ok_simps [simp]:
  "phase_ok p (SameState st, s) = (phase_of st = p)"
  "phase_ok p (Finished, s) = (p = PDisconnected)"
  "phase_ok p (cq, send_message msg s) = phase_ok p (cq, s)"
  by (simp_all add: phase_ok_def)

lemma phase_enter [simp]:
  "phase_ok p (new_state (error_enter pf cause s)) = diagram p PError"
  "phase_ok p (new_state (disconnected_enter pf b s)) = diagram p PDisconnected"
  "phase_ok p (new_state (disconnected_transition s', s)) = diagram p PDisconnected"
  "phase_ok p (new_state (disconnecting_enter b a s)) = diagram p PDisconnecting"
  by (simp_all add: phase_ok_def new_state_def error_enter_def disconnected_enter_def Let_def
      disconnected_transition_def disconnecting_enter_def split: prod.splits)

lemma phase_disconnect [simp]:
  "phase_ok p (connecting_disconnect pf c a s) = diagram p PDisconnecting"
  "phase_ok p (connected_disconnect pf d a s) = diagram p PDisconnecting"
  by (simp_all add: connecting_disconnect_def connected_disconnect_def Let_def)

lemma phase_connecting_enter:
  assumes "diagram p PConnecting" and "diagram p PError"
  shows "phase_ok p (new_state (connecting_enter pf n s))"
proof -
  have started: "phase_ok p (new_state ((ConnectingState c, TransConnecting e), s'))" for c e s'
    using assms by (simp add: phase_ok_def new_state_def)
  show ?thesis
    using assms started
    by (auto simp: connecting_enter_def split: option.splits prod.splits sum.splits)
qed

lemma phase_connected_enter:
  assumes "diagram p PConnected" and "diagram p PDisconnecting"
  shows "phase_ok p (new_state (connected_enter pf md params b s))"
proof -
  have entered: "phase_ok p (new_state ((ConnectedState c, TransConnected e), s'))" for c e s'
    using assms by (simp add: phase_ok_def new_state_def)
  show ?thesis
    using assms entered
    by (auto simp: connected_enter_def Let_def split: prod.splits sum.splits bool.splits)
qed

lemmas phase_enters = phase_connecting_enter phase_connected_enter

lemma phase_connecting: "phase_ok PConnecting (connecting_handle_event pf c result s)"
proof -
  have reset: "phase_ok PConnecting (connecting_reset_firewall pf c' s')" for c' s'
    by (simp add: connecting_reset_firewall_def split: prod.splits sum.splits)
  have reset': "phase_ok PConnecting (cq, send_message msg s2)"
    if "connecting_reset_firewall pf c' s' = (cq, s2)" for c' s' cq s2 msg
    using reset [of c' s'] that by simp
  show ?thesis
    by (auto simp: connecting_handle_event_def connecting_handle_commands_def Let_def
        connecting_handle_tunnel_events_def connecting_handle_tunnel_close_event_def
        simp del: phase_ok_simps(3) intro!: phase_enters intro: reset' phase_ok_simps(3) [THEN iffD2]
        split: event_result.splits option.splits tunnel_command.splits tunnel_event.splits
          prod.splits sum.splits bool.splits)
qed

lemma phase_connected: "phase_ok PConnected (connected_handle_event pf c result s)"
proof -
  have d: "phase_ok PConnected (cq, send_message msg s2)"
    if "connected_disconnect pf c a s' = (cq, s2)" for a s' cq s2 msg
    using phase_disconnect(2) [of PConnected pf c a s'] that by simp
  show ?thesis
    by (auto simp: connected_handle_event_def connected_handle_commands_def Let_def
        connected_handle_tunnel_events_def connected_handle_tunnel_close_event_def
        simp del: phase_ok_simps(3) intro!: phase_enters intro: d phase_ok_simps(3) [THEN iffD2]
        split: event_result.splits option.splits tunnel_command.splits tunnel_event.splits
          prod.splits sum.splits bool.splits)
qed

lemma phase_error: "phase_ok PError (error_handle_event pf c cmd s)"
  by (auto simp: error_handle_event_def Let_def intro!: phase_enters
      split: option.splits tunnel_command.splits prod.splits)

lemma phase_disconnected: "phase_ok PDisconnected (disconnected_handle_event pf cmd s)"
  by (auto simp: disconnected_handle_event_def Let_def intro!: phase_enters
      split: option.splits tunnel_command.splits prod.splits)

lemma phase_disconnecting:
  assumes "disconnecting_handle_event pf d result s = Some r"
  shows "phase_ok PDisconnecting r"
proof (cases result)
  case (EvCommand cmd)
  then show ?thesis
    using assms disconnecting_handle_commands_frame [of d cmd s]
    by (auto simp: disconnecting_handle_event_def)
qed (use assms in \<open>auto simp: disconnecting_handle_event_def disconnecting_after_disconnect_def
    intro!: phase_enters split: option.splits after_disconnect.splits\<close>)

lemma handle_event_phase:
  "handle_event pf st result s = Some r \<Longrightarrow> phase_ok (phase_of st) r"
  using phase_connecting phase_connected phase_error phase_disconnected
  by (cases st) (auto simp: handle_event_def split: event_result.splits intro: phase_disconnecting)

section \<open>Invariants of the machine\<close>

text \<open>Rules for invariants: of the machine's loop, and of the state with the shared values.\<close>

lemma loop_step_rule:
  assumes "loop_step pf m m'"
    and next': "\<And>c m1. commands_next m = Some (c, m1) \<Longrightarrow> P m1"
    and try': "\<And>c m1. commands_try_next m = (c, m1) \<Longrightarrow> P m1" and "P m"
    and run: "\<And>result m. P m \<Longrightarrow> mc_running m \<Longrightarrow> run_once pf result m = Some m' \<Longrightarrow> Q"
  shows Q
  using assms(1)
proof (cases rule: loop_step.cases)
  case (step_command st c m1)
  then show ?thesis
    using next' run [of m1] by (auto simp: commands_next_def split: if_splits list.splits)
next
  case (step_close_terminated self c m1 r)
  then have "mc_running m1" by (auto simp: commands_try_next_def split: list.splits)
  then show ?thesis
    using step_close_terminated try' run [of m1] run [of m] \<open>P m\<close> by (cases "mc_done m") auto
qed (use run \<open>P m\<close> in blast)+

lemma reachable_rule [consumes 1, case_names new loop env]:
  assumes "tsm_reachable pf m"
    and "\<And>i k w. P (machine_new pf i k w)"
    and "\<And>m m'. P m \<Longrightarrow> loop_step pf m m' \<Longrightarrow> P m'"
    and "\<And>m cs cl li. P m \<Longrightarrow> (mc_closed m \<Longrightarrow> cl \<and> cs = mc_commands m) \<Longrightarrow>
      P (m\<lparr>mc_commands := cs, mc_closed := cl, mc_listening := li\<rparr>)"
  shows "P m"
  using assms(1)
proof (induction rule: tsm_reachable.induct)
  case (reachable_new i k w)
  show ?case by (rule assms(2))
next
  case (reachable_step m m')
  from reachable_step(2) show ?case
  proof (cases rule: tsm_step.cases)
    case loop
    then show ?thesis using assms(3) reachable_step.IH by blast
  next
    case (env_send c)
    then have m': "m' = m\<lparr>mc_commands := mc_commands m @ [c], mc_closed := mc_closed m,
        mc_listening := mc_listening m\<rparr>" by simp
    show ?thesis
      unfolding m' by (rule assms(4) [OF reachable_step.IH]) (use env_send in simp)
  next
    case env_drop_handle
    then show ?thesis
      using assms(4) [OF reachable_step.IH, of True "mc_commands m" "mc_listening m"] by simp
  next
    case env_stop_listening
    then show ?thesis
      using assms(4) [OF reachable_step.IH, of "mc_closed m" "mc_commands m" False] by simp
  qed
qed

definition state_rel :: "(tunnel_state \<Rightarrow> 'w tsm \<Rightarrow> bool) \<Rightarrow> event_consequence \<times> 'w tsm \<Rightarrow> bool" where
  "state_rel P r =
     (case fst r of NewState st _ \<Rightarrow> P st (snd r) | SameState st \<Rightarrow> P st (snd r) | Finished \<Rightarrow> True)"

definition state_invariant :: "(tunnel_state \<Rightarrow> 'w tsm \<Rightarrow> bool) \<Rightarrow> 'w machine \<Rightarrow> bool" where
  "state_invariant P m = (\<forall>st. mc_current_state m = Some st \<longrightarrow> P st (mc_tsm m))"

lemma reachable_state_invariant:
  assumes "tsm_reachable pf m"
    and new: "\<And>s. P DisconnectedState s"
    and step: "\<And>st s result r. P st s \<Longrightarrow> handle_event pf st result s = Some r \<Longrightarrow> state_rel P r"
  shows "state_invariant P m"
  using assms(1)
proof (induction rule: reachable_rule)
  case (new i k w)
  then show ?case
    using assms(2) by (auto simp: state_invariant_def machine_new_def disconnected_enter_def
        disconnected_transition_def Let_def)
next
  case (loop m m')
  from loop(2) show ?case
  proof (rule loop_step_rule [where P = "state_invariant P"])
    fix result m
    assume "state_invariant P m" "mc_running m" "run_once pf result m = Some m'"
    then show ?thesis
      using step by (fastforce simp: run_once_def state_invariant_def state_rel_def
          split: option.splits event_consequence.splits)
  qed (use loop(1) in \<open>auto simp: state_invariant_def commands_next_def commands_try_next_def
      split: if_splits list.splits\<close>)
next
  case (env m cs cl li)
  then show ?case by (simp add: state_invariant_def)
qed

text \<open>The announced transitions are a path of the diagram from the disconnected state.\<close>

definition announced :: "'w machine \<Rightarrow> phase list" where
  "announced m = PDisconnected # map phase_announced (mc_transitions m)"

definition path_ok :: "'w machine \<Rightarrow> bool" where
  "path_ok m =
     (successively diagram (announced m) \<and>
      (mc_running m \<longrightarrow> map_option phase_of (mc_current_state m) = Some (last (announced m))))"

lemma path_ok_frame:
  "path_ok (m\<lparr>mc_commands := cs, mc_closed := cl, mc_listening := li\<rparr>) = path_ok m"
  "commands_next m = Some (c, m1) \<Longrightarrow> path_ok m1 = path_ok m"
  "commands_try_next m = (d, m1) \<Longrightarrow> path_ok m1 = path_ok m"
  by (auto simp: path_ok_def announced_def commands_next_def commands_try_next_def
      split: if_splits list.splits)

lemma run_once_path:
  assumes "path_ok m" and "mc_running m" and "run_once pf result m = Some m'"
  shows "path_ok m'"
proof -
  obtain st cq s where st: "mc_current_state m = Some st" and ph: "phase_of st = last (announced m)"
    and h: "handle_event pf st result (mc_tsm m) = Some (cq, s)"
    using assms by (auto simp: path_ok_def run_once_def split: option.splits)
  note ok = handle_event_phase [OF h]
  have path: "successively diagram (announced m)" using assms(1) by (simp add: path_ok_def)
  show ?thesis
  proof (cases cq)
    case (NewState st' tr)
    have "announced m' = announced m @ (if mc_listening m then [phase_announced tr] else [])"
      using assms(3) NewState st h by (auto simp: run_once_def announced_def)
    moreover have "announced m \<noteq> []" by (simp add: announced_def)
    ultimately show ?thesis
      using assms(3) NewState st h ok path ph
      by (auto simp: run_once_def path_ok_def phase_ok_def successively_append_iff)
  next
    case (SameState st')
    then have "announced m' = announced m" "mc_current_state m' = Some st'"
      using assms(3) st h by (auto simp: run_once_def announced_def)
    then show ?thesis using ok path ph SameState by (simp add: path_ok_def)
  next
    case Finished
    then show ?thesis
      using assms(3) st h path by (auto simp: run_once_def path_ok_def announced_def)
  qed
qed

lemma reachable_path: "tsm_reachable pf m \<Longrightarrow> path_ok m"
proof (induction rule: reachable_rule)
  case (new i k w)
  show ?case
    by (simp add: path_ok_def announced_def machine_new_def disconnected_enter_def
        disconnected_transition_def Let_def)
next
  case (loop m m')
  from loop(2) show ?case
    by (rule loop_step_rule [where P = path_ok]) (use loop(1) run_once_path path_ok_frame in blast)+
next
  case (env m cs cl li)
  then show ?case by (simp add: path_ok_frame)
qed

section \<open>A tunnel only while online\<close>

definition online_state :: "tunnel_state \<Rightarrow> 'w tsm \<Rightarrow> bool" where
  "online_state st s =
     (case st of
        ConnectingState _ \<Rightarrow> is_online (ts_connectivity s)
      | ConnectedState _ \<Rightarrow> is_online (ts_connectivity s)
      | _ \<Rightarrow> True)"

abbreviation "online_rel \<equiv> state_rel online_state"

lemma online_rel_simps [simp]:
  "online_rel (SameState st, s) = online_state st s"
  "online_rel (cq, send_message msg s) = online_rel (cq, s)"
  "online_rel (Finished, s)"
  by (auto simp: state_rel_def online_state_def send_message_def
      split: event_consequence.splits tunnel_state.splits)

lemma online_enter [simp]:
  "online_rel (new_state (error_enter pf cause s))"
  "online_rel (new_state (disconnected_enter pf b s))"
  "online_rel (new_state (disconnected_transition s', s))"
  "online_rel (new_state (disconnecting_enter b a s))"
  "online_rel (connecting_disconnect pf c a s)"
  "online_rel (connected_disconnect pf d a s)"
  by (simp_all add: state_rel_def online_state_def new_state_def error_enter_def
      disconnected_enter_def Let_def disconnected_transition_def disconnecting_enter_def
      connecting_disconnect_def connected_disconnect_def split: prod.splits)

lemma online_connecting_enter [simp]: "online_rel (new_state (connecting_enter pf n s))"
proof -
  have started: "online_rel (new_state ((ConnectingState c, tr), s'))"
    if "is_online (ts_connectivity s')" for c tr s'
    using that by (simp add: state_rel_def new_state_def online_state_def)
  have "is_online (ts_connectivity s2)"
    if "availability (ts_connectivity s) = Some av" "settings s2 = settings s" for s2 :: "'a tsm" and av
    using that availability_None_iff settings_fields(3) [OF that(2)]
    by (metis is_online_def option.distinct(1))
  then show ?thesis
    by (auto simp: connecting_enter_def on_world_eq start_tunnel_def
        split: option.splits prod.splits sum.splits intro!: started dest: connecting_set_frame(1))
qed

lemma online_connected_enter:
  assumes "is_online (ts_connectivity s)"
  shows "online_rel (new_state (connected_enter pf md params b s))"
proof -
  have entered: "online_rel (new_state ((ConnectedState c, tr), s'))"
    if "settings s' = settings s" for c tr s'
    using that assms settings_fields(3) [OF that]
    by (simp add: state_rel_def new_state_def online_state_def)
  show ?thesis
    by (auto simp: connected_enter_def Let_def split: prod.splits sum.splits bool.splits
        intro!: entered dest!: connected_set_frame(1) set_dns_frame(1))
qed

lemma online_connecting:
  assumes "is_online (ts_connectivity s)"
  shows "online_rel (connecting_handle_event pf c result s)"
proof -
  have same: "online_state (ConnectingState c') s'" if "ts_connectivity s' = ts_connectivity s" for c' s'
    using that assms by (simp add: online_state_def)
  have reset: "online_rel (cq, s2)"
    if r: "connecting_reset_firewall pf c' s1 = (cq, s2)" and k: "ts_connectivity s1 = ts_connectivity s"
    for c' s1 cq s2
  proof -
    have "online_rel (connecting_reset_firewall pf c' s1)"
      using k same by (auto simp: connecting_reset_firewall_def split: prod.splits sum.splits
          dest!: connecting_set_frame(1) settings_fields(3))
    with r show ?thesis by simp
  qed
  show ?thesis
    using assms
    by (auto simp: connecting_handle_event_def connecting_handle_commands_def Let_def
        connecting_handle_tunnel_events_def connecting_handle_tunnel_close_event_def
        set_allow_lan_def set_dns_config_def online_state_def is_online_def
        intro!: online_connected_enter dest!: reset connecting_set_frame(1) settings_fields(3)
        split: event_result.splits option.splits tunnel_command.splits tunnel_event.splits
          prod.splits sum.splits bool.splits if_splits)
qed

lemma online_connected:
  assumes "is_online (ts_connectivity s)"
  shows "online_rel (connected_handle_event pf c result s)"
proof -
  have d: "online_rel (cq, s2)" if "connected_disconnect pf c a s1 = (cq, s2)" for a s1 cq s2
    using online_enter(6) [of pf c a s1] that by simp
  show ?thesis
    using assms
    by (auto simp: connected_handle_event_def connected_handle_commands_def Let_def
        connected_handle_tunnel_events_def connected_handle_tunnel_close_event_def
        set_allow_lan_def set_dns_config_def online_state_def is_online_def
        dest!: d connected_set_frame(1) set_dns_frame(1) settings_fields(3)
        split: event_result.splits option.splits tunnel_command.splits tunnel_event.splits
          prod.splits sum.splits bool.splits if_splits)
qed

lemma handle_event_online:
  assumes "online_state st s" and "handle_event pf st result s = Some r"
  shows "online_rel r"
proof (cases st)
  case DisconnectedState
  then show ?thesis
    using assms by (auto simp: handle_event_def disconnected_handle_event_def Let_def online_state_def
        split: event_result.splits option.splits tunnel_command.splits prod.splits if_splits)
next
  case (ErrorState c)
  then show ?thesis
    using assms by (auto simp: handle_event_def error_handle_event_def Let_def online_state_def
        split: event_result.splits option.splits tunnel_command.splits prod.splits if_splits)
next
  case (DisconnectingState d)
  show ?thesis
  proof (cases result)
    case (EvCommand cmd)
    then show ?thesis
      using assms DisconnectingState disconnecting_handle_commands_frame [of d cmd s]
      by (auto simp: handle_event_def disconnecting_handle_event_def online_state_def)
  qed (use assms DisconnectingState in \<open>auto simp: handle_event_def disconnecting_handle_event_def
      disconnecting_after_disconnect_def split: option.splits after_disconnect.splits\<close>)
qed (use assms online_connecting online_connected in
    \<open>auto simp: handle_event_def online_state_def\<close>)

lemma reachable_online: "tsm_reachable pf m \<Longrightarrow> state_invariant online_state m"
  by (erule reachable_state_invariant) (simp add: online_state_def, rule handle_event_online)

section \<open>Answers to commands\<close>

primrec command_tx :: "tunnel_command \<Rightarrow> tx option" where
  "command_tx (CmdAllowLan _ tx) = Some tx"
| "command_tx (CmdAllowEndpoint _ tx) = Some tx"
| "command_tx (CmdDns _ tx) = Some tx"
| "command_tx (CmdLockdownMode _ tx) = Some tx"
| "command_tx (CmdConnectivity _) = None"
| "command_tx CmdConnect = None"
| "command_tx CmdDisconnect = None"
| "command_tx (CmdBlock _) = None"

definition answers :: "'w tsm \<Rightarrow> tx list" where
  "answers s = List.map_filter (\<lambda>m. case m of Completed tx \<Rightarrow> Some tx | CloseTunnel \<Rightarrow> None) (ts_sent s)"

definition expected :: "tunnel_command option \<Rightarrow> tx list" where
  "expected cmd = (case Option.bind cmd command_tx of None \<Rightarrow> [] | Some tx \<Rightarrow> [tx])"

text \<open>The one command that is dropped without an answer.\<close>

definition unanswered :: "'w platform \<Rightarrow> tunnel_state \<Rightarrow> tunnel_command option \<Rightarrow> 'w tsm \<Rightarrow> bool" where
  "unanswered pf st cmd s =
     (case (st, cmd) of
        (ConnectedState self, Some (CmdDns dns _)) \<Rightarrow>
          (let s = s\<lparr>ts_dns_config := dns\<rparr>
           in \<not> fst (pf_apply_policy pf (get_firewall_policy self s) (ts_world s))) \<and>
          ts_dns_config s \<noteq> dns
      | _ \<Rightarrow> False)"

lemma answers_simps [simp]:
  "answers (send_message (Completed tx) s) = answers s @ [tx]"
  "answers (send_message CloseTunnel s) = answers s"
  "answers (s\<lparr>ts_world := w\<rparr>) = answers s"
  "answers (s\<lparr>ts_allow_lan := b\<rparr>) = answers s"
  "answers (s\<lparr>ts_dns_config := d\<rparr>) = answers s"
  "answers (s\<lparr>ts_lockdown_mode := l\<rparr>) = answers s"
  "answers (s\<lparr>ts_connectivity := k\<rparr>) = answers s"
  "answers (s\<lparr>ts_allowed_endpoint := e\<rparr>) = answers s"
  by (simp_all add: answers_def List.map_filter_def)

lemma answers_sent: "ts_sent s' = ts_sent s \<Longrightarrow> answers s' = answers s"
  by (simp add: answers_def)

lemma answers_helpers [simp]:
  "answers (reset_connectivity_check pf s) = answers s"
  "answers (error_reset_dns pf s) = answers s"
  "answers (disconnected_reset_dns pf s) = answers s"
  "answers (connected_reset_dns pf s) = answers s"
  "answers (reset_routes pf s) = answers s"
  "answers (disconnected_set_firewall_policy pf b s) = answers s"
  "answers (snd (error_set_firewall_policy pf s)) = answers s"
  "answers (snd (set_dns_config d s)) = answers s"
  "answers (snd (set_allow_lan b s)) = answers s"
  by (simp_all add: answers_def tsm_simps set_dns_config_def set_allow_lan_def)

lemma set_policy_fst:
  "fst (connected_set_firewall_policy pf c s) =
     (if fst (pf_apply_policy pf (get_firewall_policy c s) (ts_world s)) then Inr ()
      else Inl FirewallGeneric)"
  by (simp add: connected_set_firewall_policy_def on_world_def split: prod.splits bool.splits)

lemma answers_set [simp]:
  "answers (snd (connecting_set_firewall_policy pf params md tr s)) = answers s"
  "answers (snd (connected_set_firewall_policy pf c s)) = answers s"
  "answers (snd (set_dns pf c s)) = answers s"
  by (rule answers_sent, rule connecting_set_frame connected_set_frame set_dns_frame,
      rule surjective_pairing)+

lemma answers_enter [simp]:
  "answers (snd (new_state (error_enter pf cause s))) = answers s"
  "answers (snd (new_state (disconnected_enter pf b s))) = answers s"
  "answers (snd (new_state (t, s))) = answers s"
  "answers (snd (new_state (disconnecting_enter b a s))) = answers s"
  "answers (snd (connecting_disconnect pf c a s)) = answers s"
  "answers (snd (connected_disconnect pf d a s)) = answers s"
  by (simp_all add: new_state_def error_enter_def disconnected_enter_def Let_def
      disconnecting_enter_def connecting_disconnect_def connected_disconnect_def case_prod_beta)

lemma answers_connecting_enter [simp]:
  "answers (snd (new_state (connecting_enter pf n s))) = answers s"
  by (simp add: connecting_enter_def on_world_def start_tunnel_def case_prod_beta
      split: option.splits sum.splits)

lemma answers_connected_enter [simp]:
  "answers (snd (new_state (connected_enter pf md params b s))) = answers s"
  by (simp add: connected_enter_def Let_def case_prod_beta split: sum.splits bool.splits)

lemma answers_connecting:
  "answers (snd (connecting_handle_event pf c result s)) =
     answers s @ (case result of EvCommand cmd \<Rightarrow> expected cmd | _ \<Rightarrow> [])"
proof -
  have reset: "answers (snd (connecting_reset_firewall pf c' s')) = answers s'" for c' s'
    by (simp add: connecting_reset_firewall_def case_prod_beta split: sum.splits)
  show ?thesis
    by (simp add: connecting_handle_event_def connecting_handle_commands_def Let_def expected_def
        connecting_handle_tunnel_events_def connecting_handle_tunnel_close_event_def reset
        set_allow_lan_def case_prod_beta
        split: event_result.splits option.splits tunnel_command.splits tunnel_event.splits
          sum.splits bool.splits)
qed

lemma answers_connected:
  "answers (snd (connected_handle_event pf c result s)) =
     answers s @ (case result of
        EvCommand cmd \<Rightarrow> if unanswered pf (ConnectedState c) cmd s then [] else expected cmd
      | _ \<Rightarrow> [])"
  by (simp add: connected_handle_event_def connected_handle_commands_def Let_def expected_def
      connected_handle_tunnel_events_def connected_handle_tunnel_close_event_def unanswered_def
      set_allow_lan_def set_dns_config_def set_policy_fst case_prod_beta
      split: event_result.splits option.splits tunnel_command.splits tunnel_event.splits
        sum.splits bool.splits)

lemma handle_event_answers:
  assumes "handle_event pf st result s = Some (cq, s')"
  shows "answers s' = answers s @
    (case result of EvCommand cmd \<Rightarrow> if unanswered pf st cmd s then [] else expected cmd | _ \<Rightarrow> [])"
proof (cases st)
  case DisconnectedState
  then show ?thesis
    using assms
    by (auto simp: handle_event_def disconnected_handle_event_def Let_def expected_def
        unanswered_def set_allow_lan_def prod_eq_iff
        split: event_result.splits option.splits tunnel_command.splits if_splits)
next
  case (ErrorState c)
  then show ?thesis
    using assms
    by (auto simp: handle_event_def error_handle_event_def Let_def expected_def
        unanswered_def set_allow_lan_def set_dns_config_def prod_eq_iff
        split: event_result.splits option.splits tunnel_command.splits if_splits)
next
  case (ConnectingState c)
  then show ?thesis
    using assms answers_connecting [of pf c result s]
    by (auto simp: handle_event_def unanswered_def split: event_result.splits)
next
  case (ConnectedState c)
  then show ?thesis
    using assms answers_connected [of pf c result s] by (auto simp: handle_event_def)
next
  case (DisconnectingState d)
  then show ?thesis
    using assms
    by (auto simp: handle_event_def disconnecting_handle_event_def expected_def unanswered_def
        disconnecting_handle_commands_def disconnecting_after_disconnect_def prod_eq_iff
        split: event_result.splits option.splits tunnel_command.splits after_disconnect.splits)
qed

section \<open>Shutting down\<close>

text \<open>
  Once the machine has seen the end of its command channel it starts no tunnel, and every pass of
  its loop brings it closer to its end.
\<close>

definition is_reconnect :: "after_disconnect \<Rightarrow> bool" where
  "is_reconnect a = (case a of AfterReconnect _ \<Rightarrow> True | _ \<Rightarrow> False)"

definition winding_down :: "tunnel_state \<Rightarrow> bool" where
  "winding_down st =
     (case st of
        DisconnectedState \<Rightarrow> True
      | ErrorState _ \<Rightarrow> True
      | DisconnectingState d \<Rightarrow> \<not> is_reconnect (dg_after_disconnect d)
      | _ \<Rightarrow> False)"

definition shutdown_rank :: "'w machine \<Rightarrow> nat" where
  "shutdown_rank m =
     (case mc_current_state m of
        None \<Rightarrow> 0
      | Some DisconnectedState \<Rightarrow> 1
      | Some (ErrorState _) \<Rightarrow> 2
      | Some _ \<Rightarrow> 3)"

definition shutdown_ok :: "'w machine \<Rightarrow> bool" where
  "shutdown_ok m =
     ((mc_done m \<longrightarrow> mc_closed m \<and> mc_commands m = [] \<and>
        (\<forall>st. mc_current_state m = Some st \<longrightarrow> winding_down st)) \<and>
      (mc_running m \<longrightarrow> mc_current_state m \<noteq> None))"

text \<open>What the end of the channel does in each state.\<close>

lemma end_of_commands:
  assumes "handle_event pf st (EvCommand None) s = Some (cq, s')"
  shows "case cq of NewState st' _ \<Rightarrow> winding_down st' | SameState st' \<Rightarrow> winding_down st' | Finished \<Rightarrow> True"
proof (cases st)
  case (DisconnectingState d)
  then show ?thesis
    using assms by (cases "dg_after_disconnect d") (auto simp: handle_event_def is_reconnect_def
        disconnecting_handle_event_def disconnecting_handle_commands_def winding_down_def)
qed (use assms in \<open>auto simp: handle_event_def winding_down_def is_reconnect_def new_state_def Let_def
    connecting_handle_event_def connecting_handle_commands_def connecting_disconnect_def
    connected_handle_event_def connected_handle_commands_def connected_disconnect_def
    error_handle_event_def disconnected_handle_event_def disconnecting_enter_def
    disconnected_enter_def disconnected_transition_def\<close>)

lemma wound_down_close:
  assumes "winding_down st" and "handle_event pf st (EvClose r) s = Some (cq, s')"
  shows "\<exists>st' tr. cq = NewState st' tr \<and> (st' = DisconnectedState \<or> (\<exists>c. st' = ErrorState c)) \<and>
    (\<exists>d. st = DisconnectingState d)"
proof (cases st)
  case (DisconnectingState d)
  then show ?thesis
    using assms by (auto simp: handle_event_def winding_down_def is_reconnect_def new_state_def Let_def
        disconnecting_handle_event_def disconnecting_after_disconnect_def disconnected_enter_def
        disconnected_transition_def error_enter_def
        split: option.splits after_disconnect.splits prod.splits)
qed (use assms in \<open>auto simp: handle_event_def winding_down_def\<close>)

lemma end_of_commands_progress:
  assumes "handle_event pf st (EvCommand None) s = Some (cq, s')"
    and "st = DisconnectedState \<or> st = ErrorState c"
  shows "if st = DisconnectedState then cq = Finished else \<exists>tr. cq = NewState DisconnectedState tr"
  using assms by (auto simp: handle_event_def new_state_def Let_def error_handle_event_def
      disconnected_handle_event_def disconnected_enter_def disconnected_transition_def)

lemma run_once_cases:
  assumes "run_once pf result m = Some m'"
  obtains st cq s' where "mc_current_state m = Some st"
    and "handle_event pf st result (mc_tsm m) = Some (cq, s')"
    and "mc_current_state m' = consequence_state cq"
    and "mc_done m' = mc_done m" "mc_commands m' = mc_commands m" "mc_closed m' = mc_closed m"
    and "mc_running m' \<longrightarrow> mc_current_state m' \<noteq> None"
proof -
  obtain st cq s' where "mc_current_state m = Some st"
    "handle_event pf st result (mc_tsm m) = Some (cq, s')"
    using assms by (auto simp: run_once_def split: option.splits)
  then show thesis
    using assms by (cases cq) (auto simp: run_once_def intro!: that)
qed

lemma run_once_done:
  assumes ok: "shutdown_ok m" and "mc_done m" and run: "run_once pf result m = Some m'"
    and result: "result = EvCommand None \<and>
        (mc_current_state m = Some DisconnectedState \<or> (\<exists>c. mc_current_state m = Some (ErrorState c))) \<or>
      (\<exists>r. result = EvClose r)"
  shows "shutdown_ok m' \<and> mc_done m' \<and> shutdown_rank m' < shutdown_rank m"
  using run
proof (cases rule: run_once_cases)
  case (1 st cq s')
  have wind: "winding_down st" using ok \<open>mc_done m\<close> 1 by (auto simp: shutdown_ok_def)
  have "(\<forall>st'. consequence_state cq = Some st' \<longrightarrow> winding_down st') \<and> shutdown_rank m' < shutdown_rank m"
    using result
  proof (elim disjE conjE exE)
    fix r assume "result = EvClose r"
    then show ?thesis
      using 1 wound_down_close [OF wind] by (fastforce simp: shutdown_rank_def winding_down_def)
  next
    assume "result = EvCommand None" "mc_current_state m = Some DisconnectedState"
    then show ?thesis
      using 1 end_of_commands_progress [of pf st "mc_tsm m" cq s'] by (auto simp: shutdown_rank_def)
  next
    fix c assume "result = EvCommand None" "mc_current_state m = Some (ErrorState c)"
    then show ?thesis
      using 1 end_of_commands_progress [of pf st "mc_tsm m" cq s' c]
      by (auto simp: shutdown_rank_def winding_down_def)
  qed
  then show ?thesis using 1 ok \<open>mc_done m\<close> by (auto simp: shutdown_ok_def)
qed

lemma run_once_not_done:
  assumes "run_once pf result m = Some m'" and "\<not> mc_done m"
  shows "shutdown_ok m'"
  using assms(1) by (cases rule: run_once_cases) (use assms(2) in \<open>auto simp: shutdown_ok_def\<close>)

lemma loop_step_shutdown:
  assumes "loop_step pf m m'" and ok: "shutdown_ok m"
  shows "shutdown_ok m' \<and> (mc_done m \<longrightarrow> mc_done m' \<and> shutdown_rank m' < shutdown_rank m)"
  using assms(1)
proof (cases rule: loop_step.cases)
  case (step_command st c m1)
  consider "mc_done m" | "\<not> mc_done m" "\<not> mc_done m1"
    | "\<not> mc_done m" "c = None" "mc_closed m1" "mc_commands m1 = []" "mc_tsm m1 = mc_tsm m"
    using step_command(4) by (auto simp: commands_next_def split: if_splits list.splits)
  then show ?thesis
  proof cases
    case 1
    then have "c = None" "m1 = m" using step_command(4) by (auto simp: commands_next_def)
    moreover have "st = DisconnectedState \<or> (\<exists>c. st = ErrorState c)"
      using step_command(3) 1 ok step_command(2)
      by (cases st) (auto simp: waits_for_commands_def shutdown_ok_def winding_down_def)
    ultimately show ?thesis
      using run_once_done [OF ok 1, of pf "EvCommand None" m'] step_command by auto
  next
    case 2
    then show ?thesis using run_once_not_done step_command(5) by blast
  next
    case 3
    from step_command(5) show ?thesis
    proof (cases rule: run_once_cases)
      case (1 st cq s')
      then show ?thesis
        using 3 end_of_commands [of pf st "mc_tsm m1" cq s']
        by (auto simp: shutdown_ok_def split: event_consequence.splits)
    qed
  qed
next
  case (step_event st e)
  then have "\<not> mc_done m"
    using ok by (cases st) (auto simp: shutdown_ok_def waits_for_events_def winding_down_def)
  then show ?thesis using run_once_not_done step_event by blast
next
  case (step_close st r)
  then show ?thesis
    using run_once_done [OF ok, of pf "EvClose r" m'] run_once_not_done by (cases "mc_done m") auto
next
  case (step_close_terminated self c m1 r)
  then show ?thesis
    using run_once_done [OF ok, of pf "EvClose (Inr None)" m'] run_once_not_done [of pf _ m1 m']
    by (cases "mc_done m")
      (auto simp: disconnecting_result_def commands_try_next_def split: list.splits)
qed

lemma reachable_shutdown: "tsm_reachable pf m \<Longrightarrow> shutdown_ok m"
proof (induction rule: reachable_rule)
  case (new i k w)
  show ?case by (simp add: shutdown_ok_def machine_new_def Let_def split: prod.splits)
next
  case (loop m m')
  then show ?case using loop_step_shutdown by blast
next
  case (env m cs cl li)
  then show ?case by (auto simp: shutdown_ok_def)
qed

lemma shutdown_steps:
  "(loop_step pf ^^ n) m m' \<Longrightarrow> shutdown_ok m \<Longrightarrow> mc_done m \<Longrightarrow>
     shutdown_ok m' \<and> mc_done m' \<and> n + shutdown_rank m' \<le> shutdown_rank m"
proof (induction n arbitrary: m')
  case (Suc n)
  then obtain m1 where m1: "(loop_step pf ^^ n) m m1" "loop_step pf m1 m'" by auto
  then have "shutdown_ok m1" "mc_done m1" "n + shutdown_rank m1 \<le> shutdown_rank m"
    using Suc by auto
  then show ?case using loop_step_shutdown [OF m1(2)] by auto
qed simp

section \<open>The loop never panics\<close>

text \<open>Every event that a state waits for is handled.\<close>

lemma command_handled: "\<exists>r. handle_event pf st (EvCommand c) s = Some r"
  by (cases st) (simp_all add: handle_event_def disconnecting_handle_event_def)

lemma event_handled: "waits_for_events st \<Longrightarrow> \<exists>r. handle_event pf st (EvEvent e) s = Some r"
  by (cases st) (simp_all add: handle_event_def waits_for_events_def)

lemma close_handled:
  "waits_for_close st \<or> (\<exists>d. st = DisconnectingState d) \<Longrightarrow> \<exists>r. handle_event pf st (EvClose e) s = Some r"
  by (cases st) (auto simp: handle_event_def waits_for_close_def disconnecting_handle_event_def)

lemma run_once_total:
  assumes "mc_current_state m = Some st" and "\<exists>r. handle_event pf st result (mc_tsm m) = Some r"
  shows "\<exists>m'. run_once pf result m = Some m'"
proof -
  obtain cq s where "handle_event pf st result (mc_tsm m) = Some (cq, s)"
    using assms(2) by (metis surj_pair)
  then show ?thesis using assms(1) by (cases cq) (simp_all add: run_once_def)
qed

lemma winding_down_progress:
  assumes "shutdown_ok m" and "mc_running m" and "mc_done m"
  shows "\<exists>m'. loop_step pf m m'"
proof -
  obtain st where st: "mc_current_state m = Some st" and wind: "winding_down st"
    using assms by (auto simp: shutdown_ok_def)
  have end': "commands_next m = Some (None, m)" using assms(3) by (simp add: commands_next_def)
  have command: ?thesis if "waits_for_commands st True"
    using run_once_total [OF st command_handled] step_command [OF assms(2) st _ end'] that assms(3) by metis
  have close: ?thesis if "waits_for_close st"
    using run_once_total [OF st close_handled] step_close [OF assms(2) st] that by metis
  show ?thesis
  proof (cases st)
    case (DisconnectingState d)
    obtain c m1 where c: "commands_try_next m = (c, m1)" by (metis surj_pair)
    show ?thesis
    proof (cases "dg_close_terminated d")
      case True
      have "\<exists>m'. run_once pf (EvClose (Inr None)) m = Some m'"
        using run_once_total [OF st close_handled] DisconnectingState by blast
      then show ?thesis
        using step_close_terminated [OF assms(2) _ True c, of pf] st DisconnectingState True assms(3)
        by (auto simp: disconnecting_result_def)
    qed (use close DisconnectingState in \<open>simp add: waits_for_close_def\<close>)
  qed (use command wind in \<open>simp_all add: waits_for_commands_def winding_down_def\<close>)
qed

lemma end_of_commands_delivered:
  assumes "mc_running m" and "mc_current_state m = Some st" and "\<not> mc_done m" and "mc_closed m"
    and "mc_commands m = []" and "\<And>d. st = DisconnectingState d \<Longrightarrow> \<not> dg_close_terminated d"
  shows "\<exists>m'. loop_step pf m m' \<and> mc_done m'"
proof -
  let ?m = "m\<lparr>mc_done := True\<rparr>"
  have end': "commands_next m = Some (None, ?m)" using assms by (simp add: commands_next_def)
  have "waits_for_commands st (mc_done m)"
    using assms by (cases st) (simp_all add: waits_for_commands_def)
  moreover obtain m' where m': "run_once pf (EvCommand None) ?m = Some m'"
    using run_once_total [of ?m st pf "EvCommand None", OF _ command_handled] assms(2) by auto
  ultimately have "loop_step pf m m'" using step_command assms(1,2) end' by blast
  moreover have "mc_done m'" using m' by (cases rule: run_once_cases) simp
  ultimately show ?thesis by blast
qed

end
