(* ===== verification/Tunnel_Monitor.thy ===== *)
theory Tunnel_Monitor
  imports Net_Types
begin

text \<open>
  The thread that runs a tunnel for the connecting state
  (\<^verbatim>\<open>src/talpid-core/src/tunnel_state_machine/connecting_state.rs\<close>), the start of the tunnel monitor
  (\<^verbatim>\<open>src/talpid-core/src/tunnel/mod.rs\<close>) and the errors of the WireGuard tunnel
  (\<^verbatim>\<open>src/talpid-wireguard/src/lib.rs\<close>). What becomes of the thread is the reason it sends on
  the close channel: \<open>None\<close> asks the state machine to try again, \<open>Some\<close> to block.
  Errors of other crates are the parameter \<open>'e\<close>.
\<close>

section \<open>Errors\<close>

datatype 'e wg_tunnel_error =
  RecoverableStartWireguardError 'e
| FatalStartWireguardError 'e
| StopWireguardError 'e
| StatsError 'e
| GetConfigError
| SetConfigError
| FdDuplicationError 'e
| SetupTunnelDevice 'e
| InterfaceNameError 'e
| LoggingError 'e
| StartDaita 'e
| DaitaNotSupported

datatype 'e wg_error =
  SetupRoutingError 'e
| TimeoutError
| WireguardConfigError 'e
| TunnelError "'e wg_tunnel_error"
| ObfuscationError 'e
| ConnectivityMonitorError 'e
| EphemeralPeerNegotiationError 'e

definition routing_is_recoverable :: "'e \<Rightarrow> bool" where
  "routing_is_recoverable e = False"

definition wg_is_recoverable :: "'e wg_error \<Rightarrow> bool" where
  "wg_is_recoverable error =
     (case error of
        ObfuscationError _ \<Rightarrow> True
      | EphemeralPeerNegotiationError _ \<Rightarrow> True
      | TunnelError (RecoverableStartWireguardError _) \<Rightarrow> True
      | SetupRoutingError e \<Rightarrow> routing_is_recoverable e
      | _ \<Rightarrow> False)"

definition ovpn_is_recoverable :: "'e \<Rightarrow> bool" where
  "ovpn_is_recoverable e = False"

datatype 'e tunnel_error =
  EnableIpv6Error
| UnsupportedPlatform
| RotateLogError 'e
| OpenVpnTunnelMonitoringError 'e
| WireguardTunnelMonitoringError "'e wg_error"
| AssignMtuError

definition error_state_cause_from :: "'e tunnel_error \<Rightarrow> error_state_cause" where
  "error_state_cause_from error =
     (case error of EnableIpv6Error \<Rightarrow> Ipv6Unavailable | _ \<Rightarrow> StartTunnelError)"

definition is_recoverable :: "'e tunnel_error \<Rightarrow> bool" where
  "is_recoverable error =
     (case error of
        WireguardTunnelMonitoringError e \<Rightarrow> wg_is_recoverable e
      | OpenVpnTunnelMonitoringError e \<Rightarrow> ovpn_is_recoverable e
      | _ \<Rightarrow> False)"

definition should_retry :: "'e tunnel_error \<Rightarrow> u32 \<Rightarrow> bool" where
  "should_retry error retry_attempt = is_recoverable error"

section \<open>Starting the monitor\<close>

text \<open>
  What the start depends on: the contents of the system's switch for IPv6 if it can be read, the
  rotation of a log file, and the monitors of the two kinds of tunnel with the results of
  waiting for them.
\<close>

type_synonym 'e monitor = "('e tunnel_error, unit) result"

record 'e monitor_env =
  me_disable_ipv6 :: "string option"
  me_rotate_log :: "string \<Rightarrow> ('e, unit) result"
  me_start_wireguard :: "wg_tunnel_parameters \<Rightarrow> string option \<Rightarrow> ('e wg_error, ('e wg_error, unit) result) result"
  me_start_openvpn :: "ovpn_tunnel_parameters \<Rightarrow> string option \<Rightarrow> ('e, ('e, unit) result) result"

definition OPENVPN_LOG_FILENAME :: string where "OPENVPN_LOG_FILENAME = ''openvpn.log''"
definition WIREGUARD_LOG_FILENAME :: string where "WIREGUARD_LOG_FILENAME = ''wireguard.log''"

definition is_ipv6_enabled_in_os :: "'e monitor_env \<Rightarrow> bool" where
  "is_ipv6_enabled_in_os env =
     (case me_disable_ipv6 env of Some disable_ipv6 \<Rightarrow> str_trim disable_ipv6 = ''0'' | None \<Rightarrow> False)"

definition ensure_ipv6_can_be_used_if_enabled ::
  "'e monitor_env \<Rightarrow> tunnel_parameters \<Rightarrow> ('e tunnel_error, unit) result" where
  "ensure_ipv6_can_be_used_if_enabled env params =
     (if enable_ipv6 (get_generic_options params) then
        (if is_ipv6_enabled_in_os env then Inr () else Inl EnableIpv6Error)
      else Inr ())"

text \<open>\<^verbatim>\<open>Path::join\<close> with a relative file name.\<close>

definition path_join :: "string \<Rightarrow> string \<Rightarrow> string" where
  "path_join dir file = (if dir = [] \<or> last dir = CHR ''/'' then dir @ file else dir @ ''/'' @ file)"

definition prepare_tunnel_log_file ::
  "'e monitor_env \<Rightarrow> tunnel_parameters \<Rightarrow> string option \<Rightarrow> ('e tunnel_error, string option) result"
where
  "prepare_tunnel_log_file env params log_dir =
     (case log_dir of
        Some log_dir \<Rightarrow>
          (case params of
             OpenVpn _ \<Rightarrow>
               (let tunnel_log = path_join log_dir OPENVPN_LOG_FILENAME
                in case me_rotate_log env tunnel_log of
                     Inl e \<Rightarrow> Inl (RotateLogError e)
                   | Inr ok \<Rightarrow> Inr (Some tunnel_log))
           | Wireguard _ \<Rightarrow> Inr (Some (path_join log_dir WIREGUARD_LOG_FILENAME)))
      | None \<Rightarrow> Inr None)"

text \<open>The monitor is what waiting for it gives.\<close>

definition monitor_start ::
  "'e monitor_env \<Rightarrow> tunnel_parameters \<Rightarrow> string option \<Rightarrow> ('e tunnel_error, 'e monitor) result" where
  "monitor_start env params log_dir =
     and_then (ensure_ipv6_can_be_used_if_enabled env params) (\<lambda>_.
     and_then (prepare_tunnel_log_file env params log_dir) (\<lambda>log_file.
       (case params of
          OpenVpn config \<Rightarrow>
            (case me_start_openvpn env config log_file of
               Inl e \<Rightarrow> Inl (OpenVpnTunnelMonitoringError e)
             | Inr waited \<Rightarrow> Inr (map_sum OpenVpnTunnelMonitoringError id waited))
        | Wireguard config \<Rightarrow>
            (case me_start_wireguard env config log_file of
               Inl e \<Rightarrow> Inl (WireguardTunnelMonitoringError e)
             | Inr waited \<Rightarrow> Inr (map_sum WireguardTunnelMonitoringError id waited)))))"

section \<open>Waiting for a WireGuard tunnel\<close>

datatype 'e close_msg =
  Stop
| EphemeralPeerNegotiationTimeout
| PingErr
| SetupError "'e wg_error"
| ObfuscatorExpired
| ObfuscatorFailed "'e wg_error"

text \<open>\<open>None\<close>: every sender is gone.\<close>

definition wg_wait :: "'e close_msg option \<Rightarrow> ('e wg_error, unit) result" where
  "wg_wait received =
     (case received of
        Some EphemeralPeerNegotiationTimeout \<Rightarrow> Inl TimeoutError
      | Some PingErr \<Rightarrow> Inl TimeoutError
      | Some Stop \<Rightarrow> Inr ()
      | Some ObfuscatorExpired \<Rightarrow> Inr ()
      | Some (SetupError error) \<Rightarrow> Inl error
      | Some (ObfuscatorFailed error) \<Rightarrow> Inl error
      | None \<Rightarrow> Inr ())"

section \<open>The thread\<close>

definition wait_for_tunnel_monitor :: "'e monitor \<Rightarrow> u32 \<Rightarrow> error_state_cause option" where
  "wait_for_tunnel_monitor monitor retry_attempt =
     (case monitor of
        Inr ok \<Rightarrow> None
      | Inl (WireguardTunnelMonitoringError TimeoutError) \<Rightarrow> None
      | Inl (WireguardTunnelMonitoringError e) \<Rightarrow>
          (if \<not> should_retry (WireguardTunnelMonitoringError e) retry_attempt
           then Some StartTunnelError else None)
      | Inl error \<Rightarrow> None)"

definition start_block_reason ::
  "('e tunnel_error, 'e monitor) result \<Rightarrow> u32 \<Rightarrow> error_state_cause option" where
  "start_block_reason started retry_attempt =
     (case started of
        Inr monitor \<Rightarrow> wait_for_tunnel_monitor monitor retry_attempt
      | Inl error \<Rightarrow>
          (if should_retry error retry_attempt then None else Some (error_state_cause_from error)))"

text \<open>Times are in milliseconds.\<close>

definition MIN_TUNNEL_ALIVE_TIME :: nat where "MIN_TUNNEL_ALIVE_TIME = 1000"

definition checked_sub :: "nat \<Rightarrow> nat \<Rightarrow> nat option" where
  "checked_sub a b = (if b \<le> a then Some (a - b) else None)"

definition alive_sleep :: "error_state_cause option \<Rightarrow> nat \<Rightarrow> nat" where
  "alive_sleep block_reason elapsed =
     (if block_reason = None then
        (case checked_sub MIN_TUNNEL_ALIVE_TIME elapsed of Some remaining_time \<Rightarrow> remaining_time | None \<Rightarrow> 0)
      else 0)"

text \<open>What the thread sends, and how long it slept before.\<close>

definition tunnel_thread ::
  "'e monitor_env \<Rightarrow> tunnel_parameters \<Rightarrow> string option \<Rightarrow> u32 \<Rightarrow> nat \<Rightarrow>
    error_state_cause option \<times> nat" where
  "tunnel_thread env params log_dir retry_attempt elapsed =
     (let block_reason = start_block_reason (monitor_start env params log_dir) retry_attempt
      in (block_reason, alive_sleep block_reason elapsed))"

end
