(* ===== verification/Tunnel_Properties.thy ===== *)
theory Tunnel_Properties
  imports Firewall_Properties Linux_Host Tunnel_Behaviour Tunnel_Monitor
begin

text \<open>
  The properties of the tunnel state machine: what is filtered in which state, what it announces,
  how it answers, and how it ends. Those that speak of the firewall hold for every platform
  with the contract \<open>tsm_platform\<close>, of which the Linux host is one.
\<close>

section \<open>An example run\<close>

definition example_params :: tunnel_parameters where
  "example_params = OpenVpn
     \<lparr>ov_config = \<lparr>oc_endpoint = endpoint_new (V4 (ipv4_addr 185 65 135 1)) 1194 Udp,
        oc_username = ''user'', oc_password = ''m''\<rparr>,
      ov_mssfix = None, ov_generic_options = \<lparr>enable_ipv6 = False\<rparr>, ov_proxy = None, ov_fwmark = 1\<rparr>"

definition example_initial :: initial_tunnel_state where
  "example_initial =
     \<lparr>is_allow_lan = True, is_lockdown_mode = LockdownDisabled,
      is_dns_config = DnsDefault, is_allowed_endpoint = example_peer, is_reset_firewall = False\<rparr>"

abbreviation "example_platform \<equiv> sim_platform example_firewall example_params"
abbreviation "example_holds \<equiv> linux_holds sim_tables nft_eval example_firewall"

definition example_start :: "sim_kernel machine" where
  "example_start = machine_new example_platform example_initial PresumeOnline example_kernel"

definition example_tsm :: "sim_kernel \<Rightarrow> sim_kernel tsm" where
  "example_tsm w =
     \<lparr>ts_allow_lan = True, ts_lockdown_mode = LockdownDisabled, ts_connectivity = PresumeOnline,
      ts_dns_config = DnsDefault, ts_allowed_endpoint = example_peer,
      ts_connectivity_check_was_enabled = None, ts_sent = [], ts_world = w\<rparr>"

lemma example_start_eq:
  "example_start =
     \<lparr>mc_current_state = Some DisconnectedState, mc_commands = [], mc_closed = False,
      mc_done = False, mc_listening = True, mc_running = True, mc_transitions = [],
      mc_tsm = example_tsm example_kernel\<rparr>"
  by (simp add: example_start_def machine_new_def disconnected_enter_def example_initial_def
      disconnected_set_firewall_policy_def lockdown_bool_def reset_connectivity_check_def
      disconnected_transition_def example_tsm_def)

definition example_connecting :: connecting_state where
  "example_connecting =
     \<lparr>cg_tunnel_parameters = example_params, cg_tunnel_metadata = None,
      cg_allowed_tunnel_traffic = TrafficNone, cg_close_terminated = False, cg_retry_attempt = 0\<rparr>"

definition example_established :: connected_state where
  "example_established =
     \<lparr>cd_metadata = example_tunnel, cd_tunnel_parameters = example_params, cd_close_terminated = False\<rparr>"

lemma example_connecting_applies:
  assumes "sim_env w = example_env"
  obtains w' where "pf_apply_policy example_platform
      (connecting_policy example_params None TrafficNone (example_tsm v)) w = (True, w')"
    and "sim_env w' = example_env"
proof -
  let ?p = "connecting_policy example_params None TrafficNone (example_tsm v)"
  obtain b where "finalize (sim_env w) ?p (fw_fwmark example_firewall) = Inr b"
    using finalize_ok [of example_env ?p] by (auto simp: assms example_env_def connecting_policy_def
        needed_interfaces_def example_firewall_def)
  from sim_apply_policy [OF this] show thesis using that assms by auto
qed

lemma example_connected_applies:
  assumes "sim_env w = example_env"
  obtains w' where "pf_apply_policy example_platform
      (get_firewall_policy example_established (example_tsm v)) w = (True, w')"
    and "sim_env w' = example_env"
proof -
  let ?p = "get_firewall_policy example_established (example_tsm v)"
  obtain b where "finalize (sim_env w) ?p (fw_fwmark example_firewall) = Inr b"
    using finalize_ok [of example_env ?p] by (auto simp: assms example_env_def get_firewall_policy_def
        needed_interfaces_def example_firewall_def example_established_def example_tunnel_def)
  from sim_apply_policy [OF this] show thesis using that assms by auto
qed

lemma example_tsm_world [simp]:
  "ts_world (example_tsm w) = w" "example_tsm w\<lparr>ts_world := w'\<rparr> = example_tsm w'"
  by (simp_all add: example_tsm_def)

lemma example_connect:
  obtains w tr where "sim_env w = example_env"
    and "handle_event example_platform DisconnectedState (EvCommand (Some CmdConnect))
      (example_tsm example_kernel) =
      Some (NewState (ConnectingState example_connecting) (TransConnecting tr), example_tsm w)"
proof -
  obtain w where w: "pf_apply_policy example_platform
      (connecting_policy example_params None TrafficNone (example_tsm example_kernel)) example_kernel =
      (True, w)" and env: "sim_env w = example_env"
    by (rule example_connecting_applies [of example_kernel]) (simp add: example_kernel_def)
  have "disable_connectivity_check example_platform (example_tsm example_kernel) = example_tsm example_kernel"
    by (simp add: disable_connectivity_check_def example_tsm_def on_world_def sim_services_def)
  then have "connecting_set_firewall_policy example_platform example_params None TrafficNone
      (example_tsm example_kernel) = (Inr (), example_tsm w)"
    using w by (simp add: connecting_set_firewall_policy_def on_world_def)
  then show thesis
    by (intro that [OF env]) (simp add: handle_event_def disconnected_handle_event_def
        connecting_enter_def on_world_def sim_services_def start_tunnel_def new_state_def
        example_connecting_def INITIAL_ALLOWED_TUNNEL_TRAFFIC_def
        example_tsm_def [of w] example_tsm_def [of example_kernel])
qed

lemma example_up:
  assumes "sim_env v = example_env"
  obtains w tr where
    "handle_event example_platform (ConnectingState example_connecting)
      (EvEvent (Some (EvUp example_tunnel))) (example_tsm v) =
      Some (NewState (ConnectedState example_established) (TransConnected tr), example_tsm w)"
proof -
  obtain w where "pf_apply_policy example_platform
      (get_firewall_policy example_established (example_tsm v)) v = (True, w)"
    by (rule example_connected_applies [OF assms])
  then have "connected_set_firewall_policy example_platform example_established (example_tsm v) =
      (Inr (), example_tsm w)"
    by (simp add: connected_set_firewall_policy_def on_world_def)
  then show thesis
    by (intro that) (simp add: handle_event_def connecting_handle_event_def
        connecting_handle_tunnel_events_def connected_enter_def new_state_def set_dns_def
        on_world_def sim_services_def example_connecting_def
        example_established_def [symmetric] Let_def)
qed

lemma example_run:
  obtains m w trs where "tsm_reachable example_platform m" and "mc_running m"
    and "mc_current_state m = Some (ConnectedState example_established)"
    and "mc_commands m = []" and "\<not> mc_closed m" and "\<not> mc_done m" and "mc_listening m"
    and "mc_tsm m = example_tsm w" and "mc_transitions m \<noteq> []"
    and "phase_announced (last (mc_transitions m)) = PConnected"
proof -
  let ?m1 = "example_start\<lparr>mc_commands := [CmdConnect]\<rparr>"
  have "tsm_reachable example_platform example_start"
    unfolding example_start_def by (rule reachable_new)
  then have m1: "tsm_reachable example_platform ?m1"
    by (rule reachable_step) (use env_send [of example_start example_platform CmdConnect] in
        \<open>simp add: example_start_eq\<close>)
  obtain w tr where env: "sim_env w = example_env"
    and h: "handle_event example_platform DisconnectedState (EvCommand (Some CmdConnect))
      (example_tsm example_kernel) =
      Some (NewState (ConnectingState example_connecting) (TransConnecting tr), example_tsm w)"
    by (rule example_connect)
  let ?m2 = "example_start\<lparr>mc_current_state := Some (ConnectingState example_connecting),
      mc_transitions := [TransConnecting tr], mc_tsm := example_tsm w\<rparr>"
  have "loop_step example_platform ?m1 ?m2"
    by (rule step_command [where c = "Some CmdConnect" and ?m1.0 = example_start and st = DisconnectedState])
      (use h in \<open>simp_all add: example_start_eq waits_for_commands_def commands_next_def run_once_def\<close>)
  then have m2: "tsm_reachable example_platform ?m2"
    by (intro reachable_step [OF m1] loop)
  obtain v tr' where h2: "handle_event example_platform (ConnectingState example_connecting)
      (EvEvent (Some (EvUp example_tunnel))) (example_tsm w) =
      Some (NewState (ConnectedState example_established) (TransConnected tr'), example_tsm v)"
    by (rule example_up [OF env])
  let ?m3 = "?m2\<lparr>mc_current_state := Some (ConnectedState example_established),
      mc_transitions := [TransConnecting tr, TransConnected tr'], mc_tsm := example_tsm v\<rparr>"
  have "loop_step example_platform ?m2 ?m3"
    by (rule step_event [where e = "Some (EvUp example_tunnel)" and st = "ConnectingState example_connecting"])
      (use h2 in \<open>simp_all add: example_start_eq waits_for_events_def run_once_def\<close>)
  then have "tsm_reachable example_platform ?m3"
    by (intro reachable_step [OF m2] loop)
  then show thesis by (rule that) (simp_all add: example_start_eq)
qed

section \<open>Filtering\<close>

text \<open>
  C12. Whenever the machine is connected, the policy in force is the connected policy of the tunnel
  it is connected to and of the current settings: peers, tunnel metadata, whether the local
  network is allowed, and the DNS servers resolved from the current DNS configuration. This
  holds after every sequence of commands, tunnel events and failures of the platform.
\<close>

theorem connected_enforces_current_policy:
  assumes "tsm_platform pf holds" and "tsm_reachable pf m"
    and "mc_current_state m = Some (ConnectedState c)"
  shows "holds (ts_world (mc_tsm m)) (get_firewall_policy c (mc_tsm m))"
  using tsm_platform.reachable_ok [OF assms(1,2)] assms(3) by (simp add: machine_ok_def state_inv_def)

theorem connected_enforces_current_policy_witness:
  "\<exists>m. tsm_reachable example_platform m \<and>
     mc_current_state m = Some (ConnectedState example_established) \<and>
     example_holds (ts_world (mc_tsm m)) (get_firewall_policy example_established (mc_tsm m))"
proof -
  obtain m where m: "tsm_reachable example_platform m"
    and c: "mc_current_state m = Some (ConnectedState example_established)"
    by (rule example_run)
  from connected_enforces_current_policy [OF sim_host.machine.tsm_platform_axioms m c] m c
  show ?thesis by blast
qed

text \<open>
  C13. What the machine announces is true. While it runs, the last announced transition describes
  its state, and if that transition promises protection (connecting, connected, disconnecting,
  or an error that is blocking) then a firewall policy is in force.
\<close>

theorem announced_protection_is_real:
  assumes "tsm_platform pf holds" and "tsm_reachable pf m"
    and "mc_running m" and "mc_transitions m \<noteq> []"
    and "tr = last (mc_transitions m)"
  shows "\<exists>st. mc_current_state m = Some st \<and> phase_of st = phase_announced tr \<and>
    (phase_announced tr \<in> {PConnecting, PConnected, PDisconnecting} \<or>
     (\<exists>info. tr = TransError info \<and> is_blocking info) \<longrightarrow>
     (\<exists>policy. holds (ts_world (mc_tsm m)) policy))"
proof -
  have ok: "machine_ok holds m" by (rule tsm_platform.reachable_ok [OF assms(1,2)])
  then obtain st where st: "mc_current_state m = Some st"
    using assms(3) by (cases "mc_current_state m") (simp_all add: machine_ok_def)
  with ok have inv: "state_inv holds st (mc_tsm m)" and report: "report_inv holds tr st (mc_tsm m)"
    using assms(3-5) by (simp_all add: machine_ok_def)
  have phase: "phase_of st = phase_announced tr"
    using report by (cases tr; cases st) (simp_all add: report_inv_def)
  have protected: "\<exists>policy. holds (ts_world (mc_tsm m)) policy"
    if "phase_announced tr \<in> {PConnecting, PConnected, PDisconnecting} \<or>
      (\<exists>info. tr = TransError info \<and> is_blocking info)"
    using that
  proof
    assume "\<exists>info. tr = TransError info \<and> is_blocking info"
    then obtain info where "tr = TransError info" "is_blocking info" by blast
    then show ?thesis using report by (cases st) (simp_all add: report_inv_def filtered_def)
  next
    assume "phase_announced tr \<in> {PConnecting, PConnected, PDisconnecting}"
    with phase have "filtered holds (mc_tsm m)"
      by (intro state_inv_filtered [OF inv]) auto
    then show ?thesis by (simp add: filtered_def)
  qed
  show ?thesis by (intro exI [of _ st] conjI impI st phase) (rule protected)
qed

theorem announced_protection_is_real_witness:
  "\<exists>m. tsm_reachable example_platform m \<and> mc_running m \<and> mc_transitions m \<noteq> [] \<and>
     phase_announced (last (mc_transitions m)) = PConnected \<and>
     (\<exists>policy. example_holds (ts_world (mc_tsm m)) policy)"
proof -
  obtain m where m: "tsm_reachable example_platform m" "mc_running m" "mc_transitions m \<noteq> []"
    and announced: "phase_announced (last (mc_transitions m)) = PConnected"
    by (rule example_run)
  from announced_protection_is_real [OF sim_host.machine.tsm_platform_axioms m refl] m announced
  show ?thesis by auto
qed

text \<open>
  C14. The kill switch: no step of the machine or its environment removes the filter, unless it
  leaves the machine disconnected with lockdown mode off. In particular, in lockdown mode
  traffic that was filtered stays filtered whatever happens, and so it does when the machine ends.
\<close>

theorem filter_is_kept:
  assumes "tsm_platform pf holds" and "tsm_reachable pf m" and "tsm_step pf m m'"
    and "holds (ts_world (mc_tsm m)) policy"
    and "mc_current_state m' \<noteq> Some DisconnectedState \<or> lockdown_bool (ts_lockdown_mode (mc_tsm m'))"
  shows "\<exists>policy'. holds (ts_world (mc_tsm m')) policy'"
  using assms(3)
proof (cases rule: tsm_step.cases)
  case loop
  then show ?thesis
    using tsm_platform.loop_step_ok [OF assms(1) loop tsm_platform.reachable_ok [OF assms(1,2)]]
      assms(4,5) by (auto simp: keeps_filter_def filtered_def)
qed (use assms(4) in auto)

theorem filter_is_kept_witness:
  "\<exists>m policy. tsm_reachable example_platform m \<and> tsm_step example_platform m (m\<lparr>mc_closed := True\<rparr>) \<and>
     example_holds (ts_world (mc_tsm (m\<lparr>mc_closed := True\<rparr>))) policy"
proof -
  obtain m where m: "tsm_reachable example_platform m"
    and c: "mc_current_state m = Some (ConnectedState example_established)"
    by (rule example_run)
  note step = env_drop_handle [of example_platform m]
  have "example_holds (ts_world (mc_tsm m)) (get_firewall_policy example_established (mc_tsm m))"
    using sim_host.machine.reachable_ok [OF m] c by (simp add: machine_ok_def state_inv_def)
  from filter_is_kept [OF sim_host.machine.tsm_platform_axioms m step this] c m step
  show ?thesis by auto
qed

text \<open>
  C15. When the tunnel has closed and nothing is to follow, the machine is disconnected and says
  whether lockdown mode is on. If it is on, the blocking policy of the current settings is in
  force when the firewall could be set; if it is off, no policy is in force when the firewall
  could be reset.
\<close>

theorem disconnected_settles_firewall:
  assumes "tsm_platform pf holds" and "dg_after_disconnect d = AfterNothing"
  shows "\<exists>s'. handle_event pf (DisconnectingState d) (EvClose (Inr None)) s =
      Some (NewState DisconnectedState (TransDisconnected (lockdown_bool (ts_lockdown_mode s))), s') \<and>
    (if lockdown_bool (ts_lockdown_mode s) then
       (let policy = PolicyBlocked (ts_allow_lan s) (Some (ts_allowed_endpoint s))
        in fst (pf_apply_policy pf policy (ts_world s)) \<longrightarrow> holds (ts_world s') policy)
     else fst (pf_reset_policy pf (ts_world s)) \<longrightarrow> (\<forall>policy. \<not> holds (ts_world s') policy))"
proof -
  let ?s1 = "disconnected_set_firewall_policy pf True s"
  let ?s2 = "reset_connectivity_check pf ?s1"
  have frame: "ts_lockdown_mode ?s2 = ts_lockdown_mode s"
    by (rule settings_fields) (simp add: tsm_simps)
  have world: "holds (ts_world ?s2) = holds (ts_world ?s1)"
    by (rule tsm_platform.helper_holds(2) [OF assms(1)])
  have "handle_event pf (DisconnectingState d) (EvClose (Inr None)) s =
      Some (NewState DisconnectedState (TransDisconnected (lockdown_bool (ts_lockdown_mode s))), ?s2)"
    by (simp add: handle_event_def disconnecting_handle_event_def block_reason_of_def assms(2)
        disconnecting_after_disconnect_def disconnected_enter_def new_state_def
        disconnected_transition_def frame Let_def)
  moreover have "holds (ts_world ?s2) (PolicyBlocked (ts_allow_lan s) (Some (ts_allowed_endpoint s)))"
    if "lockdown_bool (ts_lockdown_mode s)" and "fst (pf_apply_policy pf
      (PolicyBlocked (ts_allow_lan s) (Some (ts_allowed_endpoint s))) (ts_world s))"
    using that tsm_platform.apply_ok [OF assms(1)] unfolding world
    by (auto simp: disconnected_set_firewall_policy_def on_world_snd prod_eq_iff)
  moreover have "\<not> holds (ts_world ?s2) policy"
    if "\<not> lockdown_bool (ts_lockdown_mode s)" and "fst (pf_reset_policy pf (ts_world s))" for policy
    using that tsm_platform.reset_ok [OF assms(1)] unfolding world
    by (auto simp: disconnected_set_firewall_policy_def on_world_snd prod_eq_iff)
  ultimately show ?thesis by (auto simp: Let_def)
qed

theorem disconnected_settles_firewall_witness:
  "\<exists>s'. handle_event example_platform
      (DisconnectingState \<lparr>dg_close_terminated = False, dg_after_disconnect = AfterNothing\<rparr>)
      (EvClose (Inr None)) (example_tsm example_kernel) =
      Some (NewState DisconnectedState (TransDisconnected False), s') \<and>
    \<not> example_holds (ts_world s') example_connected"
proof -
  have "fst (pf_reset_policy example_platform example_kernel)"
    by (simp add: linux_platform_def reset_policy_def send_and_process_def sim_ops_def succeeded_def)
  moreover have "\<not> lockdown_bool (ts_lockdown_mode (example_tsm example_kernel))"
    by (simp add: example_tsm_def lockdown_bool_def)
  ultimately show ?thesis
    using disconnected_settles_firewall [OF sim_host.machine.tsm_platform_axioms,
        of "\<lparr>dg_close_terminated = False, dg_after_disconnect = AfterNothing\<rparr>" example_firewall
          example_params "example_tsm example_kernel"] by auto
qed

section \<open>States and announcements\<close>



text \<open>
  C17. A tunnel is started and kept only while there is connectivity: a machine that is connecting
  or connected is online.
\<close>

theorem no_tunnel_while_offline:
  assumes "tsm_reachable pf m" and "mc_current_state m = Some st"
    and "phase_of st \<in> {PConnecting, PConnected}"
  shows "is_online (ts_connectivity (mc_tsm m))"
  using reachable_online [OF assms(1)] assms(2,3)
  by (cases st) (auto simp: state_invariant_def online_state_def)

theorem no_tunnel_while_offline_witness:
  "\<exists>m. tsm_reachable example_platform m \<and>
     mc_current_state m = Some (ConnectedState example_established) \<and>
     is_online (ts_connectivity (mc_tsm m))"
proof -
  obtain m where m: "tsm_reachable example_platform m"
    and c: "mc_current_state m = Some (ConnectedState example_established)"
    by (rule example_run)
  with no_tunnel_while_offline [OF m c] show ?thesis by auto
qed

section \<open>Commands\<close>

text \<open>
  C18. Handling an event sends exactly the answers it owes: one on the channel of the command, if
  the command has one, and none otherwise. The only exception is a new DNS configuration that
  arrives while connected and for which the firewall cannot be updated: it gets no answer.
\<close>

theorem commands_are_answered:
  assumes "handle_event pf st result s = Some (cq, s')"
  shows "answers s' = answers s @
    (case result of EvCommand cmd \<Rightarrow> if unanswered pf st cmd s then [] else expected cmd | _ \<Rightarrow> [])"
  by (rule handle_event_answers [OF assms])

theorem commands_are_answered_witness:
  "\<exists>cq s'. handle_event example_platform DisconnectedState (EvCommand (Some (CmdDns DnsDefault 7)))
      (example_tsm example_kernel) = Some (cq, s') \<and> answers s' = [7]"
proof -
  obtain cq s' where h: "handle_event example_platform DisconnectedState
      (EvCommand (Some (CmdDns DnsDefault 7))) (example_tsm example_kernel) = Some (cq, s')"
    using command_handled by (metis surj_pair)
  have "answers (example_tsm example_kernel) = []"
    by (simp add: answers_def example_tsm_def List.map_filter_def)
  then have "answers s' = [7]"
    using commands_are_answered [OF h] by (simp add: unanswered_def expected_def)
  with h show ?thesis by blast
qed



section \<open>Shutting down\<close>

text \<open>
  C20. Once the machine has seen that every sender of commands is gone, it runs no tunnel, its loop
  makes at most three more passes, and as long as it runs it can make one. So it ends as soon
  as the tunnel that is being closed has closed.
\<close>

theorem shutdown_terminates:
  assumes "tsm_reachable pf m" and "mc_done m" and "(loop_step pf ^^ n) m m'"
  shows "n \<le> 3 \<and> (\<forall>st. mc_current_state m' = Some st \<longrightarrow> phase_of st \<notin> {PConnecting, PConnected}) \<and>
    (mc_running m' \<longrightarrow> (\<exists>m''. loop_step pf m' m''))"
proof -
  have "shutdown_ok m'" "mc_done m'" "n \<le> shutdown_rank m"
    using shutdown_steps [OF assms(3) reachable_shutdown [OF assms(1)] assms(2)] by auto
  moreover have "shutdown_rank m \<le> 3"
    by (simp add: shutdown_rank_def split: option.splits tunnel_state.splits)
  moreover have "phase_of st \<notin> {PConnecting, PConnected}" if "winding_down st" for st
    using that by (cases st) (simp_all add: winding_down_def)
  ultimately show ?thesis
    using winding_down_progress by (fastforce simp: shutdown_ok_def)
qed

text \<open>
  The end of the command channel is always delivered: when every sender is gone and every
  command has been taken, a running machine can take the end, in every state it can be in.
\<close>

theorem end_of_commands_is_seen:
  assumes "tsm_platform pf holds" and "tsm_reachable pf m" and "mc_running m"
    and "mc_closed m" and "mc_commands m = []" and "\<not> mc_done m"
  shows "\<exists>m'. loop_step pf m m' \<and> mc_done m'"
proof -
  have ok: "machine_ok holds m" by (rule tsm_platform.reachable_ok [OF assms(1,2)])
  then obtain st where st: "mc_current_state m = Some st" and inv: "state_inv holds st (mc_tsm m)"
    using assms(3) by (cases "mc_current_state m") (simp_all add: machine_ok_def)
  then show ?thesis
    by (intro end_of_commands_delivered [OF assms(3) st assms(6,4,5)]) (simp add: state_inv_def)
qed

theorem end_of_commands_is_seen_witness:
  "\<exists>m m'. tsm_reachable example_platform m \<and> mc_closed m \<and>
     mc_current_state m = Some (ConnectedState example_established) \<and>
     loop_step example_platform m m' \<and> mc_done m'"
proof -
  obtain m where m: "tsm_reachable example_platform m" "mc_running m" "mc_commands m = []" "\<not> mc_done m"
    and c: "mc_current_state m = Some (ConnectedState example_established)"
    by (rule example_run)
  let ?m = "m\<lparr>mc_closed := True\<rparr>"
  have r: "tsm_reachable example_platform ?m"
    by (rule reachable_step [OF m(1) env_drop_handle])
  have "\<exists>m'. loop_step example_platform ?m m' \<and> mc_done m'"
    by (rule end_of_commands_is_seen [OF sim_host.machine.tsm_platform_axioms r]) (simp_all add: m)
  with r c show ?thesis by auto
qed

theorem shutdown_terminates_witness:
  "\<exists>m. tsm_reachable example_platform m \<and> mc_done m \<and>
     (\<forall>n m'. (loop_step example_platform ^^ n) m m' \<longrightarrow> n \<le> 3)"
proof -
  let ?m = "example_start\<lparr>mc_closed := True\<rparr>"
  have "tsm_reachable example_platform example_start"
    unfolding example_start_def by (rule reachable_new)
  then have r: "tsm_reachable example_platform ?m"
    by (rule reachable_step) (rule env_drop_handle)
  obtain m' where m': "loop_step example_platform ?m m'" and done': "mc_done m'"
    using end_of_commands_delivered [of ?m DisconnectedState example_platform]
    by (auto simp: example_start_eq)
  have "tsm_reachable example_platform m'" by (rule reachable_step [OF r loop [OF m']])
  with done' shutdown_terminates show ?thesis by blast
qed

section \<open>The tunnel thread\<close>

text \<open>
  How a WireGuard tunnel that was started ends: the connecting state is asked to block exactly
  if the tunnel failed with an error that is neither a timeout nor recoverable. Being stopped,
  running out of time and an expired obfuscator lead to a new attempt.
\<close>

theorem wireguard_close_reason:
  assumes "enable_ipv6 (wg_generic_options config) \<Longrightarrow> is_ipv6_enabled_in_os env"
    and "\<And>log. me_start_wireguard env config log = Inr (wg_wait msg)"
  shows "fst (tunnel_thread env (Wireguard config) log_dir n elapsed) =
    (case msg of
       Some (SetupError e) \<Rightarrow> if e = TimeoutError \<or> wg_is_recoverable e then None else Some StartTunnelError
     | Some (ObfuscatorFailed e) \<Rightarrow> if e = TimeoutError \<or> wg_is_recoverable e then None else Some StartTunnelError
     | _ \<Rightarrow> None)"
proof -
  have "\<exists>log. prepare_tunnel_log_file env (Wireguard config) log_dir = Inr log"
    by (simp add: prepare_tunnel_log_file_def split: option.splits)
  then have "monitor_start env (Wireguard config) log_dir =
      Inr (map_sum WireguardTunnelMonitoringError id (wg_wait msg))"
    using assms by (auto simp: monitor_start_def ensure_ipv6_can_be_used_if_enabled_def)
  moreover have "wait_for_tunnel_monitor (Inl (WireguardTunnelMonitoringError e)) n =
      (if e = TimeoutError \<or> wg_is_recoverable e then None else Some StartTunnelError)"
    for e :: "'a wg_error"
    by (cases e) (simp_all add: wait_for_tunnel_monitor_def should_retry_def is_recoverable_def)
  moreover have "wait_for_tunnel_monitor (Inr u :: 'a monitor) n = None" for u
    by (simp add: wait_for_tunnel_monitor_def)
  ultimately show ?thesis
    by (simp add: tunnel_thread_def start_block_reason_def wg_wait_def Let_def
        split: option.splits close_msg.splits)
qed

definition example_wireguard :: wg_tunnel_parameters where
  "example_wireguard =
     \<lparr>wg_connection =
        \<lparr>cc_tunnel = \<lparr>tc_private_key = [], tc_addresses = [V4 (ipv4_addr 10 64 0 2)]\<rparr>,
         cc_peer = \<lparr>pc_public_key = [], pc_allowed_ips = [],
           pc_endpoint = SocketAddr (V4 (ipv4_addr 185 65 135 1)) 51820, pc_psk = None, pc_constant_packet_size = False\<rparr>,
         cc_exit_peer = None, cc_ipv4_gateway = ipv4_addr 10 64 0 1, cc_ipv6_gateway = None,
         cc_fwmark = Some 1\<rparr>,
      wg_options = \<lparr>wo_mtu = None, wo_quantum_resistant = False, wo_daita = False\<rparr>,
      wg_generic_options = \<lparr>enable_ipv6 = True\<rparr>, wg_obfuscation = None\<rparr>"

definition example_monitor_env :: "string close_msg option \<Rightarrow> string monitor_env" where
  "example_monitor_env msg =
     \<lparr>me_disable_ipv6 = Some ''0'', me_rotate_log = (\<lambda>_. Inr ()),
      me_start_wireguard = (\<lambda>config log. Inr (wg_wait msg)),
      me_start_openvpn = (\<lambda>config log. Inl ''no openvpn'')\<rparr>"

theorem wireguard_close_reason_witness:
  "fst (tunnel_thread (example_monitor_env (Some (SetupError (WireguardConfigError ''bad''))))
      (Wireguard example_wireguard) None 0 5) = Some StartTunnelError"
proof -
  have "is_ipv6_enabled_in_os (example_monitor_env msg)" for msg
    by (simp add: is_ipv6_enabled_in_os_def example_monitor_env_def str_trim_def is_whitespace_def)
  then show ?thesis
    using wireguard_close_reason [of example_wireguard
        "example_monitor_env (Some (SetupError (WireguardConfigError ''bad'')))"
        "Some (SetupError (WireguardConfigError ''bad''))" None 0 5]
    by (simp add: example_monitor_env_def wg_is_recoverable_def)
qed

text \<open>
  Attempts are spaced: a thread that asks for a new attempt has lived for at least the
  minimal time (a second) when it does, and no thread sleeps longer than that. The failure that
  IPv6 is wanted but disabled in the system is reported as such, without delay.
\<close>

theorem retries_are_spaced:
  "(case tunnel_thread env params log_dir n elapsed of
      (reason, slept) \<Rightarrow>
        slept \<le> MIN_TUNNEL_ALIVE_TIME \<and>
        (if reason = None then MIN_TUNNEL_ALIVE_TIME \<le> elapsed + slept else slept = 0) \<and>
        (reason = Some Ipv6Unavailable \<longleftrightarrow>
           enable_ipv6 (get_generic_options params) \<and> \<not> is_ipv6_enabled_in_os env))"
proof -
  let ?start = "monitor_start env params log_dir"
  let ?no_ipv6 = "enable_ipv6 (get_generic_options params) \<and> \<not> is_ipv6_enabled_in_os env"
  have "?start = Inl EnableIpv6Error \<longleftrightarrow> ?no_ipv6"
    by (auto simp: monitor_start_def ensure_ipv6_can_be_used_if_enabled_def and_then_eq_Inl
        prepare_tunnel_log_file_def Let_def
        split: tunnel_parameters.splits sum.splits option.splits if_splits)
  moreover have "wait_for_tunnel_monitor monitor n \<noteq> Some Ipv6Unavailable" for monitor :: "'a monitor"
    by (simp add: wait_for_tunnel_monitor_def split: sum.splits tunnel_error.splits wg_error.splits)
  ultimately have "start_block_reason ?start n = Some Ipv6Unavailable \<longleftrightarrow> ?no_ipv6"
    by (auto simp: start_block_reason_def should_retry_def is_recoverable_def error_state_cause_from_def
        split: sum.splits tunnel_error.splits if_splits)
  then show ?thesis
    by (auto simp: tunnel_thread_def alive_sleep_def checked_sub_def Let_def)
qed

theorem retries_are_spaced_witness:
  "tunnel_thread (example_monitor_env (Some PingErr)) (Wireguard example_wireguard) None 0 400 = (None, 600)"
proof -
  have "is_ipv6_enabled_in_os (example_monitor_env (Some PingErr))"
    by (simp add: is_ipv6_enabled_in_os_def example_monitor_env_def str_trim_def is_whitespace_def)
  then have "fst (tunnel_thread (example_monitor_env (Some PingErr)) (Wireguard example_wireguard) None 0 400) = None"
    by (simp add: tunnel_thread_def start_block_reason_def monitor_start_def prepare_tunnel_log_file_def
        ensure_ipv6_can_be_used_if_enabled_def wait_for_tunnel_monitor_def example_monitor_env_def wg_wait_def
        Let_def)
  then show ?thesis
    using retries_are_spaced [where env = "example_monitor_env (Some PingErr)" and
        params = "Wireguard example_wireguard" and log_dir = None and n = 0 and elapsed = 400]
    by (auto simp: tunnel_thread_def Let_def MIN_TUNNEL_ALIVE_TIME_def alive_sleep_def checked_sub_def)
qed

end
