(* ===== verification/Constraints.thy ===== *)
theory Constraints
  imports Prelude
begin

text \<open>
  The constraints of \<^verbatim>\<open>mullvad-types/src/constraints/\<close>: the type \<^verbatim>\<open>Constraint\<close>, the traits
  \<^verbatim>\<open>Match\<close> and \<^verbatim>\<open>Intersection\<close>, and what the documentation of \<^verbatim>\<open>Intersection\<close> demands
  of its implementations. The locale \<open>intersection_laws\<close> is that contract (idempotence,
  commutativity and associativity), and its lemmas derive that intersecting gives the weakest
  criterion that refines both; \<open>criteria\<close> adds what \<^verbatim>\<open>Match\<close> promises. Later theories
  interpret both for the types of the settings and the queries.
\<close>

section \<open>The type of constraints\<close>

datatype 'a constraint = Any | Only 'a

fun constraint_intersection ::
  "('a \<Rightarrow> 'a \<Rightarrow> 'a option) \<Rightarrow> 'a constraint \<Rightarrow> 'a constraint \<Rightarrow> 'a constraint option" where
  "constraint_intersection meet Any Any = Some Any"
| "constraint_intersection meet (Only t) Any = Some (Only t)"
| "constraint_intersection meet Any (Only t) = Some (Only t)"
| "constraint_intersection meet (Only left) (Only right) = map_option Only (meet left right)"

fun constraint_unwrap_or :: "'a constraint \<Rightarrow> 'a \<Rightarrow> 'a" where
  "constraint_unwrap_or Any other = other"
| "constraint_unwrap_or (Only value) other = value"

fun constraint_or :: "'a constraint \<Rightarrow> 'a constraint \<Rightarrow> 'a constraint" where
  "constraint_or Any other = other"
| "constraint_or (Only value) other = Only value"

fun constraint_map :: "('a \<Rightarrow> 'b) \<Rightarrow> 'a constraint \<Rightarrow> 'b constraint" where
  "constraint_map f Any = Any"
| "constraint_map f (Only value) = Only (f value)"

fun constraint_and_then :: "'a constraint \<Rightarrow> ('a \<Rightarrow> 'b constraint) \<Rightarrow> 'b constraint" where
  "constraint_and_then Any f = Any"
| "constraint_and_then (Only value) f = f value"

fun is_any :: "'a constraint \<Rightarrow> bool" where
  "is_any Any = True"
| "is_any (Only value) = False"

definition is_only :: "'a constraint \<Rightarrow> bool" where
  "is_only c \<longleftrightarrow> \<not> is_any c"

fun constraint_option :: "'a constraint \<Rightarrow> 'a option" where
  "constraint_option Any = None"
| "constraint_option (Only value) = Some value"

definition is_only_and :: "'a constraint \<Rightarrow> ('a \<Rightarrow> bool) \<Rightarrow> bool" where
  "is_only_and c f = (case constraint_option c of None \<Rightarrow> False | Some value \<Rightarrow> f value)"

fun matches_eq :: "'a constraint \<Rightarrow> 'a \<Rightarrow> bool" where
  "matches_eq Any other = True"
| "matches_eq (Only value) other = (value = other)"

fun constraint_from_option :: "'a option \<Rightarrow> 'a constraint" where
  "constraint_from_option (Some value) = Only value"
| "constraint_from_option None = Any"

text \<open>
  Printing and parsing. \<^verbatim>\<open>eq_ignore_ascii_case\<close> compares after lowering the ASCII capitals.
\<close>

definition to_ascii_lowercase :: "char \<Rightarrow> char" where
  "to_ascii_lowercase c =
     (if of_char c \<in> {65 .. 90 :: nat} then char_of (of_char c + 32 :: nat) else c)"

definition eq_ignore_ascii_case :: "string \<Rightarrow> string \<Rightarrow> bool" where
  "eq_ignore_ascii_case s t \<longleftrightarrow> map to_ascii_lowercase s = map to_ascii_lowercase t"

fun constraint_fmt :: "('a \<Rightarrow> string) \<Rightarrow> 'a constraint \<Rightarrow> string" where
  "constraint_fmt fmt Any = ''any''"
| "constraint_fmt fmt (Only value) = fmt value"

definition constraint_from_str ::
  "(string \<Rightarrow> ('e, 'a) result) \<Rightarrow> string \<Rightarrow> ('e, 'a constraint) result" where
  "constraint_from_str from_str value =
     (if eq_ignore_ascii_case value ''any'' then Inr Any
      else and_then (from_str value) (\<lambda>t. Inr (Only t)))"

lemma constraint_option_from [simp]: "constraint_from_option (constraint_option c) = c"
  by (cases c) auto

lemma is_only_and_iff: "is_only_and c f \<longleftrightarrow> (\<exists>v. c = Only v \<and> f v)"
  by (cases c) (auto simp: is_only_and_def)

text \<open>
  What is printed is read back, as long as no value of the inner type is printed as
  \<^verbatim>\<open>any\<close> in some capitalisation.
\<close>

lemma constraint_from_str_fmt:
  assumes "\<And>v. from_str (fmt v) = Inr v" and "\<And>v. \<not> eq_ignore_ascii_case (fmt v) ''any''"
  shows "constraint_from_str from_str (constraint_fmt fmt c) = Inr c"
  using assms by (cases c) (auto simp: constraint_from_str_def eq_ignore_ascii_case_def)

section \<open>Matching and intersecting\<close>

fun constraint_matches :: "('a \<Rightarrow> 'b \<Rightarrow> bool) \<Rightarrow> 'a constraint \<Rightarrow> 'b \<Rightarrow> bool" where
  "constraint_matches matches Any other = True"
| "constraint_matches matches (Only value) other = matches value other"

text \<open>\<^verbatim>\<open>impl_intersection_partialeq!\<close>: two values intersect when they are equal.\<close>

definition intersection_partialeq :: "'a \<Rightarrow> 'a \<Rightarrow> 'a option" where
  "intersection_partialeq a b = (if a = b then Some a else None)"

abbreviation only_if_equal :: "'a constraint \<Rightarrow> 'a constraint \<Rightarrow> 'a constraint option" where
  "only_if_equal \<equiv> constraint_intersection intersection_partialeq"

text \<open>One criterion refines another when intersecting the two gives it back.\<close>

definition refines :: "('a \<Rightarrow> 'a \<Rightarrow> 'a option) \<Rightarrow> 'a \<Rightarrow> 'a \<Rightarrow> bool" where
  "refines meet a b \<longleftrightarrow> meet a b = Some a"

locale intersection_laws =
  fixes meet :: "'a \<Rightarrow> 'a \<Rightarrow> 'a option"
  assumes idem: "meet a a = Some a"
    and commute: "meet a b = meet b a"
    and assoc: "Option.bind (meet a b) (\<lambda>ab. meet ab c) = Option.bind (meet b c) (\<lambda>bc. meet a bc)"
begin

lemma refines_refl: "refines meet a a"
  by (simp add: refines_def idem)

lemma refines_antisym: "refines meet a b \<Longrightarrow> refines meet b a \<Longrightarrow> a = b"
  by (simp add: refines_def commute [of b a])

lemma refines_trans:
  assumes "refines meet a b" and "refines meet b c"
  shows "refines meet a c"
  using assoc [of a b c] assms by (simp add: refines_def)

lemma inter_refines:
  assumes "meet a b = Some c"
  shows "refines meet c a" and "refines meet c b"
proof -
  show "refines meet c b"
    using assoc [of a b b] assms by (simp add: refines_def idem)
  show "refines meet c a"
    using assoc [of b a a] assms by (simp add: refines_def idem commute [of b a])
qed

lemma inter_greatest:
  assumes "refines meet c a" and "refines meet c b"
  shows "\<exists>d. meet a b = Some d \<and> refines meet c d"
  using assoc [of c a b] assms by (cases "meet a b") (auto simp: refines_def)

lemma inter_None_iff: "meet a b = None \<longleftrightarrow> \<not> (\<exists>c. refines meet c a \<and> refines meet c b)"
  using inter_greatest inter_refines by (metis not_Some_eq option.distinct(1))

end

locale intersection_unit = intersection_laws +
  fixes unit :: 'a
  assumes unit: "meet unit a = Some a"
begin

lemma refines_unit: "refines meet a unit"
  by (simp add: refines_def commute [of a unit] unit)

end

locale criteria = intersection_laws meet for meet :: "'a \<Rightarrow> 'a \<Rightarrow> 'a option" +
  fixes accepts :: "'a \<Rightarrow> 'b \<Rightarrow> bool"
  assumes accepts_inter: "meet a b = Some c \<Longrightarrow> accepts c x \<longleftrightarrow> accepts a x \<and> accepts b x"
begin

lemma refines_accepts: "refines meet a b \<Longrightarrow> accepts a x \<Longrightarrow> accepts b x"
  using accepts_inter [of a b a x] by (simp add: refines_def)

end

section \<open>The contract carries over\<close>

lemma partialeq_laws: "intersection_laws intersection_partialeq"
  by unfold_locales (auto simp: intersection_partialeq_def)

lemma constraint_laws:
  assumes "intersection_laws meet"
  shows "intersection_laws (constraint_intersection meet)"
proof
  fix a b c :: "'a constraint"
  note idem = intersection_laws.idem [OF assms] and commute = intersection_laws.commute [OF assms]
    and assoc = intersection_laws.assoc [OF assms]
  show "constraint_intersection meet a a = Some a"
    by (cases a) (auto simp: idem)
  show "constraint_intersection meet a b = constraint_intersection meet b a"
    by (cases a; cases b) (auto simp: commute)
  have "Option.bind (map_option Only (meet x y)) (\<lambda>ab. constraint_intersection meet ab (Only z)) =
        Option.bind (map_option Only (meet y z)) (constraint_intersection meet (Only x))" for x y z
    using assoc [of x y z] by (cases "meet x y"; cases "meet y z") auto
  moreover have "Option.bind (map_option Only x) (constraint_intersection meet Any) = map_option Only x"
    "Option.bind (map_option Only x) (\<lambda>y. constraint_intersection meet y Any) = map_option Only x" for x
    by (cases x; simp)+
  ultimately show "Option.bind (constraint_intersection meet a b) (\<lambda>ab. constraint_intersection meet ab c) =
        Option.bind (constraint_intersection meet b c) (\<lambda>bc. constraint_intersection meet a bc)"
    by (cases a; cases b; cases c) auto
qed

lemma constraint_unit:
  assumes "intersection_laws meet"
  shows "intersection_unit (constraint_intersection meet) Any"
proof -
  have "constraint_intersection meet Any a = Some a" for a
    by (cases a) auto
  with constraint_laws [OF assms] show ?thesis
    by (simp add: intersection_unit_def intersection_unit_axioms_def)
qed

lemma constraint_criteria:
  assumes "criteria meet accepts"
  shows "criteria (constraint_intersection meet) (constraint_matches accepts)"
proof -
  have laws: "intersection_laws meet"
    using assms by (simp add: criteria_def)
  have "constraint_matches accepts c x \<longleftrightarrow> constraint_matches accepts a x \<and> constraint_matches accepts b x"
    if "constraint_intersection meet a b = Some c" for a b c x
    using that criteria.accepts_inter [OF assms] by (cases a; cases b) auto
  with constraint_laws [OF laws] show ?thesis
    by (simp add: criteria_def criteria_axioms_def)
qed

lemma partialeq_criteria: "criteria intersection_partialeq accepts"
  using partialeq_laws
  by (auto simp: criteria_def criteria_axioms_def intersection_partialeq_def split: if_splits)

text \<open>
  Types that intersect by equality: ports, booleans, locations, providers, owners, protocols,
  tunnel types, address families and allowed networks, and constraints on them.
\<close>

interpretation equal: intersection_laws intersection_partialeq
  by (rule partialeq_laws)

interpretation simple: intersection_unit "constraint_intersection intersection_partialeq" Any
  by (rule constraint_unit [OF partialeq_laws])

lemma only_if_equal_Some:
  "only_if_equal a b = Some c \<longleftrightarrow> (a = Any \<and> c = b \<or> b = Any \<and> c = a \<or> a = b \<and> c = a)"
  by (cases a; cases b) (auto simp: intersection_partialeq_def)

lemma only_if_equal_None:
  "only_if_equal a b = None \<longleftrightarrow> (\<exists>x y. a = Only x \<and> b = Only y \<and> x \<noteq> y)"
  by (cases a; cases b) (auto simp: intersection_partialeq_def)

lemma only_if_equal_Any [simp]: "only_if_equal Any b = Some b" "only_if_equal a Any = Some a"
  by (cases b; simp) (cases a; simp)

lemma refines_only_if_equal: "refines only_if_equal a b \<longleftrightarrow> b = Any \<or> a = b"
  by (cases a; cases b) (auto simp: refines_def intersection_partialeq_def)

end
