(* ===== verification/Relay_List.thy ===== *)
theory Relay_List
  imports Net_Types Constraints Complex_Main
    "HOL-Library.List_Lexorder" "HOL-Library.Char_ord"
begin

text \<open>
  The relay list: \<^verbatim>\<open>mullvad-types/src/relay_list.rs\<close>, \<^verbatim>\<open>location.rs\<close> and
  \<^verbatim>\<open>custom_list.rs\<close>, the parts of \<^verbatim>\<open>relay_constraints.rs\<close> that speak of relays
  (locations, owners, providers and overrides), and \<^verbatim>\<open>parsed_relays.rs\<close> of
  \<^verbatim>\<open>mullvad-relay-selector\<close>. Coordinates and distances, which the source computes with
  \<^verbatim>\<open>f64\<close>, are real numbers here. A hash set of addresses is a list whose order nothing
  depends on; a \<^verbatim>\<open>BTreeSet\<close> is a sorted list without repetitions.
\<close>

section \<open>Locations\<close>

record location =
  loc_country :: string
  loc_country_code :: string
  loc_city :: string
  loc_city_code :: string
  loc_latitude :: real
  loc_longitude :: real

record coordinates =
  co_latitude :: real
  co_longitude :: real

definition coordinates_of :: "location \<Rightarrow> coordinates" where
  "coordinates_of l = \<lparr>co_latitude = loc_latitude l, co_longitude = loc_longitude l\<rparr>"

definition RADIUS_OF_EARTH :: real where
  "RADIUS_OF_EARTH = 6372.8"

definition to_radians :: "real \<Rightarrow> real" where
  "to_radians x = x * pi / 180"

definition to_degrees :: "real \<Rightarrow> real" where
  "to_degrees x = x * 180 / pi"

definition haversine_dist_rad :: "real \<Rightarrow> real \<Rightarrow> real \<Rightarrow> real \<Rightarrow> real" where
  "haversine_dist_rad lat lon other_lat other_lon =
     (let d_lat = lat - other_lat;
          d_lon = lon - other_lon;
          haversine = (sin (d_lat / 2))\<^sup>2 + (sin (d_lon / 2))\<^sup>2 * cos lat * cos other_lat
      in arcsin (sqrt haversine) * 2 * RADIUS_OF_EARTH)"

definition haversine_dist_deg :: "real \<Rightarrow> real \<Rightarrow> real \<Rightarrow> real \<Rightarrow> real" where
  "haversine_dist_deg lat lon other_lat other_lon =
     haversine_dist_rad (to_radians lat) (to_radians lon) (to_radians other_lat) (to_radians other_lon)"

definition distance_from :: "location \<Rightarrow> coordinates \<Rightarrow> real" where
  "distance_from self other =
     haversine_dist_deg (loc_latitude self) (loc_longitude self) (co_latitude other) (co_longitude other)"

definition has_same_city :: "location \<Rightarrow> location \<Rightarrow> bool" where
  "has_same_city self other \<longleftrightarrow>
     loc_country_code self = loc_country_code other \<and> loc_city_code self = loc_city_code other"

definition atan2 :: "real \<Rightarrow> real \<Rightarrow> real" where
  "atan2 y x =
     (if 0 < x then arctan (y / x)
      else if x < 0 then (if 0 \<le> y then arctan (y / x) + pi else arctan (y / x) - pi)
      else if 0 < y then pi / 2 else if y < 0 then - pi / 2 else 0)"

definition midpoint_inner :: "coordinates list \<Rightarrow> coordinates" where
  "midpoint_inner locations =
     (let cos_lat = (\<lambda>l. cos (to_radians (co_latitude l)));
          sin_lat = (\<lambda>l. sin (to_radians (co_latitude l)));
          cos_lon = (\<lambda>l. cos (to_radians (co_longitude l)));
          sin_lon = (\<lambda>l. sin (to_radians (co_longitude l)));
          inv_total_weight = 1 / real (length locations);
          x = sum_list (map (\<lambda>l. cos_lat l * cos_lon l) locations) * inv_total_weight;
          y = sum_list (map (\<lambda>l. cos_lat l * sin_lon l) locations) * inv_total_weight;
          z = sum_list (map sin_lat locations) * inv_total_weight;
          longitude = atan2 y x;
          hypotenuse = sqrt (x * x + y * y);
          latitude = atan2 z hypotenuse
      in \<lparr>co_latitude = to_degrees latitude, co_longitude = to_degrees longitude\<rparr>)"

definition midpoint :: "location list \<Rightarrow> coordinates" where
  "midpoint locations = midpoint_inner (map coordinates_of locations)"

lemma distance_from_self: "distance_from l (coordinates_of l) = 0"
  by (simp add: distance_from_def haversine_dist_deg_def haversine_dist_rad_def coordinates_of_def)

lemma distance_from_sym:
  "distance_from a (coordinates_of b) = distance_from b (coordinates_of a)"
proof -
  have "(sin ((x - y) / 2))\<^sup>2 = (sin ((y - x) / 2))\<^sup>2" for x y :: real
    by (metis minus_diff_eq minus_divide_left power2_minus sin_minus)
  then show ?thesis
    by (simp add: distance_from_def haversine_dist_deg_def haversine_dist_rad_def coordinates_of_def
        mult.assoc mult.commute mult.left_commute)
qed

section \<open>Relays\<close>

text \<open>Parameters of the QUIC obfuscator: its addresses must not be empty, in the source.\<close>

record quic =
  quic_addr_in :: "ip_addr list"
  quic_token :: string
  quic_domain :: string

definition quic_in_ipv4 :: "quic \<Rightarrow> u32 list" where
  "quic_in_ipv4 q = List.map_filter (\<lambda>a. case a of V4 x \<Rightarrow> Some x | V6 _ \<Rightarrow> None) (quic_addr_in q)"

definition quic_in_ipv6 :: "quic \<Rightarrow> u128 list" where
  "quic_in_ipv6 q = List.map_filter (\<lambda>a. case a of V4 _ \<Rightarrow> None | V6 x \<Rightarrow> Some x) (quic_addr_in q)"

definition quic_port :: "quic \<Rightarrow> u16" where
  "quic_port q = 443"

record wireguard_relay_endpoint_data =
  wr_public_key :: "u8 list"
  wr_daita :: bool
  wr_quic :: "quic option"
  wr_lwo :: bool
  wr_shadowsocks_extra_addr_in :: "ip_addr list"

datatype relay_endpoint_data =
  RelayOpenvpn
| RelayBridge
| RelayWireguard wireguard_relay_endpoint_data

record relay =
  rl_hostname :: string
  rl_ipv4_addr_in :: u32
  rl_ipv6_addr_in :: "u128 option"
  rl_overridden_ipv4 :: bool
  rl_overridden_ipv6 :: bool
  rl_include_in_country :: bool
  rl_active :: bool
  rl_owned :: bool
  rl_provider :: string
  rl_weight :: u64
  rl_endpoint_data :: relay_endpoint_data
  rl_location :: location

definition relay_wireguard :: "relay \<Rightarrow> wireguard_relay_endpoint_data option" where
  "relay_wireguard r =
     (case rl_endpoint_data r of
        RelayWireguard data \<Rightarrow> Some data
      | RelayOpenvpn \<Rightarrow> None
      | RelayBridge \<Rightarrow> None)"

definition override_ipv4 :: "relay \<Rightarrow> u32 \<Rightarrow> relay" where
  "override_ipv4 r new_ipv4 = r\<lparr>rl_ipv4_addr_in := new_ipv4, rl_overridden_ipv4 := True\<rparr>"

definition override_ipv6 :: "relay \<Rightarrow> u128 \<Rightarrow> relay" where
  "override_ipv6 r new_ipv6 = r\<lparr>rl_ipv6_addr_in := Some new_ipv6, rl_overridden_ipv6 := True\<rparr>"

text \<open>\<^verbatim>\<open>PartialEq for Relay\<close>: the hostname identifies a relay.\<close>

definition relay_eq :: "relay \<Rightarrow> relay \<Rightarrow> bool" where
  "relay_eq a b \<longleftrightarrow> rl_hostname a = rl_hostname b"

definition relay_contains :: "relay list \<Rightarrow> relay \<Rightarrow> bool" where
  "relay_contains rs r \<longleftrightarrow> (\<exists>x \<in> set rs. relay_eq x r)"

section \<open>The list\<close>

record openvpn_endpoint =
  ove_port :: u16
  ove_protocol :: transport_protocol

record shadowsocks_endpoint_data =
  sse_port :: u16
  sse_cipher :: string
  sse_password :: string
  sse_protocol :: transport_protocol

definition to_proxy_settings :: "shadowsocks_endpoint_data \<Rightarrow> ip_addr \<Rightarrow> shadowsocks" where
  "to_proxy_settings d addr =
     \<lparr>ss_endpoint = SocketAddr addr (sse_port d), ss_password = sse_password d,
      ss_cipher = sse_cipher d\<rparr>"

text \<open>A \<^verbatim>\<open>RangeInclusive<u16>\<close> is the pair of its bounds.\<close>

type_synonym port_range = "u16 \<times> u16"

definition range_contains :: "port_range \<Rightarrow> u16 \<Rightarrow> bool" where
  "range_contains r p \<longleftrightarrow> fst r \<le> p \<and> p \<le> snd r"

definition range_ports :: "port_range \<Rightarrow> u16 list" where
  "range_ports r = map word_of_nat [unat (fst r) ..< Suc (unat (snd r))]"

record wireguard_endpoint_data =
  we_port_ranges :: "port_range list"
  we_ipv4_gateway :: u32
  we_ipv6_gateway :: u128
  we_shadowsocks_port_ranges :: "port_range list"
  we_udp2tcp_ports :: "u16 list"

record relay_list_city =
  ci_name :: string
  ci_code :: string
  ci_latitude :: real
  ci_longitude :: real
  ci_relays :: "relay list"

record relay_list_country =
  cn_name :: string
  cn_code :: string
  cn_cities :: "relay_list_city list"

record relay_list =
  rs_etag :: "string option"
  rs_countries :: "relay_list_country list"
  rs_openvpn_ports :: "openvpn_endpoint list"
  rs_bridge_shadowsocks :: "shadowsocks_endpoint_data list"
  rs_wireguard :: wireguard_endpoint_data

definition relay_list_empty :: relay_list where
  "relay_list_empty =
     \<lparr>rs_etag = None, rs_countries = [], rs_openvpn_ports = [], rs_bridge_shadowsocks = [],
      rs_wireguard = \<lparr>we_port_ranges = [], we_ipv4_gateway = ipv4_addr 0 0 0 0,
        we_ipv6_gateway = ipv6_addr 0 0 0 0 0 0 0 0, we_shadowsocks_port_ranges = [],
        we_udp2tcp_ports = []\<rparr>\<rparr>"

definition relays :: "relay_list \<Rightarrow> relay list" where
  "relays l = concat (map ci_relays (concat (map cn_cities (rs_countries l))))"

definition lookup_country :: "relay_list \<Rightarrow> string \<Rightarrow> relay_list_country option" where
  "lookup_country l country_code = find (\<lambda>c. cn_code c = country_code) (rs_countries l)"

definition lookup_country_code_by_name :: "relay_list \<Rightarrow> string \<Rightarrow> string option" where
  "lookup_country_code_by_name l country_name =
     map_option cn_code (find (\<lambda>c. cn_name c = country_name) (rs_countries l))"

definition lookup_city :: "relay_list_country \<Rightarrow> string \<Rightarrow> relay_list_city option" where
  "lookup_city c city_code = find (\<lambda>x. ci_code x = city_code) (cn_cities c)"

text \<open>
  The nearest country. The running minimum starts at \<^verbatim>\<open>f64::MAX\<close>, above every distance,
  which is \<open>None\<close> here.
\<close>

definition nearer :: "real \<Rightarrow> real option \<Rightarrow> bool" where
  "nearer distance min_dist = (case min_dist of None \<Rightarrow> True | Some d \<Rightarrow> distance < d)"

definition visit_relay ::
  "coordinates \<Rightarrow> relay_list_country \<Rightarrow> relay \<Rightarrow> real option \<times> relay_list_country \<Rightarrow>
   real option \<times> relay_list_country" where
  "visit_relay origin country r acc =
     (let distance = distance_from (rl_location r) origin
      in if nearer distance (fst acc) then (Some distance, country) else acc)"

definition get_nearest_country_with_relay :: "relay_list \<Rightarrow> coordinates \<Rightarrow> string option" where
  "get_nearest_country_with_relay l origin =
     (case rs_countries l of
        [] \<Rightarrow> None
      | first # _ \<Rightarrow>
          Some (cn_code (snd
            (fold (\<lambda>country. fold (\<lambda>city. fold (visit_relay origin country) (ci_relays city))
                (cn_cities country)) (rs_countries l) (None, first)))))"

definition country_relays :: "relay_list_country \<Rightarrow> relay list" where
  "country_relays c = concat (map ci_relays (cn_cities c))"

text \<open>What the loop has found after visiting some relays, given with their countries.\<close>

definition nearest_of ::
  "coordinates \<Rightarrow> (relay_list_country \<times> relay) list \<Rightarrow> relay_list_country \<Rightarrow>
   real option \<times> relay_list_country \<Rightarrow> bool" where
  "nearest_of origin visited first acc \<longleftrightarrow>
     (case fst acc of
        None \<Rightarrow> visited = [] \<and> snd acc = first
      | Some d \<Rightarrow>
          (\<exists>(c, r) \<in> set visited. snd acc = c \<and> distance_from (rl_location r) origin = d) \<and>
          (\<forall>(c, r) \<in> set visited. d \<le> distance_from (rl_location r) origin))"

lemma nearest_of_visit:
  assumes "nearest_of origin visited first acc"
  shows "nearest_of origin (visited @ [(c, r)]) first (visit_relay origin c r acc)"
  using assms
  by (fastforce simp: nearest_of_def visit_relay_def nearer_def Let_def split: option.splits)

lemma nearest_of_fold:
  assumes "nearest_of origin visited first acc"
  shows "nearest_of origin (visited @ map (Pair c) rs) first (fold (visit_relay origin c) rs acc)"
  using assms
proof (induction rs arbitrary: visited acc)
  case (Cons r rs)
  from Cons.IH [OF nearest_of_visit [OF Cons.prems]] show ?case by simp
qed simp

lemma fold_cities:
  "fold (\<lambda>city. fold f (ci_relays city)) cities = fold f (concat (map ci_relays cities))"
  by (induction cities) simp_all

lemma nearest_of_countries:
  assumes "nearest_of origin visited first acc"
  shows "nearest_of origin (visited @ concat (map (\<lambda>c. map (Pair c) (country_relays c)) cs)) first
    (fold (\<lambda>c. fold (visit_relay origin c) (country_relays c)) cs acc)"
  using assms
proof (induction cs arbitrary: visited acc)
  case (Cons c cs)
  from Cons.IH [OF nearest_of_fold [OF Cons.prems]] show ?case by simp
qed simp

lemma nearest_country:
  assumes "get_nearest_country_with_relay l origin = Some code"
    and "r \<in> set (relays l)"
  shows "\<exists>c \<in> set (rs_countries l). cn_code c = code \<and> (\<exists>r' \<in> set (country_relays c).
    distance_from (rl_location r') origin \<le> distance_from (rl_location r) origin)"
proof -
  obtain first rest where l: "rs_countries l = first # rest"
    using assms(1) by (cases "rs_countries l") (auto simp: get_nearest_country_with_relay_def)
  define acc where "acc = fold (\<lambda>c. fold (visit_relay origin c) (country_relays c)) (rs_countries l) (None, first)"
  define visited where
    "visited = concat (map (\<lambda>c. map (Pair c) (country_relays c)) (rs_countries l))"
  have inv: "nearest_of origin visited first acc"
    using nearest_of_countries [of origin "[]" first "(None, first)" "rs_countries l"]
    by (simp add: acc_def visited_def nearest_of_def)
  have code: "code = cn_code (snd acc)"
    using assms(1) by (simp add: get_nearest_country_with_relay_def l acc_def fold_cities country_relays_def)
  obtain c where r: "(c, r) \<in> set visited"
    using assms(2) by (fastforce simp: visited_def relays_def country_relays_def)
  obtain d where d: "fst acc = Some d"
    using inv r by (cases "fst acc") (auto simp: nearest_of_def)
  with inv obtain r' where "(snd acc, r') \<in> set visited" and "distance_from (rl_location r') origin = d"
    by (auto simp: nearest_of_def)
  moreover have "d \<le> distance_from (rl_location r) origin"
    using inv d r by (auto simp: nearest_of_def)
  ultimately show ?thesis
    using code by (auto simp: visited_def)
qed

lemma range_ports_contains: "p \<in> set (range_ports r) \<longleftrightarrow> range_contains r p"
proof
  assume "p \<in> set (range_ports r)"
  then obtain n where "unat (fst r) \<le> n" and "n \<le> unat (snd r)" and p: "p = word_of_nat n"
    by (auto simp: range_ports_def)
  moreover from this have "unat p = n"
    by (metis le_unat_uoi)
  ultimately show "range_contains r p"
    by (simp add: range_contains_def word_le_nat_alt)
next
  assume "range_contains r p"
  then have "unat p \<in> {unat (fst r) ..< Suc (unat (snd r))}"
    by (simp add: range_contains_def word_le_nat_alt)
  then have "word_of_nat (unat p) \<in> set (range_ports r)"
    unfolding range_ports_def by (metis atLeastLessThan_iff atLeastLessThan_upt image_eqI set_map)
  then show "p \<in> set (range_ports r)"
    by simp
qed

end
