(* ===== verification/Relay_Constraints.thy ===== *)
theory Relay_Constraints
  imports Relay_List
begin

text \<open>
  The settings that limit which relays may be used: \<^verbatim>\<open>mullvad-types/src/relay_constraints.rs\<close>,
  \<^verbatim>\<open>custom_list.rs\<close>, \<^verbatim>\<open>custom_tunnel.rs\<close> and the post-quantum setting of
  \<^verbatim>\<open>wireguard.rs\<close>, with their \<^verbatim>\<open>Match\<close> and \<^verbatim>\<open>Intersection\<close> implementations. The
  interpretations at the end discharge the contract of \<open>intersection_laws\<close> for the types that
  derive \<^verbatim>\<open>Intersection\<close> or implement it by hand here.
\<close>

section \<open>Locations, owners and providers\<close>

datatype geographic_location_constraint =
  Country string
| City string string
| Hostname string string string

fun is_country :: "geographic_location_constraint \<Rightarrow> bool" where
  "is_country (Country _) = True"
| "is_country _ = False"

fun get_hostname :: "geographic_location_constraint \<Rightarrow> string option" where
  "get_hostname (Hostname _ _ hostname) = Some hostname"
| "get_hostname _ = None"

fun geographic_matches :: "geographic_location_constraint \<Rightarrow> relay \<Rightarrow> bool" where
  "geographic_matches (Country country) r = (loc_country_code (rl_location r) = country)"
| "geographic_matches (City country city) r =
     (loc_country_code (rl_location r) = country \<and> loc_city_code (rl_location r) = city)"
| "geographic_matches (Hostname country city hostname) r =
     (loc_country_code (rl_location r) = country \<and> loc_city_code (rl_location r) = city \<and>
      rl_hostname r = hostname)"

datatype parse_geo_location_error = ParseGeoLocationError string

definition geographic_from_str ::
  "string \<Rightarrow> (parse_geo_location_error, geographic_location_constraint) result" where
  "geographic_from_str input =
     (case split_on (CHR ''-'') input of
        [country] \<Rightarrow> Inr (Country country)
      | [country, city] \<Rightarrow> Inr (City country city)
      | country # city # _ \<Rightarrow> Inr (Hostname country city input)
      | [] \<Rightarrow> Inl (ParseGeoLocationError input))"

text \<open>The order the source derives: by variant, then field by field.\<close>

fun geographic_key :: "geographic_location_constraint \<Rightarrow> nat \<times> string list" where
  "geographic_key (Country c) = (0, [c])"
| "geographic_key (City c d) = (1, [c, d])"
| "geographic_key (Hostname c d h) = (2, [c, d, h])"

lemma geographic_key_inject: "geographic_key a = geographic_key b \<longleftrightarrow> a = b"
  by (cases a; cases b) auto

instantiation geographic_location_constraint :: linorder
begin

definition less_eq_geographic_location_constraint ::
  "geographic_location_constraint \<Rightarrow> geographic_location_constraint \<Rightarrow> bool" where
  "less_eq_geographic_location_constraint a b \<longleftrightarrow> geographic_key a \<le> geographic_key b"

definition less_geographic_location_constraint ::
  "geographic_location_constraint \<Rightarrow> geographic_location_constraint \<Rightarrow> bool" where
  "less_geographic_location_constraint a b \<longleftrightarrow> geographic_key a < geographic_key b"

instance
proof
  fix x y z :: geographic_location_constraint
  show "x < y \<longleftrightarrow> x \<le> y \<and> \<not> y \<le> x"
    by (auto simp: less_eq_geographic_location_constraint_def less_geographic_location_constraint_def)
  show "x \<le> x"
    by (simp add: less_eq_geographic_location_constraint_def)
  show "x \<le> y \<Longrightarrow> y \<le> z \<Longrightarrow> x \<le> z"
    unfolding less_eq_geographic_location_constraint_def by (rule order_trans)
  show "x \<le> y \<Longrightarrow> y \<le> x \<Longrightarrow> x = y"
    by (simp add: less_eq_geographic_location_constraint_def flip: geographic_key_inject)
  show "x \<le> y \<or> y \<le> x"
    unfolding less_eq_geographic_location_constraint_def by (rule linear)
qed

end

datatype location_constraint =
  Location geographic_location_constraint
| CustomList u128

datatype ownership = MullvadOwned | Rented

fun ownership_matches :: "ownership \<Rightarrow> relay \<Rightarrow> bool" where
  "ownership_matches MullvadOwned r = rl_owned r"
| "ownership_matches Rented r = (\<not> rl_owned r)"

type_synonym providers = "string set"

datatype no_providers = NoProviders

definition providers_new :: "string list \<Rightarrow> (no_providers, providers) result" where
  "providers_new ps = (if ps = [] then Inl NoProviders else Inr (set ps))"

definition providers_matches :: "providers \<Rightarrow> relay \<Rightarrow> bool" where
  "providers_matches ps r \<longleftrightarrow> rl_provider r \<in> ps"

section \<open>Custom lists\<close>

record custom_list =
  cl_id :: u128
  cl_name :: string
  cl_locations :: "geographic_location_constraint list"

datatype custom_list_error = NameTooLong | DuplicateName | ListNotFound | ListExists

definition CUSTOM_LIST_NAME_MAX_SIZE :: nat where
  "CUSTOM_LIST_NAME_MAX_SIZE = 30"

definition custom_list_with_id :: "u128 \<Rightarrow> custom_list" where
  "custom_list_with_id i = \<lparr>cl_id = i, cl_name = [], cl_locations = []\<rparr>"

text \<open>\<^verbatim>\<open>CustomList::new\<close>: the fresh identifier \<^verbatim>\<open>Uuid::new_v4\<close> makes is an argument.\<close>

definition custom_list_new :: "u128 \<Rightarrow> string \<Rightarrow> (custom_list_error, custom_list) result" where
  "custom_list_new fresh name =
     (if CUSTOM_LIST_NAME_MAX_SIZE < length name then Inl NameTooLong
      else Inr ((custom_list_with_id fresh)\<lparr>cl_name := name\<rparr>))"

definition custom_list_append ::
  "custom_list \<Rightarrow> geographic_location_constraint list \<Rightarrow> custom_list" where
  "custom_list_append l locations =
     l\<lparr>cl_locations := sorted_list_of_set (set (cl_locations l) \<union> set locations)\<rparr>"

type_synonym custom_lists = "custom_list list"

definition check_list_name_is_unique ::
  "custom_lists \<Rightarrow> custom_list \<Rightarrow> (custom_list_error, unit) result" where
  "check_list_name_is_unique ls new_list =
     (if \<exists>l \<in> set ls. cl_name l = cl_name new_list \<and> cl_id l \<noteq> cl_id new_list
      then Inl DuplicateName else Inr ())"

definition check_if_id_is_unique ::
  "custom_lists \<Rightarrow> custom_list \<Rightarrow> (custom_list_error, unit) result" where
  "check_if_id_is_unique ls new_list =
     (if \<exists>l \<in> set ls. cl_id l = cl_id new_list then Inl ListExists else Inr ())"

fun find_list_index :: "custom_lists \<Rightarrow> u128 \<Rightarrow> nat option" where
  "find_list_index [] list_id = None"
| "find_list_index (l # ls) list_id =
     (if cl_id l = list_id then Some 0 else map_option Suc (find_list_index ls list_id))"

definition custom_lists_add ::
  "custom_lists \<Rightarrow> custom_list \<Rightarrow> (custom_list_error, custom_lists) result" where
  "custom_lists_add ls new_list =
     and_then (check_if_id_is_unique ls new_list) (\<lambda>_.
     and_then (check_list_name_is_unique ls new_list) (\<lambda>_.
     Inr (ls @ [new_list])))"

definition custom_lists_remove ::
  "custom_lists \<Rightarrow> u128 \<Rightarrow> (custom_list_error, custom_lists) result" where
  "custom_lists_remove ls list_id =
     (case find_list_index ls list_id of
        None \<Rightarrow> Inl ListNotFound
      | Some i \<Rightarrow> Inr (take i ls @ drop (Suc i) ls))"

definition custom_lists_update ::
  "custom_lists \<Rightarrow> custom_list \<Rightarrow> (custom_list_error, custom_lists) result" where
  "custom_lists_update ls new_list =
     (case find_list_index ls (cl_id new_list) of
        None \<Rightarrow> Inl ListNotFound
      | Some i \<Rightarrow>
          and_then (check_list_name_is_unique ls new_list) (\<lambda>_. Inr (ls[i := new_list])))"

text \<open>What the checks are for: no two lists share an identifier or a name.\<close>

definition custom_lists_ok :: "custom_lists \<Rightarrow> bool" where
  "custom_lists_ok ls \<longleftrightarrow> distinct (map cl_id ls) \<and> distinct (map cl_name ls)"

lemma find_list_index_Some:
  "find_list_index ls i = Some k \<Longrightarrow> k < length ls \<and> cl_id (ls ! k) = i"
  by (induction ls arbitrary: k) (auto split: if_splits)

lemma find_list_index_None: "find_list_index ls i = None \<longleftrightarrow> (\<forall>l \<in> set ls. cl_id l \<noteq> i)"
  by (induction ls) auto

lemma distinct_map_take_drop:
  "distinct (map f xs) \<Longrightarrow> distinct (map f (take k xs @ drop (Suc k) xs))"
  by (auto simp: take_map [symmetric] drop_map [symmetric] set_take_disj_set_drop_if_distinct
      simp del: set_map)

lemma custom_lists_add_ok:
  assumes "custom_lists_ok ls" and "custom_lists_add ls l = Inr ls'"
  shows "custom_lists_ok ls'"
  using assms
  by (force simp: custom_lists_add_def custom_lists_ok_def check_if_id_is_unique_def
      check_list_name_is_unique_def split: if_splits)

lemma custom_lists_remove_ok:
  assumes "custom_lists_ok ls" and "custom_lists_remove ls i = Inr ls'"
  shows "custom_lists_ok ls'"
  using assms distinct_map_take_drop [of cl_id ls] distinct_map_take_drop [of cl_name ls]
  by (auto simp: custom_lists_remove_def custom_lists_ok_def simp del: map_append split: option.splits)

lemma distinct_map_update:
  assumes "distinct (map f xs)" and "i < length xs"
    and "\<And>j. j < length xs \<Longrightarrow> j \<noteq> i \<Longrightarrow> f (xs ! j) \<noteq> f y"
  shows "distinct (map f (xs[i := y]))"
  using assms by (simp add: distinct_conv_nth nth_list_update) metis

lemma custom_lists_update_ok:
  assumes "custom_lists_ok ls" and "custom_lists_update ls l = Inr ls'"
  shows "custom_lists_ok ls'"
proof -
  obtain i where i: "find_list_index ls (cl_id l) = Some i" and ls': "ls' = ls[i := l]"
    and names: "\<forall>x \<in> set ls. cl_name x = cl_name l \<longrightarrow> cl_id x = cl_id l"
    using assms(2) by (auto simp: custom_lists_update_def check_list_name_is_unique_def
        split: option.splits if_splits)
  note k = find_list_index_Some [OF i]
  have ids: "cl_id (ls ! j) \<noteq> cl_id l" if "j < length ls" and "j \<noteq> i" for j
    using assms(1) that k by (simp add: custom_lists_ok_def distinct_conv_nth) metis
  then have "cl_name (ls ! j) \<noteq> cl_name l" if "j < length ls" and "j \<noteq> i" for j
    using names that by auto
  with ids assms(1) k show ?thesis
    by (auto simp: custom_lists_ok_def ls' intro!: distinct_map_update)
qed


section \<open>Protocol settings\<close>

record transport_port =
  tp_protocol :: transport_protocol
  tp_port :: "u16 constraint"

text \<open>
  \<^verbatim>\<open>#[derive(Intersection)]\<close> intersects field by field; the first empty intersection makes
  the whole empty.
\<close>

definition transport_port_intersection ::
  "transport_port \<Rightarrow> transport_port \<Rightarrow> transport_port option" where
  "transport_port_intersection a b =
     Option.bind (intersection_partialeq (tp_protocol a) (tp_protocol b)) (\<lambda>protocol.
     Option.bind (only_if_equal (tp_port a) (tp_port b)) (\<lambda>port.
     Some \<lparr>tp_protocol = protocol, tp_port = port\<rparr>))"

record openvpn_constraints =
  ovc_port :: "transport_port constraint"

type_synonym allowed_ips = "ip_network list"

record wireguard_constraints =
  wgc_port :: "u16 constraint"
  wgc_ip_version :: "ip_version constraint"
  wgc_allowed_ips :: "allowed_ips constraint"
  wgc_use_multihop :: bool
  wgc_entry_location :: "location_constraint constraint"

definition allowed_ips_allow_all :: allowed_ips where
  "allowed_ips_allow_all = [NetV4 (ipv4_addr 0 0 0 0) 0, NetV6 (ipv6_addr 0 0 0 0 0 0 0 0) 0]"

text \<open>\<^verbatim>\<open>IpNetwork::network\<close>: the address without its host bits.\<close>

fun net_network :: "ip_network \<Rightarrow> ip_addr" where
  "net_network (NetV4 a p) = V4 (a AND prefix_mask p)"
| "net_network (NetV6 a p) = V6 (a AND prefix_mask p)"

datatype 'e allowed_ip_parse_error = ParseNetwork 'e | NonZeroHostBits ip_network ip_addr

text \<open>\<^verbatim>\<open>AllowedIps::parse\<close>; the parser of networks is that of the \<^verbatim>\<open>ipnetwork\<close> package.\<close>

definition allowed_ips_parse ::
  "(string \<Rightarrow> ('e, ip_network) result) \<Rightarrow> string list \<Rightarrow>
   ('e allowed_ip_parse_error, allowed_ips) result" where
  "allowed_ips_parse parse_network inputs =
     fold_result (\<lambda>input networks.
        let s = str_trim input
        in if s = [] then Inr networks
           else case parse_network s of
             Inl e \<Rightarrow> Inl (ParseNetwork e)
           | Inr net \<Rightarrow>
               if net_network net \<noteq> net_ip net then Inl (NonZeroHostBits net (net_network net))
               else Inr (networks @ [net])) inputs []"

definition allowed_ips_to_constraint :: "allowed_ips \<Rightarrow> allowed_ips constraint" where
  "allowed_ips_to_constraint ips = (if ips = [] then Any else Only ips)"

definition allowed_ips_resolve ::
  "allowed_ips \<Rightarrow> u32 option \<Rightarrow> u128 option \<Rightarrow> ip_network list" where
  "allowed_ips_resolve ips host_ipv4 host_ipv6 =
     ips @ (case host_ipv6 of Some h \<Rightarrow> [NetV6 h 128] | None \<Rightarrow> []) @
       (case host_ipv4 of Some h \<Rightarrow> [NetV4 h 32] | None \<Rightarrow> [])"

definition resolve_from_constraint ::
  "allowed_ips constraint \<Rightarrow> u32 option \<Rightarrow> u128 option \<Rightarrow> ip_network list" where
  "resolve_from_constraint allowed host_ipv4 host_ipv6 =
     allowed_ips_resolve
       (case allowed of
          Any \<Rightarrow> allowed_ips_allow_all
        | Only ips \<Rightarrow> if ips = [] then allowed_ips_allow_all else ips)
       host_ipv4 host_ipv6"

datatype quantum_resistant_state = QrAuto | QrOn | QrOff

definition quantum_enabled :: "quantum_resistant_state \<Rightarrow> bool" where
  "quantum_enabled s = (case s of QrAuto \<Rightarrow> True | QrOff \<Rightarrow> False | QrOn \<Rightarrow> True)"

fun quantum_intersection ::
  "quantum_resistant_state \<Rightarrow> quantum_resistant_state \<Rightarrow> quantum_resistant_state option" where
  "quantum_intersection QrAuto other = Some other"
| "quantum_intersection other QrAuto = Some other"
| "quantum_intersection val0 val1 = (if val0 = val1 then Some val0 else None)"

record relay_constraints =
  rc_location :: "location_constraint constraint"
  rc_providers :: "providers constraint"
  rc_ownership :: "ownership constraint"
  rc_tunnel_protocol :: tunnel_type
  rc_wireguard_constraints :: wireguard_constraints
  rc_openvpn_constraints :: openvpn_constraints

section \<open>Bridges and obfuscation\<close>

record bridge_constraints =
  bc_location :: "location_constraint constraint"
  bc_providers :: "providers constraint"
  bc_ownership :: "ownership constraint"

definition bridge_constraints_default :: bridge_constraints where
  "bridge_constraints_default = \<lparr>bc_location = Any, bc_providers = Any, bc_ownership = Any\<rparr>"

definition bridge_constraints_intersection ::
  "bridge_constraints \<Rightarrow> bridge_constraints \<Rightarrow> bridge_constraints option" where
  "bridge_constraints_intersection a b =
     Option.bind (only_if_equal (bc_location a) (bc_location b)) (\<lambda>location.
     Option.bind (only_if_equal (bc_providers a) (bc_providers b)) (\<lambda>providers.
     Option.bind (only_if_equal (bc_ownership a) (bc_ownership b)) (\<lambda>ownership.
     Some \<lparr>bc_location = location, bc_providers = providers, bc_ownership = ownership\<rparr>)))"

datatype bridge_type = BridgeNormal | BridgeCustom

datatype bridge_state = BridgeStateAuto | BridgeStateOn | BridgeStateOff

record bridge_settings =
  bs_bridge_type :: bridge_type
  bs_normal :: bridge_constraints
  bs_custom :: "custom_proxy option"

definition bridge_settings_default :: bridge_settings where
  "bridge_settings_default =
     \<lparr>bs_bridge_type = BridgeNormal, bs_normal = bridge_constraints_default, bs_custom = None\<rparr>"

datatype resolved_bridge_settings =
  ResolvedNormal bridge_constraints
| ResolvedCustom custom_proxy

datatype missing_custom_bridge_settings = MissingCustomBridgeSettings

definition bridge_settings_resolve ::
  "bridge_settings \<Rightarrow> (missing_custom_bridge_settings, resolved_bridge_settings) result" where
  "bridge_settings_resolve s =
     (case (bs_bridge_type s, bs_custom s) of
        (BridgeNormal, _) \<Rightarrow> Inr (ResolvedNormal (bs_normal s))
      | (BridgeCustom, Some custom) \<Rightarrow> Inr (ResolvedCustom custom)
      | (BridgeCustom, None) \<Rightarrow> Inl MissingCustomBridgeSettings)"

record internal_bridge_constraints =
  ib_location :: "location_constraint constraint"
  ib_providers :: "providers constraint"
  ib_ownership :: "ownership constraint"
  ib_transport_protocol :: "transport_protocol constraint"

datatype selected_obfuscation = SelAuto | SelOff | SelUdp2Tcp | SelShadowsocks | SelQuic | SelLwo

fun selected_obfuscation_intersection ::
  "selected_obfuscation \<Rightarrow> selected_obfuscation \<Rightarrow> selected_obfuscation option" where
  "selected_obfuscation_intersection left SelAuto = Some left"
| "selected_obfuscation_intersection SelAuto right = Some right"
| "selected_obfuscation_intersection left right = (if left = right then Some left else None)"

text \<open>\<^verbatim>\<open>Udp2TcpObfuscationSettings\<close> and \<^verbatim>\<open>ShadowsocksSettings\<close>.\<close>

record udp2tcp_settings =
  u2t_port :: "u16 constraint"

record shadowsocks_settings =
  sss_port :: "u16 constraint"

definition udp2tcp_settings_intersection ::
  "udp2tcp_settings \<Rightarrow> udp2tcp_settings \<Rightarrow> udp2tcp_settings option" where
  "udp2tcp_settings_intersection a b =
     Option.bind (only_if_equal (u2t_port a) (u2t_port b)) (\<lambda>port. Some \<lparr>u2t_port = port\<rparr>)"

definition shadowsocks_settings_intersection ::
  "shadowsocks_settings \<Rightarrow> shadowsocks_settings \<Rightarrow> shadowsocks_settings option" where
  "shadowsocks_settings_intersection a b =
     Option.bind (only_if_equal (sss_port a) (sss_port b)) (\<lambda>port. Some \<lparr>sss_port = port\<rparr>)"

record obfuscation_settings =
  ob_selected :: selected_obfuscation
  ob_udp2tcp :: udp2tcp_settings
  ob_shadowsocks :: shadowsocks_settings

definition obfuscation_settings_default :: obfuscation_settings where
  "obfuscation_settings_default =
     \<lparr>ob_selected = SelAuto, ob_udp2tcp = \<lparr>u2t_port = Any\<rparr>, ob_shadowsocks = \<lparr>sss_port = Any\<rparr>\<rparr>"

section \<open>Custom tunnels and relay settings\<close>

datatype custom_connection_config =
  CustomOpenVpn ovpn_connection_config
| CustomWireguard connection_config

record custom_tunnel_endpoint =
  ct_host :: string
  ct_config :: custom_connection_config

definition custom_endpoint :: "custom_tunnel_endpoint \<Rightarrow> endpoint" where
  "custom_endpoint e =
     (case ct_config e of
        CustomOpenVpn config \<Rightarrow> oc_endpoint config
      | CustomWireguard config \<Rightarrow> get_endpoint config)"

datatype relay_settings =
  CustomTunnelEndpoint custom_tunnel_endpoint
| Normal relay_constraints

fun supports_bridge :: "relay_settings \<Rightarrow> bool" where
  "supports_bridge (CustomTunnelEndpoint e) = (ep_protocol (custom_endpoint e) = Tcp)"
| "supports_bridge (Normal update) =
     (case ovc_port (rc_openvpn_constraints update) of
        Only port \<Rightarrow> tp_protocol port \<noteq> Udp
      | Any \<Rightarrow> True)"

section \<open>The contract of intersection\<close>

lemma transport_port_laws: "intersection_laws transport_port_intersection"
proof
  fix a b c :: transport_port
  show "transport_port_intersection a a = Some a"
    by (simp add: transport_port_intersection_def equal.idem simple.idem)
  show "transport_port_intersection a b = transport_port_intersection b a"
    by (auto simp: transport_port_intersection_def equal.commute [of "tp_protocol a"]
        simple.commute [of "tp_port a"] intersection_partialeq_def)
  show "Option.bind (transport_port_intersection a b) (\<lambda>ab. transport_port_intersection ab c) =
        Option.bind (transport_port_intersection b c) (\<lambda>bc. transport_port_intersection a bc)"
    using simple.assoc [of "tp_port a" "tp_port b" "tp_port c"]
    by (cases "only_if_equal (tp_port a) (tp_port b)"; cases "only_if_equal (tp_port b) (tp_port c)")
      (auto simp: transport_port_intersection_def intersection_partialeq_def)
qed

interpretation transport_port: intersection_laws transport_port_intersection
  by (rule transport_port_laws)

interpretation openvpn_port: intersection_unit "constraint_intersection transport_port_intersection" Any
  by (rule constraint_unit [OF transport_port_laws])

interpretation quantum: intersection_unit quantum_intersection QrAuto
proof
  fix a b c :: quantum_resistant_state
  show "quantum_intersection a a = Some a" by (cases a) auto
  show "quantum_intersection a b = quantum_intersection b a" by (cases a; cases b) auto
  show "Option.bind (quantum_intersection a b) (\<lambda>ab. quantum_intersection ab c) =
        Option.bind (quantum_intersection b c) (\<lambda>bc. quantum_intersection a bc)"
    by (cases a; cases b; cases c) auto
  show "quantum_intersection QrAuto a = Some a" by simp
qed

interpretation selected_obfuscation: intersection_unit selected_obfuscation_intersection SelAuto
proof
  fix a b c :: selected_obfuscation
  show "selected_obfuscation_intersection a a = Some a" by (cases a) auto
  show "selected_obfuscation_intersection a b = selected_obfuscation_intersection b a"
    by (cases a; cases b) auto
  show "Option.bind (selected_obfuscation_intersection a b) (\<lambda>ab. selected_obfuscation_intersection ab c) =
        Option.bind (selected_obfuscation_intersection b c) (\<lambda>bc. selected_obfuscation_intersection a bc)"
    by (cases a; cases b; cases c) auto
  show "selected_obfuscation_intersection SelAuto a = Some a" by (cases a) auto
qed

lemma bridge_constraints_laws: "intersection_laws bridge_constraints_intersection"
proof
  fix a b c :: bridge_constraints
  show "bridge_constraints_intersection a a = Some a"
    by (simp add: bridge_constraints_intersection_def simple.idem)
  show "bridge_constraints_intersection a b = bridge_constraints_intersection b a"
    by (simp add: bridge_constraints_intersection_def simple.commute [of "bc_location a"]
        simple.commute [of "bc_providers a"] simple.commute [of "bc_ownership a"])
  show "Option.bind (bridge_constraints_intersection a b) (\<lambda>ab. bridge_constraints_intersection ab c) =
        Option.bind (bridge_constraints_intersection b c) (\<lambda>bc. bridge_constraints_intersection a bc)"
    using simple.assoc [of "bc_location a" "bc_location b" "bc_location c"]
      simple.assoc [of "bc_providers a" "bc_providers b" "bc_providers c"]
      simple.assoc [of "bc_ownership a" "bc_ownership b" "bc_ownership c"]
    by (cases "only_if_equal (bc_location a) (bc_location b)";
        cases "only_if_equal (bc_location b) (bc_location c)";
        cases "only_if_equal (bc_providers a) (bc_providers b)";
        cases "only_if_equal (bc_providers b) (bc_providers c)";
        cases "only_if_equal (bc_ownership a) (bc_ownership b)";
        cases "only_if_equal (bc_ownership b) (bc_ownership c)")
      (auto simp: bridge_constraints_intersection_def bind_eq_None_conv)
qed

interpretation bridge_constraints: intersection_laws bridge_constraints_intersection
  by (rule bridge_constraints_laws)

text \<open>What a constraint on the location, the owner or the provider of a relay accepts.\<close>

interpretation ownership: criteria only_if_equal "constraint_matches ownership_matches"
  by (rule constraint_criteria [OF partialeq_criteria])

interpretation providers: criteria only_if_equal "constraint_matches providers_matches"
  by (rule constraint_criteria [OF partialeq_criteria])

end
