(* ===== verification/Parsed_Relays.thy ===== *)
theory Parsed_Relays
  imports Relay_Constraints
begin

text \<open>
  Overrides of relay addresses (\<^verbatim>\<open>RelayOverride\<close> of \<^verbatim>\<open>relay_constraints.rs\<close>) and the relay
  list with the overrides applied (\<^verbatim>\<open>parsed_relays.rs\<close> of \<^verbatim>\<open>mullvad-relay-selector\<close>). The
  lemmas describe the list in one equation, \<open>relays_parse_relay_list\<close>: provided that hostnames
  are unique, as the source assumes, each relay gets its city's location and the last override
  given for its hostname.
\<close>

record relay_override =
  ro_hostname :: string
  ro_ipv4_addr_in :: "u32 option"
  ro_ipv6_addr_in :: "u128 option"

definition override_empty :: "string \<Rightarrow> relay_override" where
  "override_empty hostname =
     \<lparr>ro_hostname = hostname, ro_ipv4_addr_in = None, ro_ipv6_addr_in = None\<rparr>"

definition override_is_empty :: "relay_override \<Rightarrow> bool" where
  "override_is_empty ov \<longleftrightarrow> ov = override_empty (ro_hostname ov)"

definition keeps_address :: "relay_override \<Rightarrow> ip_addr \<Rightarrow> bool" where
  "keeps_address ov addr \<longleftrightarrow>
     ro_ipv4_addr_in ov = None \<and> is_ipv4 addr \<or> ro_ipv6_addr_in ov = None \<and> \<not> is_ipv4 addr"

definition apply_to_relay :: "relay_override \<Rightarrow> relay \<Rightarrow> relay" where
  "apply_to_relay ov relay0 =
     (let relay1 = (case ro_ipv4_addr_in ov of
            Some a \<Rightarrow> override_ipv4 relay0 a | None \<Rightarrow> relay0);
          relay2 = (case ro_ipv6_addr_in ov of
            Some a \<Rightarrow> override_ipv6 relay1 a | None \<Rightarrow> relay1)
      in case rl_endpoint_data relay2 of
           RelayWireguard data \<Rightarrow>
             relay2\<lparr>rl_endpoint_data := RelayWireguard
               (data\<lparr>wr_shadowsocks_extra_addr_in :=
                  filter (keeps_address ov) (wr_shadowsocks_extra_addr_in data)\<rparr>)\<rparr>
         | RelayOpenvpn \<Rightarrow> relay2
         | RelayBridge \<Rightarrow> relay2)"

section \<open>Parsing\<close>

type_synonym overrides_map = "string \<rightharpoonup> relay_override"

definition remaining_overrides :: "relay_override list \<Rightarrow> overrides_map" where
  "remaining_overrides overrides = fold (\<lambda>ov m. m(ro_hostname ov \<mapsto> ov)) overrides Map.empty"

definition UDP2TCP_PORTS :: "u16 list" where
  "UDP2TCP_PORTS = [80, 5001]"

definition city_location :: "relay_list_country \<Rightarrow> relay_list_city \<Rightarrow> location" where
  "city_location country city =
     \<lparr>loc_country = cn_name country, loc_country_code = cn_code country,
      loc_city = ci_name city, loc_city_code = ci_code city,
      loc_latitude = ci_latitude city, loc_longitude = ci_longitude city\<rparr>"

text \<open>The body of the three loops: an override is used once, by the first relay that matches.\<close>

definition apply_override :: "relay \<Rightarrow> overrides_map \<Rightarrow> relay \<times> overrides_map" where
  "apply_override r remaining =
     (case remaining (rl_hostname r) of
        Some ov \<Rightarrow> (apply_to_relay ov r, remaining(rl_hostname r := None))
      | None \<Rightarrow> (r, remaining))"

definition parse_relay ::
  "relay_list_country \<Rightarrow> relay_list_city \<Rightarrow> relay \<Rightarrow> overrides_map \<Rightarrow> relay \<times> overrides_map" where
  "parse_relay country city r = apply_override (r\<lparr>rl_location := city_location country city\<rparr>)"

definition parse_city ::
  "relay_list_country \<Rightarrow> relay_list_city \<Rightarrow> overrides_map \<Rightarrow> relay_list_city \<times> overrides_map" where
  "parse_city country city remaining =
     (let (rs, remaining') = map_state (parse_relay country city) (ci_relays city) remaining
      in (city\<lparr>ci_relays := rs\<rparr>, remaining'))"

definition parse_country ::
  "relay_list_country \<Rightarrow> overrides_map \<Rightarrow> relay_list_country \<times> overrides_map" where
  "parse_country country remaining =
     (let (cities, remaining') = map_state (parse_city country) (cn_cities country) remaining
      in (country\<lparr>cn_cities := cities\<rparr>, remaining'))"

definition parse_relay_list :: "relay_list \<Rightarrow> relay_override list \<Rightarrow> relay_list" where
  "parse_relay_list relay_list0 overrides =
     (let wireguard = rs_wireguard relay_list0;
          wireguard' = (if we_udp2tcp_ports wireguard = []
            then wireguard\<lparr>we_udp2tcp_ports := UDP2TCP_PORTS\<rparr> else wireguard);
          (countries, _) =
            map_state parse_country (rs_countries relay_list0) (remaining_overrides overrides)
      in relay_list0\<lparr>rs_wireguard := wireguard', rs_countries := countries\<rparr>)"

section \<open>The parsed list as a state\<close>

text \<open>\<^verbatim>\<open>SystemTime\<close> is the time since the epoch.\<close>

record parsed_relays =
  pr_last_updated :: nat
  pr_parsed_list :: relay_list
  pr_original_list :: relay_list
  pr_overrides :: "relay_override list"

definition from_relay_list :: "relay_list \<Rightarrow> nat \<Rightarrow> relay_override list \<Rightarrow> parsed_relays" where
  "from_relay_list relay_list0 last_updated overrides =
     \<lparr>pr_last_updated = last_updated, pr_parsed_list = parse_relay_list relay_list0 overrides,
      pr_original_list = relay_list0, pr_overrides = overrides\<rparr>"

definition parsed_relays_update :: "parsed_relays \<Rightarrow> relay_list \<Rightarrow> nat \<Rightarrow> parsed_relays" where
  "parsed_relays_update self new_relays now = from_relay_list new_relays now (pr_overrides self)"

definition set_overrides :: "parsed_relays \<Rightarrow> relay_override list \<Rightarrow> parsed_relays" where
  "set_overrides self new_overrides =
     self\<lparr>pr_parsed_list := parse_relay_list (pr_original_list self) new_overrides,
          pr_overrides := new_overrides\<rparr>"

definition parsed_relays_empty :: parsed_relays where
  "parsed_relays_empty =
     \<lparr>pr_last_updated = 0, pr_parsed_list = relay_list_empty,
      pr_original_list = relay_list_empty, pr_overrides = []\<rparr>"

text \<open>
  Reading from disk: a file gives the time of its last change and the list, or an error.
\<close>

definition from_file_inner ::
  "('e, nat \<times> relay_list) result \<Rightarrow> relay_override list \<Rightarrow> ('e, parsed_relays) result" where
  "from_file_inner file overrides =
     and_then file (\<lambda>(last_modified, relay_list0).
       Inr (from_relay_list relay_list0 last_modified overrides))"

definition from_file ::
  "('e, nat \<times> relay_list) result \<Rightarrow> ('e, nat \<times> relay_list) result \<Rightarrow> relay_override list \<Rightarrow>
   ('e, parsed_relays) result" where
  "from_file cache resource overrides =
     (let cached_relays = from_file_inner cache overrides
      in case from_file_inner resource overrides of
           Inl e \<Rightarrow> cached_relays
         | Inr bundled_relays \<Rightarrow>
             (case cached_relays of
                Inr cached \<Rightarrow>
                  if pr_last_updated bundled_relays < pr_last_updated cached
                  then cached_relays else Inr bundled_relays
              | Inl e \<Rightarrow> Inr bundled_relays))"

section \<open>What parsing gives\<close>

lemma hostname_apply_to_relay [simp]:
  "rl_hostname (apply_to_relay ov r) = rl_hostname r"
  "rl_location (apply_to_relay ov r) = rl_location r"
  by (simp_all add: apply_to_relay_def override_ipv4_def override_ipv6_def Let_def
      split: option.splits relay_endpoint_data.splits)

definition located_relays :: "relay_list \<Rightarrow> relay list" where
  "located_relays l =
     concat (map (\<lambda>country. concat (map (\<lambda>city.
        map (\<lambda>r. r\<lparr>rl_location := city_location country city\<rparr>) (ci_relays city))
      (cn_cities country))) (rs_countries l))"

lemma hostnames_located: "map rl_hostname (located_relays l) = map rl_hostname (relays l)"
proof -
  have "map rl_hostname (concat (map (\<lambda>city.
        map (\<lambda>r. r\<lparr>rl_location := city_location country city\<rparr>) (ci_relays city)) cities)) =
      map rl_hostname (concat (map ci_relays cities))" for country cities
    by (induction cities) (simp_all add: o_def)
  then have "map rl_hostname (concat (map (\<lambda>country. concat (map (\<lambda>city.
        map (\<lambda>r. r\<lparr>rl_location := city_location country city\<rparr>) (ci_relays city))
      (cn_cities country))) countries)) =
      map rl_hostname (concat (map ci_relays (concat (map cn_cities countries))))" for countries
    by (induction countries) simp_all
  then show ?thesis
    by (simp add: located_relays_def relays_def)
qed

lemma parse_city_relays:
  "ci_relays (fst (parse_city country city m)) =
     fst (map_state apply_override (map (\<lambda>r. r\<lparr>rl_location := city_location country city\<rparr>) (ci_relays city)) m)
   \<and> snd (parse_city country city m) =
     snd (map_state apply_override (map (\<lambda>r. r\<lparr>rl_location := city_location country city\<rparr>) (ci_relays city)) m)"
  by (simp add: parse_city_def map_state_map parse_relay_def [abs_def] case_prod_beta o_def)

lemma parse_country_relays:
  "concat (map ci_relays (cn_cities (fst (parse_country country m)))) =
     fst (map_state apply_override (concat (map (\<lambda>city.
        map (\<lambda>r. r\<lparr>rl_location := city_location country city\<rparr>) (ci_relays city)) (cn_cities country))) m)
   \<and> snd (parse_country country m) =
     snd (map_state apply_override (concat (map (\<lambda>city.
        map (\<lambda>r. r\<lparr>rl_location := city_location country city\<rparr>) (ci_relays city)) (cn_cities country))) m)"
  using map_state_project [where g = ci_relays and f = "parse_city country" and xs = "cn_cities country"
      and s = m, OF parse_city_relays]
  by (simp add: parse_country_def case_prod_beta map_state_concat map_state_map o_def)

lemma relays_by_country:
  "relays l = concat (map (\<lambda>c. concat (map ci_relays (cn_cities c))) (rs_countries l))"
proof -
  have "concat (map ci_relays (concat (map cn_cities cs))) =
      concat (map (\<lambda>c. concat (map ci_relays (cn_cities c))) cs)" for cs
    by (induction cs) simp_all
  then show ?thesis by (simp add: relays_def)
qed

lemma relays_parse:
  "relays (parse_relay_list l overrides) =
     fst (map_state apply_override (located_relays l) (remaining_overrides overrides))"
proof -
  define located where "located country = concat (map (\<lambda>city.
      map (\<lambda>r. r\<lparr>rl_location := city_location country city\<rparr>) (ci_relays city)) (cn_cities country))"
    for country
  define m where "m = remaining_overrides overrides"
  have "relays (parse_relay_list l overrides) =
      concat (map (\<lambda>c. concat (map ci_relays (cn_cities c))) (fst (map_state parse_country (rs_countries l) m)))"
    by (simp add: relays_by_country parse_relay_list_def m_def case_prod_beta Let_def)
  also have "map (\<lambda>c. concat (map ci_relays (cn_cities c))) (fst (map_state parse_country (rs_countries l) m)) =
      fst (map_state (\<lambda>country. map_state apply_override (located country)) (rs_countries l) m)"
    unfolding located_def
    by (rule map_state_project [THEN conjunct1]) (rule parse_country_relays)
  also have "concat \<dots> = fst (map_state apply_override (located_relays l) m)"
    by (simp add: located_relays_def located_def [symmetric] map_state_concat map_state_map o_def)
  finally show ?thesis by (simp add: m_def)
qed

definition override_relay :: "overrides_map \<Rightarrow> relay \<Rightarrow> relay" where
  "override_relay m r = (case m (rl_hostname r) of Some ov \<Rightarrow> apply_to_relay ov r | None \<Rightarrow> r)"

lemma map_state_apply_override:
  assumes "distinct (map rl_hostname rs)"
  shows "fst (map_state apply_override rs m) = map (override_relay m) rs"
  using assms
proof (induction rs arbitrary: m)
  case (Cons r rs)
  have "override_relay (m(rl_hostname r := None)) x = override_relay m x" if "x \<in> set rs" for x
    using Cons.prems that by (auto simp: override_relay_def image_iff)
  with Cons show ?case
    by (auto simp: apply_override_def override_relay_def case_prod_beta Let_def split: option.splits)
qed simp

lemma relays_parse_relay_list:
  assumes "distinct (map rl_hostname (relays l))"
  shows "relays (parse_relay_list l overrides) =
    map (override_relay (remaining_overrides overrides)) (located_relays l)"
  by (simp add: relays_parse map_state_apply_override hostnames_located assms)

text \<open>Of several overrides for one hostname the last counts.\<close>

lemma remaining_overrides_append [simp]:
  "remaining_overrides (overrides @ [ov]) = (remaining_overrides overrides)(ro_hostname ov \<mapsto> ov)"
  by (simp add: remaining_overrides_def)

lemma apply_to_relay_addresses:
  "rl_ipv4_addr_in (apply_to_relay ov r) =
     (case ro_ipv4_addr_in ov of Some a \<Rightarrow> a | None \<Rightarrow> rl_ipv4_addr_in r)"
  "rl_ipv6_addr_in (apply_to_relay ov r) =
     (case ro_ipv6_addr_in ov of Some a \<Rightarrow> Some a | None \<Rightarrow> rl_ipv6_addr_in r)"
  by (simp_all add: apply_to_relay_def override_ipv4_def override_ipv6_def Let_def
      split: option.splits relay_endpoint_data.splits)

lemma apply_to_relay_wireguard:
  "relay_wireguard (apply_to_relay ov r) =
     map_option (\<lambda>data. data\<lparr>wr_shadowsocks_extra_addr_in :=
        filter (keeps_address ov) (wr_shadowsocks_extra_addr_in data)\<rparr>) (relay_wireguard r)"
  by (simp add: apply_to_relay_def relay_wireguard_def override_ipv4_def override_ipv6_def Let_def
      split: option.splits relay_endpoint_data.splits)

lemma located_relays_location:
  "r \<in> set (located_relays l) \<Longrightarrow>
     \<exists>country \<in> set (rs_countries l). \<exists>city \<in> set (cn_cities country). rl_location r = city_location country city"
  unfolding located_relays_def by auto blast

end
