(* ===== verification/Relay_Query.thy ===== *)
theory Relay_Query
  imports Parsed_Relays
begin

text \<open>
  Relay queries: \<^verbatim>\<open>query.rs\<close>, \<^verbatim>\<open>relays.rs\<close> and \<^verbatim>\<open>error.rs\<close> of
  \<^verbatim>\<open>mullvad-relay-selector\<close>. A query collects constraints; two queries intersect field by
  field. The lemmas show which fields satisfy the contract of \<open>intersection_laws\<close> and which do
  not (\<^verbatim>\<open>ObfuscationQuery\<close>), that the setters keep queries valid, and what the typed builder
  produces.
\<close>

section \<open>Data\<close>

datatype obfuscation_query =
  ObfOff
| ObfAuto
| ObfUdp2tcp udp2tcp_settings
| ObfShadowsocks shadowsocks_settings
| ObfQuic
| ObfLwo

record wireguard_relay_query =
  wq_port :: "u16 constraint"
  wq_ip_version :: "ip_version constraint"
  wq_allowed_ips :: "allowed_ips constraint"
  wq_use_multihop :: "bool constraint"
  wq_entry_location :: "location_constraint constraint"
  wq_obfuscation :: obfuscation_query
  wq_daita :: "bool constraint"
  wq_daita_use_multihop_if_necessary :: "bool constraint"
  wq_quantum_resistant :: quantum_resistant_state

datatype bridge_query =
  BridgeOff
| BridgeAuto
| BridgeNormalQuery bridge_constraints
| BridgeCustomQuery "custom_proxy option"

record openvpn_relay_query =
  oq_port :: "transport_port constraint"
  oq_bridge_settings :: bridge_query

record relay_query =
  rq_location :: "location_constraint constraint"
  rq_providers :: "providers constraint"
  rq_ownership :: "ownership constraint"
  rq_tunnel_protocol :: tunnel_type
  rq_wireguard_constraints :: wireguard_relay_query
  rq_openvpn_constraints :: openvpn_relay_query

text \<open>The relays that make up a WireGuard connection; the exit comes first.\<close>

datatype wireguard_config = Singlehop relay | Multihop relay relay

datatype detailer_error =
  NoOpenVpnEndpoint
| NoBridgeEndpoint
| MissingPublicKey
| NoIPv6 relay
| PortSelectionError

datatype endpoint_error_details = DetailsWireguard wireguard_config | DetailsOpenVpn relay

datatype helpers_error = NoMatchingPort

datatype selector_error =
  OpenRelayCache
| WriteRelayCache
| InvalidConstraints
| NoRelay relay_query
| NoBridge
| NoObfuscator helpers_error
| NoEndpoint detailer_error endpoint_error_details
| SerializeError
| InvalidBridgeSettings missing_custom_bridge_settings
| SelectorIpVersionUnavailable ip_version

section \<open>WireGuard and OpenVPN queries\<close>

definition wireguard_relay_query_new :: wireguard_relay_query where
  "wireguard_relay_query_new =
     \<lparr>wq_port = Any, wq_ip_version = Any, wq_allowed_ips = Any, wq_use_multihop = Any,
      wq_entry_location = Any, wq_obfuscation = ObfAuto, wq_daita = Any,
      wq_daita_use_multihop_if_necessary = Any, wq_quantum_resistant = QrAuto\<rparr>"

definition multihop :: "wireguard_relay_query \<Rightarrow> bool" where
  "multihop q \<longleftrightarrow> wq_use_multihop q = Only True"

definition wireguard_into_constraints :: "wireguard_relay_query \<Rightarrow> wireguard_constraints" where
  "wireguard_into_constraints q =
     \<lparr>wgc_port = wq_port q, wgc_ip_version = wq_ip_version q, wgc_allowed_ips = wq_allowed_ips q,
      wgc_use_multihop = constraint_unwrap_or (wq_use_multihop q) False,
      wgc_entry_location = wq_entry_location q\<rparr>"

fun obfuscation_into_settings :: "obfuscation_query \<Rightarrow> obfuscation_settings" where
  "obfuscation_into_settings ObfAuto = obfuscation_settings_default\<lparr>ob_selected := SelAuto\<rparr>"
| "obfuscation_into_settings ObfOff = obfuscation_settings_default\<lparr>ob_selected := SelOff\<rparr>"
| "obfuscation_into_settings (ObfUdp2tcp s) =
     obfuscation_settings_default\<lparr>ob_selected := SelUdp2Tcp, ob_udp2tcp := s\<rparr>"
| "obfuscation_into_settings (ObfShadowsocks s) =
     obfuscation_settings_default\<lparr>ob_selected := SelShadowsocks, ob_shadowsocks := s\<rparr>"
| "obfuscation_into_settings ObfQuic = obfuscation_settings_default\<lparr>ob_selected := SelQuic\<rparr>"
| "obfuscation_into_settings ObfLwo = obfuscation_settings_default\<lparr>ob_selected := SelLwo\<rparr>"

definition obfuscation_query_from :: "obfuscation_settings \<Rightarrow> obfuscation_query" where
  "obfuscation_query_from s =
     (case ob_selected s of
        SelOff \<Rightarrow> ObfOff
      | SelAuto \<Rightarrow> ObfAuto
      | SelUdp2Tcp \<Rightarrow> ObfUdp2tcp (ob_udp2tcp s)
      | SelShadowsocks \<Rightarrow> ObfShadowsocks (ob_shadowsocks s)
      | SelQuic \<Rightarrow> ObfQuic
      | SelLwo \<Rightarrow> ObfLwo)"

text \<open>The arms of the \<^verbatim>\<open>match\<close>, in their order.\<close>

fun obfuscation_intersection ::
  "obfuscation_query \<Rightarrow> obfuscation_query \<Rightarrow> obfuscation_query option" where
  "obfuscation_intersection ObfOff _ = Some ObfOff"
| "obfuscation_intersection _ ObfOff = Some ObfOff"
| "obfuscation_intersection ObfAuto other = Some other"
| "obfuscation_intersection other ObfAuto = Some other"
| "obfuscation_intersection (ObfUdp2tcp a) (ObfUdp2tcp b) =
     map_option ObfUdp2tcp (udp2tcp_settings_intersection a b)"
| "obfuscation_intersection (ObfShadowsocks a) (ObfShadowsocks b) =
     map_option ObfShadowsocks (shadowsocks_settings_intersection a b)"
| "obfuscation_intersection _ _ = None"

definition wireguard_query_intersection ::
  "wireguard_relay_query \<Rightarrow> wireguard_relay_query \<Rightarrow> wireguard_relay_query option" where
  "wireguard_query_intersection a b =
     Option.bind (only_if_equal (wq_port a) (wq_port b)) (\<lambda>port.
     Option.bind (only_if_equal (wq_ip_version a) (wq_ip_version b)) (\<lambda>ip_version.
     Option.bind (only_if_equal (wq_allowed_ips a) (wq_allowed_ips b)) (\<lambda>allowed_ips.
     Option.bind (only_if_equal (wq_use_multihop a) (wq_use_multihop b)) (\<lambda>use_multihop.
     Option.bind (only_if_equal (wq_entry_location a) (wq_entry_location b)) (\<lambda>entry_location.
     Option.bind (obfuscation_intersection (wq_obfuscation a) (wq_obfuscation b)) (\<lambda>obfuscation.
     Option.bind (only_if_equal (wq_daita a) (wq_daita b)) (\<lambda>daita.
     Option.bind (only_if_equal (wq_daita_use_multihop_if_necessary a)
                    (wq_daita_use_multihop_if_necessary b)) (\<lambda>if_necessary.
     Option.bind (quantum_intersection (wq_quantum_resistant a) (wq_quantum_resistant b)) (\<lambda>quantum.
     Some \<lparr>wq_port = port, wq_ip_version = ip_version, wq_allowed_ips = allowed_ips,
           wq_use_multihop = use_multihop, wq_entry_location = entry_location,
           wq_obfuscation = obfuscation, wq_daita = daita,
           wq_daita_use_multihop_if_necessary = if_necessary,
           wq_quantum_resistant = quantum\<rparr>)))))))))"

definition openvpn_relay_query_new :: openvpn_relay_query where
  "openvpn_relay_query_new = \<lparr>oq_port = Any, oq_bridge_settings = BridgeAuto\<rparr>"

definition openvpn_into_constraints :: "openvpn_relay_query \<Rightarrow> openvpn_constraints" where
  "openvpn_into_constraints q = \<lparr>ovc_port = oq_port q\<rparr>"

fun should_use_bridge :: "bridge_query \<Rightarrow> bool" where
  "should_use_bridge (BridgeNormalQuery _) = True"
| "should_use_bridge (BridgeCustomQuery _) = True"
| "should_use_bridge BridgeOff = False"
| "should_use_bridge BridgeAuto = False"

fun bridge_into_settings :: "bridge_query \<Rightarrow> bridge_state \<times> bridge_settings" where
  "bridge_into_settings BridgeOff = (BridgeStateOff, bridge_settings_default)"
| "bridge_into_settings BridgeAuto = (BridgeStateAuto, bridge_settings_default)"
| "bridge_into_settings (BridgeNormalQuery constraints) =
     (BridgeStateOn,
      \<lparr>bs_bridge_type = BridgeNormal, bs_normal = constraints, bs_custom = None\<rparr>)"
| "bridge_into_settings (BridgeCustomQuery custom) =
     (BridgeStateOn,
      \<lparr>bs_bridge_type = BridgeNormal, bs_normal = bridge_constraints_default, bs_custom = custom\<rparr>)"

fun bridge_intersection :: "bridge_query \<Rightarrow> bridge_query \<Rightarrow> bridge_query option" where
  "bridge_intersection (BridgeNormalQuery left) (BridgeNormalQuery right) =
     map_option BridgeNormalQuery (bridge_constraints_intersection left right)"
| "bridge_intersection BridgeAuto right = Some right"
| "bridge_intersection left BridgeAuto = Some left"
| "bridge_intersection left right = (if left = right then Some left else None)"

definition openvpn_query_intersection ::
  "openvpn_relay_query \<Rightarrow> openvpn_relay_query \<Rightarrow> openvpn_relay_query option" where
  "openvpn_query_intersection a b =
     Option.bind (constraint_intersection transport_port_intersection (oq_port a) (oq_port b)) (\<lambda>port.
     Option.bind (bridge_intersection (oq_bridge_settings a) (oq_bridge_settings b)) (\<lambda>bridge_settings.
     Some \<lparr>oq_port = port, oq_bridge_settings = bridge_settings\<rparr>))"

section \<open>Relay queries\<close>

definition core_privacy_feature_enabled :: "relay_query \<Rightarrow> bool" where
  "core_privacy_feature_enabled q \<longleftrightarrow>
     wq_daita (rq_wireguard_constraints q) = Only True \<or>
     multihop (rq_wireguard_constraints q) \<or>
     wq_quantum_resistant (rq_wireguard_constraints q) = QrOn"

definition validate :: "relay_query \<Rightarrow> (selector_error, relay_query) result" where
  "validate q =
     (if core_privacy_feature_enabled q
      then if rq_tunnel_protocol q = TypeOpenVpn then Inl InvalidConstraints
           else Inr (q\<lparr>rq_tunnel_protocol := TypeWireguard\<rparr>)
      else Inr q)"

definition relay_query_new ::
  "location_constraint constraint \<Rightarrow> providers constraint \<Rightarrow> ownership constraint \<Rightarrow> tunnel_type \<Rightarrow>
   wireguard_relay_query \<Rightarrow> openvpn_relay_query \<Rightarrow> (selector_error, relay_query) result" where
  "relay_query_new location providers ownership tunnel_protocol wireguard openvpn =
     validate \<lparr>rq_location = location, rq_providers = providers, rq_ownership = ownership,
       rq_tunnel_protocol = tunnel_protocol, rq_wireguard_constraints = wireguard,
       rq_openvpn_constraints = openvpn\<rparr>"

text \<open>A setter leaves the query unchanged when the new one is not valid.\<close>

definition set_if_valid ::
  "(relay_query \<Rightarrow> relay_query) \<Rightarrow> relay_query \<Rightarrow> (selector_error, relay_query) result" where
  "set_if_valid set_fn q = validate (set_fn q)"

definition set_location ::
  "location_constraint constraint \<Rightarrow> relay_query \<Rightarrow> (selector_error, relay_query) result" where
  "set_location location = set_if_valid (\<lambda>q. q\<lparr>rq_location := location\<rparr>)"

definition set_tunnel_protocol ::
  "tunnel_type \<Rightarrow> relay_query \<Rightarrow> (selector_error, relay_query) result" where
  "set_tunnel_protocol tunnel_protocol = set_if_valid (\<lambda>q. q\<lparr>rq_tunnel_protocol := tunnel_protocol\<rparr>)"

definition set_openvpn_constraints ::
  "openvpn_relay_query \<Rightarrow> relay_query \<Rightarrow> (selector_error, relay_query) result" where
  "set_openvpn_constraints openvpn = set_if_valid (\<lambda>q. q\<lparr>rq_openvpn_constraints := openvpn\<rparr>)"

definition set_wireguard_constraints ::
  "wireguard_relay_query \<Rightarrow> relay_query \<Rightarrow> (selector_error, relay_query) result" where
  "set_wireguard_constraints wireguard = set_if_valid (\<lambda>q. q\<lparr>rq_wireguard_constraints := wireguard\<rparr>)"

definition into_settings ::
  "relay_query \<Rightarrow> relay_constraints \<times> bridge_state \<times> bridge_settings \<times> obfuscation_settings" where
  "into_settings q =
     (let (bridge_state, bridge_settings) =
            bridge_into_settings (oq_bridge_settings (rq_openvpn_constraints q));
          obfuscation = obfuscation_into_settings (wq_obfuscation (rq_wireguard_constraints q));
          constraints = \<lparr>rc_location = rq_location q, rc_providers = rq_providers q,
            rc_ownership = rq_ownership q, rc_tunnel_protocol = rq_tunnel_protocol q,
            rc_wireguard_constraints = wireguard_into_constraints (rq_wireguard_constraints q),
            rc_openvpn_constraints = openvpn_into_constraints (rq_openvpn_constraints q)\<rparr>
      in (constraints, bridge_state, bridge_settings, obfuscation))"

definition relay_query_default :: relay_query where
  "relay_query_default =
     \<lparr>rq_location = Any, rq_providers = Any, rq_ownership = Any,
      rq_tunnel_protocol = TypeWireguard,
      rq_wireguard_constraints = wireguard_relay_query_new,
      rq_openvpn_constraints = openvpn_relay_query_new\<rparr>"

definition query_intersection :: "relay_query \<Rightarrow> relay_query \<Rightarrow> relay_query option" where
  "query_intersection a b =
     Option.bind (only_if_equal (rq_location a) (rq_location b)) (\<lambda>location.
     Option.bind (only_if_equal (rq_providers a) (rq_providers b)) (\<lambda>providers.
     Option.bind (only_if_equal (rq_ownership a) (rq_ownership b)) (\<lambda>ownership.
     Option.bind (intersection_partialeq (rq_tunnel_protocol a) (rq_tunnel_protocol b)) (\<lambda>tunnel_protocol.
     Option.bind (wireguard_query_intersection (rq_wireguard_constraints a)
                    (rq_wireguard_constraints b)) (\<lambda>wireguard.
     Option.bind (openvpn_query_intersection (rq_openvpn_constraints a)
                    (rq_openvpn_constraints b)) (\<lambda>openvpn.
     Some \<lparr>rq_location = location, rq_providers = providers, rq_ownership = ownership,
           rq_tunnel_protocol = tunnel_protocol, rq_wireguard_constraints = wireguard,
           rq_openvpn_constraints = openvpn\<rparr>))))))"

definition using_daita :: "relay_query \<Rightarrow> bool" where
  "using_daita q = is_only_and (wq_daita (rq_wireguard_constraints q)) (\<lambda>enabled. enabled)"

definition use_multihop_if_necessary :: "relay_query \<Rightarrow> bool" where
  "use_multihop_if_necessary q =
     (only_if_equal (wq_daita_use_multihop_if_necessary (rq_wireguard_constraints q)) (Only True) \<noteq> None)"

definition singlehop :: "relay_query \<Rightarrow> bool" where
  "singlehop q = (\<not> multihop (rq_wireguard_constraints q))"


section \<open>The builder\<close>

text \<open>
  \<^verbatim>\<open>RelayQueryBuilder\<close> tracks in its type what has been configured: \<open>any_state\<close> is the
  struct \<^verbatim>\<open>Any\<close>, and a setter that is offered only in that state returns a builder whose type
  no longer has it. The assertion of \<^verbatim>\<open>build\<close> is compiled into debug builds only.
\<close>

datatype any_state = AnyState
datatype quic_state = QuicState
datatype lwo_state = LwoState

record 'p relay_query_builder =
  bd_query :: relay_query
  bd_protocol :: 'p

record ('m, 'o, 'd, 'q) wireguard_builder =
  wb_multihop :: 'm
  wb_obfuscation :: 'o
  wb_daita :: 'd
  wb_quantum_resistant :: 'q

record ('t, 'b) openvpn_builder =
  ob_transport_port :: 't
  ob_bridge_settings :: 'b

abbreviation map_wireguard ::
  "(wireguard_relay_query \<Rightarrow> wireguard_relay_query) \<Rightarrow> relay_query \<Rightarrow> relay_query" where
  "map_wireguard f q \<equiv> q\<lparr>rq_wireguard_constraints := f (rq_wireguard_constraints q)\<rparr>"

abbreviation map_openvpn ::
  "(openvpn_relay_query \<Rightarrow> openvpn_relay_query) \<Rightarrow> relay_query \<Rightarrow> relay_query" where
  "map_openvpn f q \<equiv> q\<lparr>rq_openvpn_constraints := f (rq_openvpn_constraints q)\<rparr>"

definition builder_location ::
  "'p relay_query_builder \<Rightarrow> location_constraint \<Rightarrow> 'p relay_query_builder" where
  "builder_location b location = b\<lparr>bd_query := (bd_query b)\<lparr>rq_location := Only location\<rparr>\<rparr>"

definition builder_ownership ::
  "'p relay_query_builder \<Rightarrow> ownership \<Rightarrow> 'p relay_query_builder" where
  "builder_ownership b ownership = b\<lparr>bd_query := (bd_query b)\<lparr>rq_ownership := Only ownership\<rparr>\<rparr>"

definition builder_providers ::
  "'p relay_query_builder \<Rightarrow> providers \<Rightarrow> 'p relay_query_builder" where
  "builder_providers b providers = b\<lparr>bd_query := (bd_query b)\<lparr>rq_providers := Only providers\<rparr>\<rparr>"

definition build :: "'p relay_query_builder \<Rightarrow> relay_query" where
  "build b = bd_query b"

definition builder_wireguard ::
  "(any_state, any_state, any_state, any_state) wireguard_builder relay_query_builder" where
  "builder_wireguard =
     \<lparr>bd_query = relay_query_default\<lparr>rq_tunnel_protocol := TypeWireguard\<rparr>,
      bd_protocol = \<lparr>wb_multihop = AnyState, wb_obfuscation = AnyState, wb_daita = AnyState,
        wb_quantum_resistant = AnyState\<rparr>\<rparr>"

definition builder_openvpn :: "(any_state, any_state) openvpn_builder relay_query_builder" where
  "builder_openvpn =
     \<lparr>bd_query = relay_query_default\<lparr>rq_tunnel_protocol := TypeOpenVpn\<rparr>,
      bd_protocol = \<lparr>ob_transport_port = AnyState, ob_bridge_settings = AnyState\<rparr>\<rparr>"

definition builder_port ::
  "('m, 'o, 'd, 'q) wireguard_builder relay_query_builder \<Rightarrow> u16 \<Rightarrow>
   ('m, 'o, 'd, 'q) wireguard_builder relay_query_builder" where
  "builder_port b port = b\<lparr>bd_query := map_wireguard (\<lambda>w. w\<lparr>wq_port := Only port\<rparr>) (bd_query b)\<rparr>"

definition builder_ip_version ::
  "('m, 'o, 'd, 'q) wireguard_builder relay_query_builder \<Rightarrow> ip_version \<Rightarrow>
   ('m, 'o, 'd, 'q) wireguard_builder relay_query_builder" where
  "builder_ip_version b ip_version =
     b\<lparr>bd_query := map_wireguard (\<lambda>w. w\<lparr>wq_ip_version := Only ip_version\<rparr>) (bd_query b)\<rparr>"

definition builder_daita ::
  "('m, 'o, any_state, 'q) wireguard_builder relay_query_builder \<Rightarrow>
   ('m, 'o, bool, 'q) wireguard_builder relay_query_builder" where
  "builder_daita b =
     \<lparr>bd_query = map_wireguard (\<lambda>w. w\<lparr>wq_daita := Only True\<rparr>) (bd_query b),
      bd_protocol = \<lparr>wb_multihop = wb_multihop (bd_protocol b),
        wb_obfuscation = wb_obfuscation (bd_protocol b), wb_daita = True,
        wb_quantum_resistant = wb_quantum_resistant (bd_protocol b)\<rparr>\<rparr>"

definition builder_daita_use_multihop_if_necessary ::
  "('m, 'o, bool, 'q) wireguard_builder relay_query_builder \<Rightarrow> bool constraint \<Rightarrow>
   ('m, 'o, bool, 'q) wireguard_builder relay_query_builder" where
  "builder_daita_use_multihop_if_necessary b c =
     b\<lparr>bd_query := map_wireguard (\<lambda>w. w\<lparr>wq_daita_use_multihop_if_necessary := c\<rparr>) (bd_query b)\<rparr>"

definition builder_quantum_resistant ::
  "('m, 'o, 'd, any_state) wireguard_builder relay_query_builder \<Rightarrow>
   ('m, 'o, 'd, bool) wireguard_builder relay_query_builder" where
  "builder_quantum_resistant b =
     \<lparr>bd_query = map_wireguard (\<lambda>w. w\<lparr>wq_quantum_resistant := QrOn\<rparr>) (bd_query b),
      bd_protocol = \<lparr>wb_multihop = wb_multihop (bd_protocol b),
        wb_obfuscation = wb_obfuscation (bd_protocol b), wb_daita = wb_daita (bd_protocol b),
        wb_quantum_resistant = True\<rparr>\<rparr>"

definition builder_multihop ::
  "(any_state, 'o, 'd, 'q) wireguard_builder relay_query_builder \<Rightarrow>
   (bool, 'o, 'd, 'q) wireguard_builder relay_query_builder" where
  "builder_multihop b =
     \<lparr>bd_query = map_wireguard (\<lambda>w. w\<lparr>wq_use_multihop := Only True\<rparr>) (bd_query b),
      bd_protocol = \<lparr>wb_multihop = True,
        wb_obfuscation = wb_obfuscation (bd_protocol b), wb_daita = wb_daita (bd_protocol b),
        wb_quantum_resistant = wb_quantum_resistant (bd_protocol b)\<rparr>\<rparr>"

definition builder_entry ::
  "(bool, 'o, 'd, 'q) wireguard_builder relay_query_builder \<Rightarrow> location_constraint \<Rightarrow>
   (bool, 'o, 'd, 'q) wireguard_builder relay_query_builder" where
  "builder_entry b location =
     b\<lparr>bd_query := map_wireguard (\<lambda>w. w\<lparr>wq_entry_location := Only location\<rparr>) (bd_query b)\<rparr>"

definition set_builder_obfuscation ::
  "('m, any_state, 'd, 'q) wireguard_builder relay_query_builder \<Rightarrow> obfuscation_query \<Rightarrow> 'o \<Rightarrow>
   ('m, 'o, 'd, 'q) wireguard_builder relay_query_builder" where
  "set_builder_obfuscation b query state =
     \<lparr>bd_query = map_wireguard (\<lambda>w. w\<lparr>wq_obfuscation := query\<rparr>) (bd_query b),
      bd_protocol = \<lparr>wb_multihop = wb_multihop (bd_protocol b),
        wb_obfuscation = state, wb_daita = wb_daita (bd_protocol b),
        wb_quantum_resistant = wb_quantum_resistant (bd_protocol b)\<rparr>\<rparr>"

definition builder_udp2tcp ::
  "('m, any_state, 'd, 'q) wireguard_builder relay_query_builder \<Rightarrow>
   ('m, udp2tcp_settings, 'd, 'q) wireguard_builder relay_query_builder" where
  "builder_udp2tcp b =
     (let obfuscation = \<lparr>u2t_port = Any\<rparr>
      in set_builder_obfuscation b (ObfUdp2tcp obfuscation) obfuscation)"

definition builder_shadowsocks ::
  "('m, any_state, 'd, 'q) wireguard_builder relay_query_builder \<Rightarrow>
   ('m, shadowsocks_settings, 'd, 'q) wireguard_builder relay_query_builder" where
  "builder_shadowsocks b =
     (let obfuscation = \<lparr>sss_port = Any\<rparr>
      in set_builder_obfuscation b (ObfShadowsocks obfuscation) obfuscation)"

definition builder_quic ::
  "('m, any_state, 'd, 'q) wireguard_builder relay_query_builder \<Rightarrow>
   ('m, quic_state, 'd, 'q) wireguard_builder relay_query_builder" where
  "builder_quic b = set_builder_obfuscation b ObfQuic QuicState"

definition builder_lwo ::
  "('m, any_state, 'd, 'q) wireguard_builder relay_query_builder \<Rightarrow>
   ('m, lwo_state, 'd, 'q) wireguard_builder relay_query_builder" where
  "builder_lwo b = set_builder_obfuscation b ObfLwo LwoState"

definition builder_udp2tcp_port ::
  "('m, udp2tcp_settings, 'd, 'q) wireguard_builder relay_query_builder \<Rightarrow> u16 \<Rightarrow>
   ('m, udp2tcp_settings, 'd, 'q) wireguard_builder relay_query_builder" where
  "builder_udp2tcp_port b port =
     (let obfuscation = (wb_obfuscation (bd_protocol b))\<lparr>u2t_port := Only port\<rparr>
      in b\<lparr>bd_protocol := (bd_protocol b)\<lparr>wb_obfuscation := obfuscation\<rparr>,
           bd_query := map_wireguard (\<lambda>w. w\<lparr>wq_obfuscation := ObfUdp2tcp obfuscation\<rparr>) (bd_query b)\<rparr>)"

definition builder_transport_protocol ::
  "('t, 'b) openvpn_builder relay_query_builder \<Rightarrow> transport_protocol \<Rightarrow>
   (transport_protocol, 'b) openvpn_builder relay_query_builder" where
  "builder_transport_protocol b protocol =
     (let transport_port = \<lparr>tp_protocol = protocol, tp_port = Any\<rparr>
      in \<lparr>bd_query = map_openvpn (\<lambda>w. w\<lparr>oq_port := Only transport_port\<rparr>) (bd_query b),
          bd_protocol = \<lparr>ob_transport_port = protocol,
            ob_bridge_settings = ob_bridge_settings (bd_protocol b)\<rparr>\<rparr>)"

definition builder_openvpn_port ::
  "(transport_protocol, 'b) openvpn_builder relay_query_builder \<Rightarrow> u16 \<Rightarrow>
   (transport_port, 'b) openvpn_builder relay_query_builder" where
  "builder_openvpn_port b port =
     (let transport_port = \<lparr>tp_protocol = ob_transport_port (bd_protocol b), tp_port = Only port\<rparr>
      in \<lparr>bd_query = map_openvpn (\<lambda>w. w\<lparr>oq_port := Only transport_port\<rparr>) (bd_query b),
          bd_protocol = \<lparr>ob_transport_port = transport_port,
            ob_bridge_settings = ob_bridge_settings (bd_protocol b)\<rparr>\<rparr>)"

definition builder_bridge ::
  "('t, any_state) openvpn_builder relay_query_builder \<Rightarrow>
   (transport_protocol, bridge_constraints) openvpn_builder relay_query_builder" where
  "builder_bridge b =
     (let bridge_settings = \<lparr>bc_location = Any, bc_providers = Any, bc_ownership = Any\<rparr>
      in builder_transport_protocol
           \<lparr>bd_query = map_openvpn (\<lambda>w. w\<lparr>oq_bridge_settings := BridgeNormalQuery bridge_settings\<rparr>)
              (bd_query b),
            bd_protocol = \<lparr>ob_transport_port = ob_transport_port (bd_protocol b),
              ob_bridge_settings = bridge_settings\<rparr>\<rparr> Tcp)"

abbreviation set_builder_bridge ::
  "('t, bridge_constraints) openvpn_builder relay_query_builder \<Rightarrow> bridge_constraints \<Rightarrow>
   ('t, bridge_constraints) openvpn_builder relay_query_builder" where
  "set_builder_bridge b settings \<equiv>
     b\<lparr>bd_protocol := (bd_protocol b)\<lparr>ob_bridge_settings := settings\<rparr>,
       bd_query := map_openvpn (\<lambda>w. w\<lparr>oq_bridge_settings := BridgeNormalQuery settings\<rparr>) (bd_query b)\<rparr>"

definition builder_bridge_location ::
  "('t, bridge_constraints) openvpn_builder relay_query_builder \<Rightarrow> location_constraint \<Rightarrow>
   ('t, bridge_constraints) openvpn_builder relay_query_builder" where
  "builder_bridge_location b location =
     set_builder_bridge b ((ob_bridge_settings (bd_protocol b))\<lparr>bc_location := Only location\<rparr>)"

definition builder_bridge_providers ::
  "('t, bridge_constraints) openvpn_builder relay_query_builder \<Rightarrow> providers \<Rightarrow>
   ('t, bridge_constraints) openvpn_builder relay_query_builder" where
  "builder_bridge_providers b providers =
     set_builder_bridge b ((ob_bridge_settings (bd_protocol b))\<lparr>bc_providers := Only providers\<rparr>)"

text \<open>Unlike the two before, this one does not write the query.\<close>

definition builder_bridge_ownership ::
  "('t, bridge_constraints) openvpn_builder relay_query_builder \<Rightarrow> ownership \<Rightarrow>
   ('t, bridge_constraints) openvpn_builder relay_query_builder" where
  "builder_bridge_ownership b ownership =
     b\<lparr>bd_protocol := (bd_protocol b)\<lparr>ob_bridge_settings :=
        (ob_bridge_settings (bd_protocol b))\<lparr>bc_ownership := Only ownership\<rparr>\<rparr>\<rparr>"

lemmas builder_defs = build_def builder_wireguard_def builder_openvpn_def builder_location_def
  builder_ownership_def builder_providers_def builder_port_def builder_ip_version_def
  builder_daita_def builder_daita_use_multihop_if_necessary_def builder_quantum_resistant_def
  builder_multihop_def builder_entry_def set_builder_obfuscation_def builder_udp2tcp_def
  builder_shadowsocks_def builder_quic_def builder_lwo_def builder_udp2tcp_port_def
  builder_transport_protocol_def builder_openvpn_port_def builder_bridge_def
  builder_bridge_location_def builder_bridge_providers_def builder_bridge_ownership_def

lemmas query_default_defs = relay_query_default_def wireguard_relay_query_new_def openvpn_relay_query_new_def

section \<open>Intersecting queries\<close>

interpretation bridge_query: intersection_unit bridge_intersection BridgeAuto
proof
  fix a b c :: bridge_query
  show "bridge_intersection a a = Some a"
    by (cases a) (auto simp: bridge_constraints.idem)
  show "bridge_intersection a b = bridge_intersection b a"
    by (cases a; cases b) (auto simp: bridge_constraints.commute)
  have "Option.bind (map_option BridgeNormalQuery (bridge_constraints_intersection x y))
          (\<lambda>ab. bridge_intersection ab (BridgeNormalQuery z)) =
        Option.bind (map_option BridgeNormalQuery (bridge_constraints_intersection y z))
          (bridge_intersection (BridgeNormalQuery x))" for x y z
    using bridge_constraints.assoc [of x y z]
    by (cases "bridge_constraints_intersection x y"; cases "bridge_constraints_intersection y z") auto
  moreover have
    "Option.bind (map_option BridgeNormalQuery x) (bridge_intersection BridgeAuto) = map_option BridgeNormalQuery x"
    "Option.bind (map_option BridgeNormalQuery x) (\<lambda>y. bridge_intersection y BridgeAuto) = map_option BridgeNormalQuery x"
    "Option.bind (map_option BridgeNormalQuery x) (bridge_intersection BridgeOff) = None"
    "Option.bind (map_option BridgeNormalQuery x) (\<lambda>y. bridge_intersection y BridgeOff) = None"
    "Option.bind (map_option BridgeNormalQuery x) (bridge_intersection (BridgeCustomQuery p)) = None"
    "Option.bind (map_option BridgeNormalQuery x) (\<lambda>y. bridge_intersection y (BridgeCustomQuery p)) = None"
    for x p
    by (cases x; simp)+
  ultimately show "Option.bind (bridge_intersection a b) (\<lambda>ab. bridge_intersection ab c) =
        Option.bind (bridge_intersection b c) (\<lambda>bc. bridge_intersection a bc)"
    by (cases a; cases b; cases c) auto
  show "bridge_intersection BridgeAuto a = Some a" by (cases a) auto
qed

lemma udp2tcp_settings_commute: "udp2tcp_settings_intersection a b = udp2tcp_settings_intersection b a"
  by (simp add: udp2tcp_settings_intersection_def simple.commute [of "u2t_port a"])

lemma shadowsocks_settings_commute:
  "shadowsocks_settings_intersection a b = shadowsocks_settings_intersection b a"
  by (simp add: shadowsocks_settings_intersection_def simple.commute [of "sss_port a"])

lemma obfuscation_commute: "obfuscation_intersection a b = obfuscation_intersection b a"
  by (cases a; cases b) (auto simp: udp2tcp_settings_commute shadowsocks_settings_commute)

lemma obfuscation_idem_iff:
  "obfuscation_intersection a a = Some a \<longleftrightarrow> a \<noteq> ObfQuic \<and> a \<noteq> ObfLwo"
  by (cases a) (auto simp: udp2tcp_settings_intersection_def shadowsocks_settings_intersection_def simple.idem)

lemma obfuscation_Auto [simp]:
  "obfuscation_intersection ObfAuto b = Some b" "obfuscation_intersection a ObfAuto = Some a"
  by (cases b; simp) (cases a; simp)

lemma wireguard_query_unit:
  "wireguard_query_intersection wireguard_relay_query_new q = Some q"
  "wireguard_query_intersection q wireguard_relay_query_new = Some q"
  by (simp_all add: wireguard_query_intersection_def wireguard_relay_query_new_def quantum.unit
      quantum.commute [of "wq_quantum_resistant q"])

lemma openvpn_query_unit: "openvpn_query_intersection openvpn_relay_query_new q = Some q"
  by (simp add: openvpn_query_intersection_def openvpn_relay_query_new_def openvpn_port.unit bridge_query.unit)

text \<open>The default query is a unit for the queries with its tunnel protocol, and for no other.\<close>

lemma query_default_unit_iff:
  "query_intersection relay_query_default q = Some q \<longleftrightarrow> rq_tunnel_protocol q = TypeWireguard"
  by (cases "rq_tunnel_protocol q")
    (simp_all add: query_intersection_def relay_query_default_def intersection_partialeq_def
      wireguard_query_unit openvpn_query_unit)

section \<open>Validity\<close>

definition query_valid :: "relay_query \<Rightarrow> bool" where
  "query_valid q \<longleftrightarrow> (core_privacy_feature_enabled q \<longrightarrow> rq_tunnel_protocol q = TypeWireguard)"

lemma validate_eq: "validate q = (if query_valid q then Inr q else Inl InvalidConstraints)"
  by (cases "rq_tunnel_protocol q") (auto simp: validate_def query_valid_def)

lemma set_if_valid_ok: "set_if_valid f q = Inr q' \<longleftrightarrow> query_valid (f q) \<and> q' = f q"
  by (auto simp: set_if_valid_def validate_eq)

lemma set_if_valid_err: "set_if_valid f q = Inl e \<longleftrightarrow> \<not> query_valid (f q) \<and> e = InvalidConstraints"
  by (auto simp: set_if_valid_def validate_eq)

lemma set_location_ok [simp]:
  "query_valid q \<Longrightarrow> set_location l q = Inr (q\<lparr>rq_location := l\<rparr>)"
  by (simp add: set_location_def set_if_valid_ok query_valid_def core_privacy_feature_enabled_def)

lemma relay_query_new_valid: "relay_query_new l p ow t w ov = Inr q \<Longrightarrow> query_valid q"
  by (auto simp: relay_query_new_def validate_eq split: if_splits)

end
