(* ===== verification/Selection_Monad.thy ===== *)
theory Selection_Monad
  imports Prelude "HOL-Library.Stream" "HOL-Library.Multiset"
begin

text \<open>
  The effects of the relay selector. It draws random numbers, it returns errors, and it may
  panic: a computation takes the numbers the generator has yet to produce and gives a result
  and what is left of them. A failure is an error of the source's \<^verbatim>\<open>Result\<close> or a panic,
  which no caller intercepts. The second half is a logic of outcomes: \<open>outcomes m P E\<close> states
  that no run of \<open>m\<close> panics, that each value returned satisfies \<open>P\<close> and each error \<open>E\<close>,
  whatever the generator produces.
\<close>

named_theorems outcome_rules \<open>rules of the logic of outcomes\<close>

section \<open>Computations\<close>

type_synonym rng = "nat stream"

datatype 'e failure = Panic | Failed 'e

type_synonym ('e, 'a) sel = "rng \<Rightarrow> ('e failure, 'a) result \<times> rng"

definition ok :: "'a \<Rightarrow> ('e, 'a) sel" where
  "ok a r = (Inr a, r)"

definition err :: "'e \<Rightarrow> ('e, 'a) sel" where
  "err e r = (Inl (Failed e), r)"

definition panic :: "('e, 'a) sel" where
  "panic r = (Inl Panic, r)"

definition sel_bind :: "('e, 'a) sel \<Rightarrow> ('a \<Rightarrow> ('e, 'b) sel) \<Rightarrow> ('e, 'b) sel" where
  "sel_bind m f r =
     (case m r of (Inl e, r') \<Rightarrow> (Inl e, r') | (Inr a, r') \<Rightarrow> f a r')"

text \<open>
  \<^verbatim>\<open>Result::ok\<close> forgets the error, \<^verbatim>\<open>Option::ok_or\<close> supplies one, \<^verbatim>\<open>Result::map_err\<close>
  changes it, and \<^verbatim>\<open>assert!\<close> and \<^verbatim>\<open>Option::expect\<close> panic.
\<close>

definition forget_err :: "('e, 'a) sel \<Rightarrow> ('f, 'a option) sel" where
  "forget_err m r =
     (case m r of
        (Inl Panic, r') \<Rightarrow> (Inl Panic, r')
      | (Inl (Failed e), r') \<Rightarrow> (Inr None, r')
      | (Inr a, r') \<Rightarrow> (Inr (Some a), r'))"

definition ok_or :: "'a option \<Rightarrow> 'e \<Rightarrow> ('e, 'a) sel" where
  "ok_or x e = (case x of Some a \<Rightarrow> ok a | None \<Rightarrow> err e)"

definition map_err :: "('e \<Rightarrow> 'f) \<Rightarrow> ('e, 'a) sel \<Rightarrow> ('f, 'a) sel" where
  "map_err g m r =
     (case m r of
        (Inl Panic, r') \<Rightarrow> (Inl Panic, r')
      | (Inl (Failed e), r') \<Rightarrow> (Inl (Failed (g e)), r')
      | (Inr a, r') \<Rightarrow> (Inr a, r'))"

definition lift_result :: "('e, 'a) result \<Rightarrow> ('e, 'a) sel" where
  "lift_result x = (case x of Inl e \<Rightarrow> err e | Inr a \<Rightarrow> ok a)"

definition sel_assert :: "bool \<Rightarrow> ('e, unit) sel" where
  "sel_assert b = (if b then ok () else panic)"

definition expect_some :: "'a option \<Rightarrow> ('e, 'a) sel" where
  "expect_some x = (case x of Some a \<Rightarrow> ok a | None \<Rightarrow> panic)"

lemma lift_result_simps [simp]: "lift_result (Inr a) = ok a" "lift_result (Inl e) = err e"
  by (simp_all add: lift_result_def)

lemma ok_or_simps [simp]: "ok_or (Some a) e = ok a" "ok_or None e = err e"
  by (simp_all add: ok_or_def)

lemma sel_bind_simps [simp]: "sel_bind (ok a) f = f a" "sel_bind (err e) f = err e"
  by (auto simp: sel_bind_def ok_def err_def)

section \<open>Randomness\<close>

text \<open>A number below \<open>n\<close>, for a positive \<open>n\<close>: every one is produced by some generator.\<close>

definition draw :: "nat \<Rightarrow> ('e, nat) sel" where
  "draw n r = (Inr (shd r mod n), stl r)"

text \<open>\<^verbatim>\<open>IndexedRandom::choose\<close> and \<^verbatim>\<open>IteratorRandom::choose\<close>: any of the elements.\<close>

definition choose_one :: "'a list \<Rightarrow> ('e, 'a option) sel" where
  "choose_one xs =
     (if xs = [] then ok None else sel_bind (draw (length xs)) (\<lambda>i. ok (Some (xs ! i))))"

text \<open>
  An order the program does not determine: that in which a \<^verbatim>\<open>HashSet\<close> is traversed, and that
  in which an unstable sort leaves elements with equal keys.
\<close>

function shuffle :: "'a list \<Rightarrow> ('e, 'a list) sel" where
  "shuffle xs =
     (if xs = [] then ok []
      else sel_bind (draw (length xs)) (\<lambda>i.
             if i < length xs
             then sel_bind (shuffle (take i xs @ drop (Suc i) xs)) (\<lambda>ys. ok (xs ! i # ys))
             else panic))"
  by pat_completeness auto
termination
  by (relation "measure length") auto

declare shuffle.simps [simp del]

definition sort_unstable_by_key :: "('a \<Rightarrow> 'k :: linorder) \<Rightarrow> 'a list \<Rightarrow> ('e, 'a list) sel" where
  "sort_unstable_by_key key xs = sel_bind (shuffle xs) (\<lambda>ys. ok (sort_key key ys))"

section \<open>Outcomes\<close>

definition outcomes :: "('e, 'a) sel \<Rightarrow> ('a \<Rightarrow> bool) \<Rightarrow> ('e \<Rightarrow> bool) \<Rightarrow> bool" where
  "outcomes m P E \<longleftrightarrow>
     (\<forall>r. case fst (m r) of Inr a \<Rightarrow> P a | Inl (Failed e) \<Rightarrow> E e | Inl Panic \<Rightarrow> False)"

lemma outcomes_value: "outcomes m P E \<Longrightarrow> m r = (Inr a, r') \<Longrightarrow> P a"
  by (auto simp: outcomes_def dest!: spec [of _ r])

lemma outcomes_error: "outcomes m P E \<Longrightarrow> m r = (Inl (Failed e), r') \<Longrightarrow> E e"
  by (auto simp: outcomes_def dest!: spec [of _ r])

lemma outcomes_no_panic: "outcomes m P E \<Longrightarrow> fst (m r) \<noteq> Inl Panic"
  by (auto simp: outcomes_def dest!: spec [of _ r] split: sum.splits)

lemma outcomes_mono:
  assumes "outcomes m P E" and "\<And>a. P a \<Longrightarrow> P' a" and "\<And>e. E e \<Longrightarrow> E' e"
  shows "outcomes m P' E'"
  unfolding outcomes_def
proof
  fix r
  have "case fst (m r) of Inr a \<Rightarrow> P a | Inl (Failed e) \<Rightarrow> E e | Inl Panic \<Rightarrow> False"
    using assms(1) by (simp add: outcomes_def)
  with assms(2,3) show "case fst (m r) of Inr a \<Rightarrow> P' a | Inl (Failed e) \<Rightarrow> E' e | Inl Panic \<Rightarrow> False"
    by (auto split: sum.splits failure.splits)
qed

lemma outcomes_ok [outcome_rules]: "P a \<Longrightarrow> outcomes (ok a) P E"
  by (simp add: outcomes_def ok_def)

lemma outcomes_err [outcome_rules]: "E e \<Longrightarrow> outcomes (err e) P E"
  by (simp add: outcomes_def err_def)

lemma outcomes_conj:
  assumes "outcomes m P E" and "outcomes m P' E'"
  shows "outcomes m (\<lambda>a. P a \<and> P' a) (\<lambda>e. E e \<and> E' e)"
  using assms by (force simp: outcomes_def split: sum.splits failure.splits)

lemma outcomes_bind:
  assumes "outcomes m Q E" and "\<And>a. Q a \<Longrightarrow> outcomes (f a) P E"
  shows "outcomes (sel_bind m f) P E"
  unfolding outcomes_def
proof
  fix r
  obtain x r' where m: "m r = (x, r')" by fastforce
  have x: "case x of Inr a \<Rightarrow> Q a | Inl (Failed e) \<Rightarrow> E e | Inl Panic \<Rightarrow> False"
    using assms(1) m by (auto simp: outcomes_def dest!: spec [of _ r])
  show "case fst (sel_bind m f r) of Inr a \<Rightarrow> P a | Inl (Failed e) \<Rightarrow> E e | Inl Panic \<Rightarrow> False"
  proof (cases x)
    case (Inr a)
    with x have "outcomes (f a) P E" by (intro assms(2)) simp
    with m Inr show ?thesis by (simp add: sel_bind_def outcomes_def)
  qed (use m x in \<open>auto simp: sel_bind_def\<close>)
qed

lemma outcomes_forget_err [outcome_rules]:
  assumes "outcomes m (\<lambda>a. P (Some a)) (\<lambda>e. P None)"
  shows "outcomes (forget_err m) P E"
  unfolding outcomes_def
proof
  fix r
  have "case fst (m r) of Inr a \<Rightarrow> P (Some a) | Inl (Failed e) \<Rightarrow> P None | Inl Panic \<Rightarrow> False"
    using assms by (simp add: outcomes_def)
  then show "case fst (forget_err m r) of Inr a \<Rightarrow> P a | Inl (Failed e) \<Rightarrow> E e | Inl Panic \<Rightarrow> False"
    by (auto simp: forget_err_def split: prod.splits sum.splits failure.splits)
qed

lemma outcomes_map_err [outcome_rules]:
  assumes "outcomes m P (\<lambda>e. E (g e))"
  shows "outcomes (map_err g m) P E"
  unfolding outcomes_def
proof
  fix r
  have "case fst (m r) of Inr a \<Rightarrow> P a | Inl (Failed e) \<Rightarrow> E (g e) | Inl Panic \<Rightarrow> False"
    using assms by (simp add: outcomes_def)
  then show "case fst (map_err g m r) of Inr a \<Rightarrow> P a | Inl (Failed e) \<Rightarrow> E e | Inl Panic \<Rightarrow> False"
    by (auto simp: map_err_def split: prod.splits sum.splits failure.splits)
qed

lemma outcomes_ok_or [outcome_rules]:
  "(\<And>a. x = Some a \<Longrightarrow> P a) \<Longrightarrow> (x = None \<Longrightarrow> E e) \<Longrightarrow> outcomes (ok_or x e) P E"
  by (cases x) (auto simp: ok_or_def intro: outcomes_ok outcomes_err)

lemma outcomes_option [outcome_rules]:
  "(x = None \<Longrightarrow> outcomes m P E) \<Longrightarrow> (\<And>a. x = Some a \<Longrightarrow> outcomes (f a) P E) \<Longrightarrow>
     outcomes (case x of None \<Rightarrow> m | Some a \<Rightarrow> f a) P E"
  by (cases x) auto

lemma outcomes_lift_result [outcome_rules]:
  "(\<And>a. x = Inr a \<Longrightarrow> P a) \<Longrightarrow> (\<And>e. x = Inl e \<Longrightarrow> E e) \<Longrightarrow> outcomes (lift_result x) P E"
  by (cases x) (auto simp: lift_result_def intro: outcomes_ok outcomes_err)

lemma outcomes_assert [outcome_rules]: "b \<Longrightarrow> P () \<Longrightarrow> outcomes (sel_assert b) P E"
  by (simp add: sel_assert_def outcomes_ok)

lemma outcomes_expect [outcome_rules]:
  "x \<noteq> None \<Longrightarrow> (\<And>a. x = Some a \<Longrightarrow> P a) \<Longrightarrow> outcomes (expect_some x) P E"
  by (cases x) (auto simp: expect_some_def intro: outcomes_ok)

lemma outcomes_draw [outcome_rules]:
  "0 < n \<Longrightarrow> (\<And>i. i < n \<Longrightarrow> P i) \<Longrightarrow> outcomes (draw n) P E"
  by (simp add: outcomes_def draw_def)

lemma outcomes_choose [outcome_rules]:
  assumes "xs = [] \<Longrightarrow> P None" and "\<And>x. x \<in> set xs \<Longrightarrow> P (Some x)"
  shows "outcomes (choose_one xs) P E"
proof (cases "xs = []")
  case False
  then have "outcomes (sel_bind (draw (length xs)) (\<lambda>i. ok (Some (xs ! i)))) P E"
    by (intro outcomes_bind [where Q = "\<lambda>i. i < length xs"] outcomes_draw outcomes_ok)
      (auto intro: assms(2))
  with False show ?thesis by (simp add: choose_one_def)
qed (auto simp: choose_one_def intro: outcomes_ok assms)

lemma mset_remove_nth:
  assumes "i < length xs"
  shows "mset (xs ! i # take i xs @ drop (Suc i) xs) = mset xs"
  using assms by (metis id_take_nth_drop mset_append mset.simps(2) union_mset_add_mset_right)

lemma outcomes_shuffle_mset: "outcomes (shuffle xs) (\<lambda>ys. mset ys = mset xs) E"
proof (induction xs rule: length_induct)
  case (1 xs)
  show ?case
  proof (cases "xs = []")
    case True
    then show ?thesis by (simp add: shuffle.simps outcomes_ok)
  next
    case False
    have step: "outcomes (sel_bind (shuffle (take i xs @ drop (Suc i) xs)) (\<lambda>ys. ok (xs ! i # ys)))
        (\<lambda>ys. mset ys = mset xs) E" if "i < length xs" for i
    proof (rule outcomes_bind)
      show "outcomes (shuffle (take i xs @ drop (Suc i) xs))
          (\<lambda>ys. mset ys = mset (take i xs @ drop (Suc i) xs)) E"
        by (rule 1 [rule_format]) (use that in simp)
    next
      fix ys
      assume "mset ys = mset (take i xs @ drop (Suc i) xs)"
      then show "outcomes (ok (xs ! i # ys)) (\<lambda>ys. mset ys = mset xs) E"
        using mset_remove_nth [OF that] by (intro outcomes_ok) simp
    qed
    from False show ?thesis
      by (subst shuffle.simps)
        (auto intro!: outcomes_bind [where Q = "\<lambda>i. i < length xs"] outcomes_draw step)
  qed
qed

lemma outcomes_shuffle [outcome_rules]:
  "(\<And>ys. mset ys = mset xs \<Longrightarrow> P ys) \<Longrightarrow> outcomes (shuffle xs) P E"
  by (rule outcomes_mono [OF outcomes_shuffle_mset, where E = E]) auto

lemma outcomes_sort_unstable [outcome_rules]:
  assumes "\<And>ys. mset ys = mset xs \<Longrightarrow> sorted (map key ys) \<Longrightarrow> P ys"
  shows "outcomes (sort_unstable_by_key key xs) P E"
  unfolding sort_unstable_by_key_def
  by (rule outcomes_bind [OF outcomes_shuffle_mset]) (auto intro!: outcomes_ok assms)

text \<open>Every outcome that is allowed happens for some generator.\<close>

lemma choose_reaches:
  assumes "x \<in> set xs"
  shows "\<exists>n. \<forall>r. choose_one xs (n ## r) = (Inr (Some x), r)"
proof -
  obtain i where "i < length xs" and "xs ! i = x"
    using assms by (auto simp: in_set_conv_nth)
  then have "\<forall>r. choose_one xs (i ## r) = (Inr (Some x), r)"
    by (auto simp: choose_one_def sel_bind_def draw_def ok_def)
  then show ?thesis by blast
qed

lemmas sel_simps = ok_def err_def panic_def sel_bind_def forget_err_def ok_or_def map_err_def
  lift_result_def sel_assert_def expect_some_def draw_def choose_one_def

end
