(* ===== verification/Relay_Matcher.thy ===== *)
theory Relay_Matcher
  imports Relay_Query Selection_Monad
begin

text \<open>
  Which relays satisfy a query: \<^verbatim>\<open>matcher.rs\<close> of \<^verbatim>\<open>mullvad-relay-selector\<close>. The relays
  that are left after the country filter come out of a hash set, hence in any order.
\<close>

definition filter_on_active :: "relay \<Rightarrow> bool" where
  "filter_on_active r = rl_active r"

type_synonym resolved_location_constraint = "geographic_location_constraint list"

definition resolve_location ::
  "location_constraint constraint \<Rightarrow> custom_lists \<Rightarrow> resolved_location_constraint constraint" where
  "resolve_location location_constraint clists =
     (case location_constraint of
        Any \<Rightarrow> Any
      | Only (Location location) \<Rightarrow> Only [location]
      | Only (CustomList list_id) \<Rightarrow>
          Only (case find (\<lambda>l. cl_id l = list_id) clists of
                  Some l \<Rightarrow> cl_locations l
                | None \<Rightarrow> []))"

definition resolved_matches :: "resolved_location_constraint \<Rightarrow> relay \<Rightarrow> bool" where
  "resolved_matches locations r = list_ex (\<lambda>l. geographic_matches l r) locations"

definition filter_on_location :: "resolved_location_constraint constraint \<Rightarrow> relay \<Rightarrow> bool" where
  "filter_on_location = constraint_matches resolved_matches"

definition filter_on_ownership :: "ownership constraint \<Rightarrow> relay \<Rightarrow> bool" where
  "filter_on_ownership = constraint_matches ownership_matches"

definition filter_on_providers :: "providers constraint \<Rightarrow> relay \<Rightarrow> bool" where
  "filter_on_providers = constraint_matches providers_matches"

definition filter_on_daita :: "bool constraint \<Rightarrow> relay \<Rightarrow> bool" where
  "filter_on_daita c r =
     (case (c, rl_endpoint_data r) of
        (Only True, RelayWireguard data) \<Rightarrow> wr_daita data
      | _ \<Rightarrow> True)"

text \<open>\<^verbatim>\<open>detailer::resolve_ip_version\<close>.\<close>

fun resolve_ip_version :: "ip_version constraint \<Rightarrow> ip_version" where
  "resolve_ip_version Any = IpV4"
| "resolve_ip_version (Only IpV4) = IpV4"
| "resolve_ip_version (Only IpV6) = IpV6"

definition filter_on_shadowsocks ::
  "port_range list \<Rightarrow> ip_version constraint \<Rightarrow> shadowsocks_settings \<Rightarrow>
   wireguard_relay_endpoint_data \<Rightarrow> bool" where
  "filter_on_shadowsocks port_ranges ip_version settings endpoint_data =
     (case sss_port settings of
        Only desired_port \<Rightarrow>
          find (\<lambda>addr. ip_version_of addr = resolve_ip_version ip_version)
            (wr_shadowsocks_extra_addr_in endpoint_data) \<noteq> None \<or>
          list_ex (\<lambda>range. range_contains range desired_port) port_ranges
      | Any \<Rightarrow> True)"

definition filter_on_obfuscation :: "wireguard_relay_query \<Rightarrow> relay_list \<Rightarrow> relay \<Rightarrow> bool" where
  "filter_on_obfuscation query list0 r =
     (case relay_wireguard r of
        None \<Rightarrow> True
      | Some endpoint_data \<Rightarrow>
          (case wq_obfuscation query of
             ObfShadowsocks settings \<Rightarrow>
               filter_on_shadowsocks (we_shadowsocks_port_ranges (rs_wireguard list0))
                 (wq_ip_version query) settings endpoint_data
           | ObfQuic \<Rightarrow>
               (case wr_quic endpoint_data of
                  Some quic \<Rightarrow>
                    (case wq_ip_version query of
                       Any \<Rightarrow> True
                     | Only IpV4 \<Rightarrow> quic_in_ipv4 quic \<noteq> []
                     | Only IpV6 \<Rightarrow> quic_in_ipv6 quic \<noteq> [])
                | None \<Rightarrow> False)
           | ObfLwo \<Rightarrow> wr_lwo endpoint_data
           | ObfOff \<Rightarrow> True
           | ObfAuto \<Rightarrow> True
           | ObfUdp2tcp _ \<Rightarrow> True))"

definition filter_openvpn :: "relay \<Rightarrow> bool" where
  "filter_openvpn r = (rl_endpoint_data r = RelayOpenvpn)"

definition filter_wireguard :: "relay \<Rightarrow> bool" where
  "filter_wireguard r = (case rl_endpoint_data r of RelayWireguard _ \<Rightarrow> True | _ \<Rightarrow> False)"

definition filter_bridge :: "relay \<Rightarrow> bool" where
  "filter_bridge r = (rl_endpoint_data r = RelayBridge)"

definition filter_tunnel_type :: "tunnel_type \<Rightarrow> relay \<Rightarrow> bool" where
  "filter_tunnel_type t r = (case t of TypeOpenVpn \<Rightarrow> filter_openvpn r | TypeWireguard \<Rightarrow> filter_wireguard r)"

definition filter_matching_relay_list_include_all ::
  "relay_query \<Rightarrow> relay_list \<Rightarrow> custom_lists \<Rightarrow> relay list" where
  "filter_matching_relay_list_include_all query list0 clists =
     (let locations = resolve_location (rq_location query) clists
      in filter (filter_on_obfuscation (rq_wireguard_constraints query) list0)
         (filter (filter_on_daita (wq_daita (rq_wireguard_constraints query)))
         (filter (filter_on_providers (rq_providers query))
         (filter (filter_on_ownership (rq_ownership query))
         (filter (filter_on_location locations)
         (filter filter_on_active
         (filter (filter_tunnel_type (rq_tunnel_protocol query)) (relays list0))))))))"

text \<open>Adding to a hash set of relays: one with a hostname already there is not added.\<close>

definition hash_set_extend :: "relay list \<Rightarrow> relay list \<Rightarrow> relay list" where
  "hash_set_extend s rs = fold (\<lambda>r acc. if relay_contains acc r then acc else acc @ [r]) rs s"

definition split_by_country ::
  "relay list \<Rightarrow> geographic_location_constraint \<Rightarrow> relay list \<times> relay list \<Rightarrow> relay list \<times> relay list" where
  "split_by_country rs l p =
     (let (included_in_country, not_included_in_country) =
            partition (\<lambda>r. is_country l \<and> rl_include_in_country r) rs
      in (hash_set_extend (fst p) included_in_country,
          hash_set_extend (snd p) not_included_in_country))"

definition filter_on_include_in_country ::
  "resolved_location_constraint constraint \<Rightarrow> relay list \<Rightarrow> ('e, relay list) sel" where
  "filter_on_include_in_country locations rs =
     (case locations of
        Any \<Rightarrow> ok rs
      | Only ls \<Rightarrow>
          (let (included, excluded) = fold (split_by_country rs) ls ([], [])
           in if included = [] then shuffle excluded else shuffle included))"

definition filter_matching_relay_list ::
  "relay_query \<Rightarrow> relay_list \<Rightarrow> custom_lists \<Rightarrow> ('e, relay list) sel" where
  "filter_matching_relay_list query list0 clists =
     filter_on_include_in_country (resolve_location (rq_location query) clists)
       (filter_matching_relay_list_include_all query list0 clists)"

definition filter_matching_bridges ::
  "internal_bridge_constraints \<Rightarrow> relay list \<Rightarrow> custom_lists \<Rightarrow> relay list" where
  "filter_matching_bridges constraints rs clists =
     (let locations = resolve_location (ib_location constraints) clists
      in filter (filter_on_providers (ib_providers constraints))
         (filter (filter_on_ownership (ib_ownership constraints))
         (filter (filter_on_location locations)
         (filter filter_bridge
         (filter filter_on_active rs)))))"

section \<open>What the filters let through\<close>

definition relay_matches :: "relay_query \<Rightarrow> relay_list \<Rightarrow> custom_lists \<Rightarrow> relay \<Rightarrow> bool" where
  "relay_matches query list0 clists r \<longleftrightarrow>
     filter_tunnel_type (rq_tunnel_protocol query) r \<and> rl_active r \<and>
     filter_on_location (resolve_location (rq_location query) clists) r \<and>
     filter_on_ownership (rq_ownership query) r \<and>
     filter_on_providers (rq_providers query) r \<and>
     filter_on_daita (wq_daita (rq_wireguard_constraints query)) r \<and>
     filter_on_obfuscation (rq_wireguard_constraints query) list0 r"

lemma include_all_eq:
  "filter_matching_relay_list_include_all query list0 clists =
     filter (relay_matches query list0 clists) (relays list0)"
  by (simp add: filter_matching_relay_list_include_all_def relay_matches_def [abs_def]
      filter_on_active_def conj_ac Let_def)

lemma hash_set_extend_simps [simp]:
  "hash_set_extend s [] = s"
  "hash_set_extend s (r # rs) = hash_set_extend (if relay_contains s r then s else s @ [r]) rs"
  by (simp_all add: hash_set_extend_def)

lemma hash_set_extend_subset: "set (hash_set_extend s rs) \<subseteq> set s \<union> set rs"
proof (induction rs arbitrary: s)
  case (Cons r rs)
  from Cons [of "if relay_contains s r then s else s @ [r]"] show ?case
    by (auto split: if_splits)
qed simp

lemma hash_set_extend_keeps: "set s \<subseteq> set (hash_set_extend s rs)"
proof (induction rs arbitrary: s)
  case (Cons r rs)
  have "set s \<subseteq> set (if relay_contains s r then s else s @ [r])" by auto
  also have "\<dots> \<subseteq> set (hash_set_extend s (r # rs))"
    using Cons [of "if relay_contains s r then s else s @ [r]"] by simp
  finally show ?case .
qed simp

lemma hash_set_extend_contains:
  assumes "r \<in> set rs"
  shows "relay_contains (hash_set_extend s rs) r"
  using assms
proof (induction rs arbitrary: s)
  case (Cons x rs)
  let ?s = "if relay_contains s x then s else s @ [x]"
  have eq: "hash_set_extend s (x # rs) = hash_set_extend ?s rs"
    by simp
  show ?case
  proof (cases "r \<in> set rs")
    case True
    then show ?thesis using Cons.IH [of ?s] by (simp add: eq)
  next
    case False
    then have "r = x" using Cons.prems by simp
    then have "relay_contains ?s r"
      by (auto simp: relay_contains_def relay_eq_def)
    then show ?thesis
      unfolding eq relay_contains_def using hash_set_extend_keeps by blast
  qed
qed simp

lemma hash_set_extend_empty_iff [simp]: "hash_set_extend s rs = [] \<longleftrightarrow> s = [] \<and> rs = []"
proof
  assume empty: "hash_set_extend s rs = []"
  have "rs = []"
  proof (rule ccontr)
    assume "rs \<noteq> []"
    then have "relay_contains (hash_set_extend s rs) (hd rs)"
      by (intro hash_set_extend_contains) simp
    with empty show False by (simp add: relay_contains_def)
  qed
  with empty show "s = [] \<and> rs = []" by simp
qed simp

text \<open>
  The country filter gives some of the relays, and none only if there are none or no location is
  given. It is the hash set that makes hostnames unique.
\<close>

definition hostnames_distinct :: "relay list \<Rightarrow> bool" where
  "hostnames_distinct rs \<longleftrightarrow> distinct (map rl_hostname rs)"

lemma hash_set_extend_distinct:
  "hostnames_distinct s \<Longrightarrow> hostnames_distinct (hash_set_extend s rs)"
proof (induction rs arbitrary: s)
  case (Cons r rs)
  have "hostnames_distinct (if relay_contains s r then s else s @ [r])"
    using Cons.prems by (auto simp: hostnames_distinct_def relay_contains_def relay_eq_def)
  from Cons.IH [OF this] show ?case by simp
qed simp

definition country_split ::
  "relay list \<Rightarrow> geographic_location_constraint list \<Rightarrow> relay list \<times> relay list \<Rightarrow> bool" where
  "country_split rs ls p \<longleftrightarrow>
     set (fst p) \<subseteq> set rs \<and> set (snd p) \<subseteq> set rs \<and>
     hostnames_distinct (fst p) \<and> hostnames_distinct (snd p) \<and>
     (fst p = [] \<and> snd p = [] \<longleftrightarrow> rs = [] \<or> ls = []) \<and>
     (\<forall>r \<in> set (fst p). rl_include_in_country r)"

lemma country_split_step:
  assumes "country_split rs ls p"
  shows "country_split rs (ls @ [l]) (split_by_country rs l p)"
proof -
  define ins where "ins = filter (\<lambda>r. is_country l \<and> rl_include_in_country r) rs"
  define outs where "outs = filter (\<lambda>r. \<not> (is_country l \<and> rl_include_in_country r)) rs"
  have eq: "split_by_country rs l p = (hash_set_extend (fst p) ins, hash_set_extend (snd p) outs)"
    by (simp add: split_by_country_def ins_def outs_def o_def)
  have empty: "ins = [] \<and> outs = [] \<longleftrightarrow> rs = []"
    unfolding ins_def outs_def filter_empty_conv by auto
  have "set ins \<subseteq> set rs" and "set outs \<subseteq> set rs" and "\<forall>r \<in> set ins. rl_include_in_country r"
    by (auto simp: ins_def outs_def)
  with empty assms hash_set_extend_subset [of "fst p" ins] hash_set_extend_subset [of "snd p" outs]
  show ?thesis
    by (auto simp: country_split_def eq intro: hash_set_extend_distinct)
qed

lemma country_split_fold:
  assumes "country_split rs ds p"
  shows "country_split rs (ds @ ls) (fold (split_by_country rs) ls p)"
  using assms
proof (induction ls arbitrary: ds p)
  case (Cons l ls)
  from Cons.IH [OF country_split_step [OF Cons.prems, of l]] show ?case by simp
qed simp

lemma outcomes_include_in_country:
  "outcomes (filter_on_include_in_country locations rs)
     (\<lambda>rs'. set rs' \<subseteq> set rs \<and> (hostnames_distinct rs \<longrightarrow> hostnames_distinct rs') \<and>
        (rs' = [] \<longleftrightarrow> rs = [] \<or> locations = Only [])) E"
proof (cases locations)
  case Any
  then show ?thesis by (simp add: filter_on_include_in_country_def outcomes_ok)
next
  case (Only ls)
  obtain included excluded where split: "fold (split_by_country rs) ls ([], []) = (included, excluded)"
    by fastforce
  have "country_split rs [] ([], [])"
    by (simp add: country_split_def hostnames_distinct_def)
  from country_split_fold [OF this, of ls] have inv: "country_split rs ls (included, excluded)"
    by (simp add: split)
  have "outcomes (shuffle xs) (\<lambda>rs'. set rs' \<subseteq> set rs \<and>
      (hostnames_distinct rs \<longrightarrow> hostnames_distinct rs') \<and> (rs' = [] \<longleftrightarrow> rs = [] \<or> ls = [])) E"
    if "set xs \<subseteq> set rs" and "hostnames_distinct xs" and "xs = [] \<longleftrightarrow> rs = [] \<or> ls = []" for xs
  proof (rule outcomes_shuffle)
    fix ys
    assume "mset ys = mset xs"
    then have "set ys = set xs" and "mset (map rl_hostname ys) = mset (map rl_hostname xs)"
      and "ys = [] \<longleftrightarrow> xs = []"
      by (metis mset_eq_setD, metis mset_map, metis mset_zero_iff)
    moreover from this(2) have "hostnames_distinct ys \<longleftrightarrow> hostnames_distinct xs"
      unfolding hostnames_distinct_def by (rule mset_eq_imp_distinct_iff)
    ultimately show "set ys \<subseteq> set rs \<and> (hostnames_distinct rs \<longrightarrow> hostnames_distinct ys) \<and>
        (ys = [] \<longleftrightarrow> rs = [] \<or> ls = [])"
      using that by simp
  qed
  with inv show ?thesis
    by (auto simp: filter_on_include_in_country_def Only split country_split_def)
qed

end
