(* ===== verification/Relay_Detailer.thy ===== *)
theory Relay_Detailer
  imports Relay_Matcher
begin

text \<open>
  From relays to endpoints: \<^verbatim>\<open>helpers.rs\<close> (random choice of relays, ports and obfuscators) and
  \<^verbatim>\<open>detailer.rs\<close> of \<^verbatim>\<open>mullvad-relay-selector\<close>. The lemmas give the outcomes of each
  function; choosing by weight never reaches its \<^verbatim>\<open>expect\<close>.
\<close>

section \<open>Choosing relays\<close>

definition saturating_sub :: "'a :: len word \<Rightarrow> 'a word \<Rightarrow> 'a word" where
  "saturating_sub a b = (if a \<le> b then 0 else a - b)"

text \<open>The closure given to \<^verbatim>\<open>find\<close> counts \<open>i\<close> down.\<close>

fun find_weighted :: "('a \<Rightarrow> u64) \<Rightarrow> 'a list \<Rightarrow> u64 \<Rightarrow> 'a option" where
  "find_weighted weight [] i = None"
| "find_weighted weight (x # xs) i =
     (let i' = saturating_sub i (weight x)
      in if i' = 0 then Some x else find_weighted weight xs i')"

definition pick_random_relay_weighted :: "'a list \<Rightarrow> ('a \<Rightarrow> u64) \<Rightarrow> ('e, 'a option) sel" where
  "pick_random_relay_weighted xs weight =
     (let total_weight = sum_list (map weight xs)
      in if total_weight = 0 then choose_one xs
         else sel_bind (draw (unat total_weight)) (\<lambda>k.
              sel_bind (expect_some (find_weighted weight xs (word_of_nat (Suc k)))) (\<lambda>x.
              ok (Some x))))"

definition pick_random_relay :: "relay list \<Rightarrow> ('e, relay option) sel" where
  "pick_random_relay rs = pick_random_relay_weighted rs rl_weight"

definition pick_random_relay_excluding :: "relay list \<Rightarrow> relay \<Rightarrow> ('e, relay option) sel" where
  "pick_random_relay_excluding rs exclude =
     pick_random_relay_weighted (filter (\<lambda>a. \<not> relay_eq a exclude) rs) rl_weight"

section \<open>Choosing ports\<close>

definition SHADOWSOCKS_EXTRA_PORT_RANGES :: "port_range list" where
  "SHADOWSOCKS_EXTRA_PORT_RANGES = [(1, - 1)]"

definition port_if_in_range :: "port_range list \<Rightarrow> u16 \<Rightarrow> (helpers_error, u16) sel" where
  "port_if_in_range port_ranges port =
     ok_or (find_map (\<lambda>range. if range_contains range port then Some port else None) port_ranges)
       NoMatchingPort"

definition select_random_port :: "port_range list \<Rightarrow> (helpers_error, u16) sel" where
  "select_random_port port_ranges =
     sel_bind (choose_one (concat (map range_ports port_ranges))) (\<lambda>port. ok_or port NoMatchingPort)"

definition desired_or_random_port_from_range ::
  "port_range list \<Rightarrow> u16 constraint \<Rightarrow> (helpers_error, u16) sel" where
  "desired_or_random_port_from_range port_ranges desired_port =
     (case desired_port of
        Only port \<Rightarrow> port_if_in_range port_ranges port
      | Any \<Rightarrow> select_random_port port_ranges)"

section \<open>Endpoints\<close>

text \<open>\<^verbatim>\<open>MullvadWireguardEndpoint\<close> of \<^verbatim>\<open>mullvad-types/src/endpoint.rs\<close>.\<close>

record mullvad_wireguard_endpoint =
  me_peer :: peer_config
  me_exit_peer :: "peer_config option"
  me_ipv4_gateway :: u32
  me_ipv6_gateway :: u128

definition get_address_for_wireguard_relay ::
  "wireguard_relay_query \<Rightarrow> relay \<Rightarrow> (detailer_error, ip_addr) sel" where
  "get_address_for_wireguard_relay query r =
     (case resolve_ip_version (wq_ip_version query) of
        IpV4 \<Rightarrow> ok (V4 (rl_ipv4_addr_in r))
      | IpV6 \<Rightarrow> ok_or (map_option V6 (rl_ipv6_addr_in r)) (NoIPv6 r))"

definition get_port_for_wireguard_relay ::
  "wireguard_relay_query \<Rightarrow> wireguard_endpoint_data \<Rightarrow> (detailer_error, u16) sel" where
  "get_port_for_wireguard_relay query data =
     map_err (\<lambda>_. PortSelectionError)
       (desired_or_random_port_from_range (we_port_ranges data) (wq_port query))"

definition get_public_key :: "relay \<Rightarrow> (detailer_error, u8 list) sel" where
  "get_public_key r =
     (case rl_endpoint_data r of
        RelayWireguard e \<Rightarrow> ok (wr_public_key e)
      | RelayOpenvpn \<Rightarrow> err MissingPublicKey
      | RelayBridge \<Rightarrow> err MissingPublicKey)"

definition wireguard_singlehop_endpoint ::
  "wireguard_relay_query \<Rightarrow> wireguard_endpoint_data \<Rightarrow> relay \<Rightarrow>
   (detailer_error, mullvad_wireguard_endpoint) sel" where
  "wireguard_singlehop_endpoint query data exit =
     sel_bind (get_address_for_wireguard_relay query exit) (\<lambda>host.
     sel_bind (get_port_for_wireguard_relay query data) (\<lambda>port.
     sel_bind (get_public_key exit) (\<lambda>public_key.
     ok \<lparr>me_peer = \<lparr>pc_public_key = public_key,
           pc_allowed_ips = resolve_from_constraint (wq_allowed_ips query)
             (Some (we_ipv4_gateway data)) (Some (we_ipv6_gateway data)),
           pc_endpoint = SocketAddr host port, pc_psk = None, pc_constant_packet_size = False\<rparr>,
         me_exit_peer = None,
         me_ipv4_gateway = we_ipv4_gateway data,
         me_ipv6_gateway = we_ipv6_gateway data\<rparr>)))"

definition WIREGUARD_EXIT_PORT :: u16 where
  "WIREGUARD_EXIT_PORT = 51820"

definition host_network :: "ip_addr \<Rightarrow> ip_network" where
  "host_network addr = (case addr of V4 a \<Rightarrow> NetV4 a 32 | V6 a \<Rightarrow> NetV6 a 128)"

definition wireguard_multihop_endpoint ::
  "wireguard_relay_query \<Rightarrow> wireguard_endpoint_data \<Rightarrow> relay \<Rightarrow> relay \<Rightarrow>
   (detailer_error, mullvad_wireguard_endpoint) sel" where
  "wireguard_multihop_endpoint query data exit entry =
     (let exit_ip = V4 (rl_ipv4_addr_in exit);
          exit_endpoint = SocketAddr exit_ip WIREGUARD_EXIT_PORT
      in sel_bind (get_public_key exit) (\<lambda>exit_key.
         sel_bind (get_address_for_wireguard_relay query entry) (\<lambda>host.
         sel_bind (get_port_for_wireguard_relay query data) (\<lambda>port.
         sel_bind (get_public_key entry) (\<lambda>entry_key.
         ok \<lparr>me_peer = \<lparr>pc_public_key = entry_key, pc_allowed_ips = [host_network exit_ip],
               pc_endpoint = SocketAddr host port, pc_psk = None, pc_constant_packet_size = False\<rparr>,
             me_exit_peer = Some \<lparr>pc_public_key = exit_key,
               pc_allowed_ips = resolve_from_constraint (wq_allowed_ips query)
                 (Some (we_ipv4_gateway data)) (Some (we_ipv6_gateway data)),
               pc_endpoint = exit_endpoint, pc_psk = None, pc_constant_packet_size = False\<rparr>,
             me_ipv4_gateway = we_ipv4_gateway data,
             me_ipv6_gateway = we_ipv6_gateway data\<rparr>)))))"

fun wireguard_endpoint ::
  "wireguard_relay_query \<Rightarrow> wireguard_endpoint_data \<Rightarrow> wireguard_config \<Rightarrow>
   (detailer_error, mullvad_wireguard_endpoint) sel" where
  "wireguard_endpoint query data (Singlehop exit) = wireguard_singlehop_endpoint query data exit"
| "wireguard_endpoint query data (Multihop exit entry) =
     wireguard_multihop_endpoint query data exit entry"

definition compatible_openvpn_port_combo ::
  "transport_port constraint \<Rightarrow> openvpn_endpoint \<Rightarrow> bool" where
  "compatible_openvpn_port_combo port_constraint e =
     (case port_constraint of
        Any \<Rightarrow> True
      | Only transport_port \<Rightarrow>
          (case tp_port transport_port of
             Any \<Rightarrow> tp_protocol transport_port = ove_protocol e
           | Only port \<Rightarrow> port = ove_port e \<and> tp_protocol transport_port = ove_protocol e))"

definition openvpn_singlehop_endpoint ::
  "transport_port constraint \<Rightarrow> openvpn_endpoint list \<Rightarrow> relay \<Rightarrow> (detailer_error, endpoint) sel" where
  "openvpn_singlehop_endpoint port_constraint ports exit =
     sel_bind (choose_one (filter (compatible_openvpn_port_combo port_constraint) ports)) (\<lambda>e.
       ok_or (map_option (\<lambda>e. endpoint_new (V4 (rl_ipv4_addr_in exit)) (ove_port e) (ove_protocol e)) e)
         NoOpenVpnEndpoint)"

definition openvpn_bridge_endpoint ::
  "transport_port constraint \<Rightarrow> openvpn_endpoint list \<Rightarrow> relay \<Rightarrow> (detailer_error, endpoint) sel" where
  "openvpn_bridge_endpoint port_constraint ports exit =
     sel_bind (choose_one (filter (compatible_openvpn_port_combo port_constraint)
         (filter (\<lambda>e. ove_protocol e = Tcp) ports))) (\<lambda>e.
       ok_or (map_option (\<lambda>e. endpoint_new (V4 (rl_ipv4_addr_in exit)) (ove_port e) (ove_protocol e)) e)
         NoBridgeEndpoint)"

definition openvpn_endpoint ::
  "openvpn_relay_query \<Rightarrow> openvpn_endpoint list \<Rightarrow> relay \<Rightarrow> (detailer_error, endpoint) sel" where
  "openvpn_endpoint query ports r =
     (if should_use_bridge (oq_bridge_settings query)
      then openvpn_bridge_endpoint (oq_port query) ports r
      else openvpn_singlehop_endpoint (oq_port query) ports r)"

definition bridge_endpoint ::
  "shadowsocks_endpoint_data list \<Rightarrow> relay \<Rightarrow> ('e, shadowsocks option) sel" where
  "bridge_endpoint data r =
     (if rl_endpoint_data r \<noteq> RelayBridge then ok None
      else sel_bind (choose_one data) (\<lambda>d.
           ok (map_option (\<lambda>d. to_proxy_settings d (V4 (rl_ipv4_addr_in r))) d)))"

section \<open>Obfuscators\<close>

record selected_obfuscator =
  so_config :: obfuscators
  so_relay :: relay

definition get_udp2tcp_obfuscator_port ::
  "udp2tcp_settings \<Rightarrow> u16 list \<Rightarrow> (helpers_error, u16) sel" where
  "get_udp2tcp_obfuscator_port settings udp2tcp_ports =
     (case u2t_port settings of
        Only desired_port \<Rightarrow> ok_or (find (\<lambda>c. desired_port = c) udp2tcp_ports) NoMatchingPort
      | Any \<Rightarrow> sel_bind (choose_one udp2tcp_ports) (\<lambda>port. ok_or port NoMatchingPort))"

definition get_udp2tcp_obfuscator ::
  "udp2tcp_settings \<Rightarrow> u16 list \<Rightarrow> relay \<Rightarrow> mullvad_wireguard_endpoint \<Rightarrow>
   (helpers_error, obfuscator_config \<times> relay) sel" where
  "get_udp2tcp_obfuscator settings udp2tcp_ports r e =
     sel_bind (get_udp2tcp_obfuscator_port settings udp2tcp_ports) (\<lambda>port.
     ok (CfgUdp2Tcp (SocketAddr (sa_ip (pc_endpoint (me_peer e))) port), r))"

definition get_shadowsocks_obfuscator_inner ::
  "ip_addr \<Rightarrow> port_range list \<Rightarrow> ip_addr list \<Rightarrow> u16 constraint \<Rightarrow> (helpers_error, socket_addr) sel" where
  "get_shadowsocks_obfuscator_inner wg_in_addr wg_in_addr_port_ranges extra_in_addrs desired_port =
     (let extra = filter (\<lambda>addr. is_ipv4 addr = is_ipv4 wg_in_addr) extra_in_addrs
      in sel_bind (choose_one extra) (\<lambda>chosen.
         let in_ip = (case chosen of Some addr \<Rightarrow> addr | None \<Rightarrow> wg_in_addr)
         in sel_bind
              (if extra = [] then desired_or_random_port_from_range wg_in_addr_port_ranges desired_port
               else desired_or_random_port_from_range SHADOWSOCKS_EXTRA_PORT_RANGES desired_port)
              (\<lambda>selected_port. ok (SocketAddr in_ip selected_port))))"

definition get_shadowsocks_obfuscator ::
  "shadowsocks_settings \<Rightarrow> port_range list \<Rightarrow> relay \<Rightarrow> mullvad_wireguard_endpoint \<Rightarrow>
   (helpers_error, obfuscator_config \<times> relay) sel" where
  "get_shadowsocks_obfuscator settings non_extra_port_ranges r e =
     (case rl_endpoint_data r of
        RelayWireguard wg \<Rightarrow>
          sel_bind (get_shadowsocks_obfuscator_inner (sa_ip (pc_endpoint (me_peer e)))
              non_extra_port_ranges (wr_shadowsocks_extra_addr_in wg) (sss_port settings)) (\<lambda>addr.
          ok (CfgShadowsocks addr, r))
      | RelayOpenvpn \<Rightarrow> panic
      | RelayBridge \<Rightarrow> panic)"

definition get_quic_obfuscator ::
  "relay \<Rightarrow> ip_version \<Rightarrow> ('e, (obfuscator_config \<times> relay) option) sel" where
  "get_quic_obfuscator r ip_version =
     (case Option.bind (relay_wireguard r) wr_quic of
        None \<Rightarrow> ok None
      | Some quic \<Rightarrow>
          (let addrs = (case ip_version of
                 IpV4 \<Rightarrow> map V4 (quic_in_ipv4 quic)
               | IpV6 \<Rightarrow> map V6 (quic_in_ipv6 quic))
           in sel_bind (choose_one addrs) (\<lambda>in_ip.
              ok (map_option (\<lambda>in_ip.
                (CfgQuic (quic_domain quic) (SocketAddr in_ip (quic_port quic)) (quic_token quic), r))
                in_ip))))"

definition get_lwo_obfuscator ::
  "relay \<Rightarrow> mullvad_wireguard_endpoint \<Rightarrow> (obfuscator_config \<times> relay) option" where
  "get_lwo_obfuscator r e =
     (case relay_wireguard r of
        None \<Rightarrow> None
      | Some data \<Rightarrow>
          if \<not> wr_lwo data then None
          else map_option
            (\<lambda>ip. (CfgLwo (SocketAddr ip (sa_port (pc_endpoint (me_peer e)))), r))
            (case sa_ip (pc_endpoint (me_peer e)) of
               V4 _ \<Rightarrow> Some (V4 (rl_ipv4_addr_in r))
             | V6 _ \<Rightarrow> map_option V6 (rl_ipv6_addr_in r)))"

text \<open>Compiled with the feature \<^verbatim>\<open>staggered-obfuscation\<close> only.\<close>

definition get_multiplexer_obfuscator ::
  "u16 list \<Rightarrow> port_range list \<Rightarrow> relay \<Rightarrow> mullvad_wireguard_endpoint \<Rightarrow>
   (helpers_error, selected_obfuscator) sel" where
  "get_multiplexer_obfuscator udp2tcp_ports shadowsocks_ports obfuscator_relay e =
     (let direct = Some (pc_endpoint (me_peer e))
      in sel_bind (get_udp2tcp_obfuscator \<lparr>u2t_port = Any\<rparr> udp2tcp_ports obfuscator_relay e) (\<lambda>udp2tcp.
         sel_bind (get_shadowsocks_obfuscator \<lparr>sss_port = Any\<rparr> shadowsocks_ports obfuscator_relay e) (\<lambda>shadowsocks.
         sel_bind (get_quic_obfuscator obfuscator_relay (ip_version_of (sa_ip (pc_endpoint (me_peer e))))) (\<lambda>quic.
         let configs = [fst udp2tcp, fst shadowsocks] @ (case quic of Some q \<Rightarrow> [fst q] | None \<Rightarrow> [])
         in sel_bind (expect_some (multiplexer direct configs)) (\<lambda>config.
            ok \<lparr>so_config = config, so_relay = obfuscator_relay\<rparr>)))))"


section \<open>Choice by weight\<close>

lemma unat_saturating_sub: "unat (saturating_sub a b) = unat a - unat b"
  by (auto simp: saturating_sub_def word_le_nat_alt unat_sub)

lemma unat_sum_list_le: "unat (sum_list (map weight xs)) \<le> sum_list (map (\<lambda>x. unat (weight x)) xs)"
  for weight :: "'a \<Rightarrow> u64"
proof (induction xs)
  case (Cons x xs)
  have "unat (weight x + sum_list (map weight xs)) \<le> unat (weight x) + unat (sum_list (map weight xs))"
    by (metis mod_less_eq_dividend unat_word_ariths(1))
  with Cons show ?case by simp
qed simp

lemma find_weighted_found:
  assumes "unat i \<le> sum_list (map (\<lambda>x. unat (weight x)) xs)" and "i \<noteq> 0"
  shows "\<exists>x \<in> set xs. find_weighted weight xs i = Some x \<and> weight x \<noteq> 0"
  using assms
proof (induction xs arbitrary: i)
  case (Cons x xs)
  define i' where "i' = saturating_sub i (weight x)"
  have i': "unat i' = unat i - unat (weight x)"
    by (simp add: i'_def unat_saturating_sub)
  show ?case
  proof (cases "i' = 0")
    case True
    then have "unat i \<le> unat (weight x)"
      using i' by simp
    moreover have "unat i \<noteq> 0" using Cons.prems(2) by (simp add: unat_eq_zero)
    ultimately have "weight x \<noteq> 0" by force
    with True show ?thesis by (simp add: i'_def Let_def)
  next
    case False
    moreover have "unat i' \<le> sum_list (map (\<lambda>x. unat (weight x)) xs)"
      using Cons.prems i' by (simp add: o_def)
    ultimately show ?thesis
      using Cons.IH [of i'] by (auto simp: i'_def Let_def)
  qed
qed (simp add: unat_eq_zero)

lemma outcomes_pick_weighted [outcome_rules]:
  assumes "xs = [] \<Longrightarrow> P None"
    and "\<And>x. x \<in> set xs \<Longrightarrow> sum_list (map weight xs) = 0 \<or> weight x \<noteq> 0 \<Longrightarrow> P (Some x)"
  shows "outcomes (pick_random_relay_weighted xs weight) P E"
proof (cases "sum_list (map weight xs) = 0")
  case True
  then show ?thesis
    by (auto simp: pick_random_relay_weighted_def intro!: outcomes_choose assms)
next
  case False
  let ?t = "unat (sum_list (map weight xs))"
  have t: "0 < ?t" "?t < 2 ^ 64"
    using False unsigned_less [of "sum_list (map weight xs)", where ?'a = nat]
    by (auto simp: unat_eq_zero simp flip: neq0_conv)
  have found: "\<exists>x \<in> set xs. find_weighted weight xs (word_of_nat (Suc k)) = Some x \<and> weight x \<noteq> 0"
    if "k < ?t" for k
  proof (rule find_weighted_found)
    have "unat (word_of_nat (Suc k) :: u64) = Suc k"
      using that t by (simp add: unsigned_of_nat take_bit_nat_eq_self del: of_nat_Suc)
    then show "unat (word_of_nat (Suc k) :: u64) \<le> sum_list (map (\<lambda>x. unat (weight x)) xs)"
      and "word_of_nat (Suc k) \<noteq> (0 :: u64)"
      using that unat_sum_list_le [of weight xs] by (linarith, force)
  qed
  have "outcomes (sel_bind (draw ?t) (\<lambda>k. sel_bind (expect_some (find_weighted weight xs
      (word_of_nat (Suc k)))) (\<lambda>x. ok (Some x)))) P E"
  proof (rule outcomes_bind [where Q = "\<lambda>k. k < ?t"])
    show "outcomes (draw ?t) (\<lambda>k. k < ?t) E"
      using t by (intro outcomes_draw) auto
  next
    fix k
    assume "k < ?t"
    then obtain x where x: "x \<in> set xs" "find_weighted weight xs (word_of_nat (Suc k)) = Some x"
      "weight x \<noteq> 0"
      using found by blast
    then have "P (Some x)" using assms(2) by blast
    with x show "outcomes (sel_bind (expect_some (find_weighted weight xs (word_of_nat (Suc k))))
        (\<lambda>x. ok (Some x))) P E"
      by (intro outcomes_bind [where Q = "\<lambda>y. y = x"] outcomes_expect outcomes_ok) auto
  qed
  with False show ?thesis
    by (simp add: pick_random_relay_weighted_def)
qed

lemma outcomes_pick [outcome_rules]:
  "(rs = [] \<Longrightarrow> P None) \<Longrightarrow> (\<And>r. r \<in> set rs \<Longrightarrow> P (Some r)) \<Longrightarrow> outcomes (pick_random_relay rs) P E"
  by (auto simp: pick_random_relay_def intro!: outcomes_pick_weighted)

lemma outcomes_pick_excluding [outcome_rules]:
  assumes "(\<And>r. r \<in> set rs \<Longrightarrow> relay_eq r exclude) \<Longrightarrow> P None"
    and "\<And>r. r \<in> set rs \<Longrightarrow> \<not> relay_eq r exclude \<Longrightarrow> P (Some r)"
  shows "outcomes (pick_random_relay_excluding rs exclude) P E"
  unfolding pick_random_relay_excluding_def
  by (rule outcomes_pick_weighted) (auto simp: filter_empty_conv intro: assms)

text \<open>The wheel is fair: a relay is chosen by as many of the numbers as its weight.\<close>

lemma card_shift:
  fixes n m :: nat
  shows "card {k. 0 < k \<and> k \<le> n + m \<and> n < k \<and> P (k - n)} = card {k. 0 < k \<and> k \<le> m \<and> P k}"
proof (rule bij_betw_same_card [where f = "\<lambda>k. k - n"])
  show "bij_betw (\<lambda>k. k - n) {k. 0 < k \<and> k \<le> n + m \<and> n < k \<and> P (k - n)} {k. 0 < k \<and> k \<le> m \<and> P k}"
    by (rule bij_betw_byWitness [where f' = "\<lambda>k. k + n"]) auto
qed

fun find_weighted_nat :: "('a \<Rightarrow> nat) \<Rightarrow> 'a list \<Rightarrow> nat \<Rightarrow> 'a option" where
  "find_weighted_nat weight [] i = None"
| "find_weighted_nat weight (x # xs) i =
     (if i \<le> weight x then Some x else find_weighted_nat weight xs (i - weight x))"

lemma find_weighted_unat: "find_weighted weight xs i = find_weighted_nat (\<lambda>x. unat (weight x)) xs (unat i)"
proof (induction xs arbitrary: i)
  case (Cons x xs)
  have "saturating_sub i (weight x) = 0 \<longleftrightarrow> unat i \<le> unat (weight x)"
    by (metis diff_is_0_eq unat_eq_zero unat_saturating_sub)
  with Cons show ?case by (simp add: Let_def unat_saturating_sub)
qed simp

lemma find_weighted_nat_in: "find_weighted_nat weight xs i = Some x \<Longrightarrow> x \<in> set xs"
  by (induction xs arbitrary: i) (auto split: if_splits)

lemma card_find_weighted:
  assumes "distinct xs" and "x \<in> set xs"
  shows "card {k. 0 < k \<and> k \<le> sum_list (map weight xs) \<and> find_weighted_nat weight xs k = Some x} = weight x"
  using assms
proof (induction xs)
  case (Cons y ys)
  let ?m = "sum_list (map weight ys)"
  let ?S = "{k. 0 < k \<and> k \<le> sum_list (map weight (y # ys)) \<and> find_weighted_nat weight (y # ys) k = Some x}"
  show ?case
  proof (cases "x = y")
    case True
    have "find_weighted_nat weight ys j \<noteq> Some y" for j
      using Cons.prems(1) find_weighted_nat_in [of weight ys j y] by auto
    then have "?S = {1 .. weight y}"
      by (auto simp: True split: if_splits)
    then show ?thesis by (simp add: True)
  next
    case False
    have "?S = {k. 0 < k \<and> k \<le> weight y + ?m \<and> weight y < k \<and> find_weighted_nat weight ys (k - weight y) = Some x}"
      using False by (intro Collect_cong) (auto split: if_splits)
    also have "card \<dots> = card {k. 0 < k \<and> k \<le> ?m \<and> find_weighted_nat weight ys k = Some x}"
      by (rule card_shift)
    also have "\<dots> = weight x"
      by (rule Cons.IH) (use Cons.prems False in simp_all)
    finally show ?thesis .
  qed
qed simp

section \<open>Ports and endpoints\<close>

definition in_ranges :: "port_range list \<Rightarrow> u16 \<Rightarrow> bool" where
  "in_ranges ranges port \<longleftrightarrow> (\<exists>range \<in> set ranges. range_contains range port)"

lemma find_map_range:
  "find_map (\<lambda>range. if range_contains range port then Some port else None) ranges =
     (if in_ranges ranges port then Some port else None)"
  by (induction ranges) (auto simp: in_ranges_def)

lemma outcomes_port [outcome_rules]:
  assumes "\<And>port. in_ranges ranges port \<Longrightarrow> matches_eq desired port \<Longrightarrow> P port" and "E NoMatchingPort"
  shows "outcomes (desired_or_random_port_from_range ranges desired) P E"
proof (cases desired)
  case (Only port)
  then show ?thesis
    using assms by (auto simp: desired_or_random_port_from_range_def port_if_in_range_def find_map_range
        ok_or_def intro!: outcomes_ok outcomes_err)
next
  case Any
  have "outcomes (sel_bind (choose_one (concat (map range_ports ranges))) (\<lambda>port. ok_or port NoMatchingPort)) P E"
    by (rule outcomes_bind [where Q = "\<lambda>port. \<forall>p. port = Some p \<longrightarrow> in_ranges ranges p"])
      (auto simp: in_ranges_def range_ports_contains Any assms(2) intro!: outcomes_choose outcomes_ok_or assms(1))
  with Any show ?thesis
    by (simp add: desired_or_random_port_from_range_def select_random_port_def)
qed

text \<open>What an endpoint has to do with the relays and the query it is made from.\<close>

definition address_of :: "wireguard_relay_query \<Rightarrow> relay \<Rightarrow> ip_addr \<Rightarrow> bool" where
  "address_of query r addr \<longleftrightarrow>
     (case resolve_ip_version (wq_ip_version query) of
        IpV4 \<Rightarrow> addr = V4 (rl_ipv4_addr_in r)
      | IpV6 \<Rightarrow> \<exists>a. rl_ipv6_addr_in r = Some a \<and> addr = V6 a)"

definition key_of :: "relay \<Rightarrow> u8 list \<Rightarrow> bool" where
  "key_of r key \<longleftrightarrow> map_option wr_public_key (relay_wireguard r) = Some key"

definition peer_ok :: "wireguard_relay_query \<Rightarrow> wireguard_endpoint_data \<Rightarrow> relay \<Rightarrow> peer_config \<Rightarrow> bool" where
  "peer_ok query data r peer \<longleftrightarrow>
     key_of r (pc_public_key peer) \<and> address_of query r (sa_ip (pc_endpoint peer)) \<and>
     in_ranges (we_port_ranges data) (sa_port (pc_endpoint peer)) \<and>
     matches_eq (wq_port query) (sa_port (pc_endpoint peer))"

fun endpoint_ok ::
  "wireguard_relay_query \<Rightarrow> wireguard_endpoint_data \<Rightarrow> wireguard_config \<Rightarrow> mullvad_wireguard_endpoint \<Rightarrow> bool" where
  "endpoint_ok query data (Singlehop exit) e \<longleftrightarrow>
     peer_ok query data exit (me_peer e) \<and> me_exit_peer e = None"
| "endpoint_ok query data (Multihop exit entry) e \<longleftrightarrow>
     peer_ok query data entry (me_peer e) \<and>
     pc_allowed_ips (me_peer e) = [NetV4 (rl_ipv4_addr_in exit) 32] \<and>
     (\<exists>peer. me_exit_peer e = Some peer \<and> key_of exit (pc_public_key peer) \<and>
        pc_endpoint peer = SocketAddr (V4 (rl_ipv4_addr_in exit)) WIREGUARD_EXIT_PORT)"

lemma outcomes_address: "outcomes (get_address_for_wireguard_relay query r) (address_of query r) (\<lambda>_. True)"
  by (auto simp: get_address_for_wireguard_relay_def address_of_def split: ip_version.splits
      intro!: outcomes_ok outcomes_ok_or)

lemma outcomes_wg_port:
  "outcomes (get_port_for_wireguard_relay query data)
     (\<lambda>port. in_ranges (we_port_ranges data) port \<and> matches_eq (wq_port query) port) (\<lambda>_. True)"
  unfolding get_port_for_wireguard_relay_def by (rule outcomes_map_err) (auto intro!: outcomes_port)

lemma outcomes_key: "outcomes (get_public_key r) (key_of r) (\<lambda>_. True)"
  by (auto simp: get_public_key_def key_of_def relay_wireguard_def split: relay_endpoint_data.splits
      intro!: outcomes_ok outcomes_err)

lemma outcomes_wireguard_endpoint:
  "outcomes (wireguard_endpoint query data config) (endpoint_ok query data config) (\<lambda>_. True)"
proof (cases config)
  case (Singlehop exit)
  then show ?thesis
    by (auto simp: wireguard_singlehop_endpoint_def peer_ok_def intro!: outcomes_ok
        outcomes_bind [OF outcomes_address] outcomes_bind [OF outcomes_wg_port] outcomes_bind [OF outcomes_key])
next
  case (Multihop exit entry)
  then show ?thesis
    by (auto simp: wireguard_multihop_endpoint_def peer_ok_def host_network_def Let_def intro!: outcomes_ok
        outcomes_bind [OF outcomes_address] outcomes_bind [OF outcomes_wg_port] outcomes_bind [OF outcomes_key])
qed

lemma outcomes_choose_or:
  assumes "\<And>x. x \<in> set xs \<Longrightarrow> P (f x)" and "E e"
  shows "outcomes (sel_bind (choose_one xs) (\<lambda>x. ok_or (map_option f x) e)) P E"
  by (rule outcomes_bind [where Q = "\<lambda>y. \<forall>x. y = Some x \<longrightarrow> x \<in> set xs"])
    (auto intro!: outcomes_choose outcomes_ok_or assms)

lemma outcomes_openvpn_endpoint:
  "outcomes (openvpn_endpoint query ports r)
     (\<lambda>e. \<exists>p \<in> set ports. compatible_openvpn_port_combo (oq_port query) p \<and>
        e = endpoint_new (V4 (rl_ipv4_addr_in r)) (ove_port p) (ove_protocol p) \<and>
        (should_use_bridge (oq_bridge_settings query) \<longrightarrow> ove_protocol p = Tcp)) (\<lambda>_. True)"
  by (auto simp: openvpn_endpoint_def openvpn_bridge_endpoint_def openvpn_singlehop_endpoint_def
      intro!: outcomes_choose_or)

section \<open>Outcomes of the obfuscators\<close>

lemma find_eq_Some_iff: "find (\<lambda>c. d = c) xs = Some x \<longleftrightarrow> d = x \<and> x \<in> set xs"
  by (induction xs) auto

lemma outcomes_udp2tcp:
  "outcomes (get_udp2tcp_obfuscator settings ports r e)
     (\<lambda>(config, r'). r' = r \<and> (\<exists>port \<in> set ports. matches_eq (u2t_port settings) port \<and>
        config = CfgUdp2Tcp (SocketAddr (sa_ip (pc_endpoint (me_peer e))) port))) (\<lambda>_. True)"
proof -
  have "outcomes (get_udp2tcp_obfuscator_port settings ports)
      (\<lambda>port. port \<in> set ports \<and> matches_eq (u2t_port settings) port) (\<lambda>_. True)"
  proof (cases "u2t_port settings")
    case Any
    then show ?thesis
      using outcomes_choose_or [of ports "\<lambda>port. port \<in> set ports" "\<lambda>x. x" "\<lambda>_. True" NoMatchingPort]
      by (simp add: get_udp2tcp_obfuscator_port_def option.map_ident)
  next
    case (Only port)
    then show ?thesis
      by (auto simp: get_udp2tcp_obfuscator_port_def find_eq_Some_iff intro!: outcomes_ok_or)
  qed
  then show ?thesis
    unfolding get_udp2tcp_obfuscator_def by (rule outcomes_bind) (auto intro!: outcomes_ok)
qed

lemma outcomes_shadowsocks:
  assumes "filter_wireguard r"
  shows "outcomes (get_shadowsocks_obfuscator settings ranges r e)
     (\<lambda>(config, r'). r' = r \<and> (\<exists>addr. config = CfgShadowsocks addr \<and>
        matches_eq (sss_port settings) (sa_port addr))) (\<lambda>_. True)"
proof -
  obtain wg where wg: "rl_endpoint_data r = RelayWireguard wg"
    using assms by (auto simp: filter_wireguard_def split: relay_endpoint_data.splits)
  have port: "outcomes (desired_or_random_port_from_range ranges' desired)
      (\<lambda>port. matches_eq desired port) (\<lambda>_. True)" for ranges' desired
    by (rule outcomes_port) simp_all
  have inner: "outcomes (get_shadowsocks_obfuscator_inner addr ranges extra desired)
      (\<lambda>a. matches_eq desired (sa_port a)) (\<lambda>_. True)" for addr extra desired
    unfolding get_shadowsocks_obfuscator_inner_def Let_def
    by (rule outcomes_bind [where Q = "\<lambda>_. True"])
      (auto intro!: outcomes_choose outcomes_bind [OF port] outcomes_ok)
  show ?thesis
    by (auto simp: get_shadowsocks_obfuscator_def wg intro!: outcomes_ok outcomes_bind [OF inner])
qed

definition quic_addresses :: "relay \<Rightarrow> ip_version \<Rightarrow> ip_addr list" where
  "quic_addresses r version =
     (case Option.bind (relay_wireguard r) wr_quic of
        None \<Rightarrow> []
      | Some quic \<Rightarrow> filter (\<lambda>a. ip_version_of a = version) (quic_addr_in quic))"

lemma map_filter_V4: "map V4 (quic_in_ipv4 q) = filter (\<lambda>a. ip_version_of a = IpV4) (quic_addr_in q)"
proof -
  have "map V4 (List.map_filter (\<lambda>a. case a of V4 x \<Rightarrow> Some x | V6 _ \<Rightarrow> None) xs) =
      filter (\<lambda>a. ip_version_of a = IpV4) xs" for xs
    by (induction xs) (auto simp: List.map_filter_simps split: ip_addr.splits)
  then show ?thesis by (simp add: quic_in_ipv4_def)
qed

lemma map_filter_V6: "map V6 (quic_in_ipv6 q) = filter (\<lambda>a. ip_version_of a = IpV6) (quic_addr_in q)"
proof -
  have "map V6 (List.map_filter (\<lambda>a. case a of V4 _ \<Rightarrow> None | V6 x \<Rightarrow> Some x) xs) =
      filter (\<lambda>a. ip_version_of a = IpV6) xs" for xs
    by (induction xs) (auto simp: List.map_filter_simps split: ip_addr.splits)
  then show ?thesis by (simp add: quic_in_ipv6_def)
qed

lemma outcomes_quic:
  "outcomes (get_quic_obfuscator r version)
     (\<lambda>x. case x of None \<Rightarrow> quic_addresses r version = []
        | Some (config, r') \<Rightarrow> r' = r \<and> (\<exists>host addr token. config = CfgQuic host (SocketAddr addr 443) token \<and>
            addr \<in> set (quic_addresses r version))) E"
proof (cases "Option.bind (relay_wireguard r) wr_quic")
  case None
  then show ?thesis by (simp add: get_quic_obfuscator_def quic_addresses_def outcomes_ok)
next
  case (Some quic)
  have addrs: "(case version of IpV4 \<Rightarrow> map V4 (quic_in_ipv4 quic) | IpV6 \<Rightarrow> map V6 (quic_in_ipv6 quic)) =
      quic_addresses r version"
    by (simp add: quic_addresses_def Some map_filter_V4 map_filter_V6 split: ip_version.splits)
  have "outcomes (sel_bind (choose_one (quic_addresses r version)) (\<lambda>in_ip. ok (map_option (\<lambda>in_ip.
        (CfgQuic (quic_domain quic) (SocketAddr in_ip (quic_port quic)) (quic_token quic), r)) in_ip)))
      (\<lambda>x. case x of None \<Rightarrow> quic_addresses r version = []
        | Some (config, r') \<Rightarrow> r' = r \<and> (\<exists>host addr token. config = CfgQuic host (SocketAddr addr 443) token \<and>
            addr \<in> set (quic_addresses r version))) E"
    by (rule outcomes_bind [where Q = "\<lambda>x. case x of None \<Rightarrow> quic_addresses r version = []
          | Some a \<Rightarrow> a \<in> set (quic_addresses r version)"])
      (auto simp: quic_port_def intro!: outcomes_choose outcomes_ok split: option.splits)
  with Some show ?thesis
    by (simp add: get_quic_obfuscator_def addrs)
qed

lemma outcomes_multiplexer:
  assumes "filter_wireguard r"
  shows "outcomes (get_multiplexer_obfuscator ports ranges r e) (\<lambda>ob. so_relay ob = r) (\<lambda>_. True)"
  unfolding get_multiplexer_obfuscator_def Let_def
proof (rule outcomes_bind [OF outcomes_udp2tcp], rule outcomes_bind [OF outcomes_shadowsocks [OF assms]],
    rule outcomes_bind [OF outcomes_quic])
  fix udp2tcp shadowsocks quic
  show "outcomes (sel_bind (expect_some (multiplexer (Some (pc_endpoint (me_peer e)))
      ([fst udp2tcp, fst shadowsocks] @ (case quic of Some q \<Rightarrow> [fst q] | None \<Rightarrow> []))))
      (\<lambda>config. ok \<lparr>so_config = config, so_relay = r\<rparr>)) (\<lambda>ob. so_relay ob = r) (\<lambda>_. True)"
    by (rule outcomes_bind [where Q = "\<lambda>_. True"]) (auto intro!: outcomes_expect outcomes_ok)
qed

end
