(* ===== verification/Relay_Selector.thy ===== *)
theory Relay_Selector
  imports Relay_Detailer
begin

text \<open>
  The relay selector: \<^verbatim>\<open>relay_selector/mod.rs\<close> of \<^verbatim>\<open>mullvad-relay-selector\<close>. Its state is
  its configuration and the parsed relay list, each behind a lock; a method reads what the locks
  protect when it takes them, so that \<open>get_relay\<close>, which locks the configuration twice, has two
  configurations as arguments.
\<close>

section \<open>Configuration\<close>

definition WIREGUARD_RETRY_ORDER :: "relay_query list" where
  "WIREGUARD_RETRY_ORDER =
    [build builder_wireguard,
     build (builder_ip_version builder_wireguard IpV6),
     build (builder_shadowsocks builder_wireguard),
     build (builder_quic builder_wireguard),
     build (builder_udp2tcp builder_wireguard),
     build (builder_ip_version (builder_udp2tcp builder_wireguard) IpV6),
     build (builder_lwo builder_wireguard)]"

definition OPENVPN_RETRY_ORDER :: "relay_query list" where
  "OPENVPN_RETRY_ORDER =
    [build builder_openvpn,
     build (builder_openvpn_port (builder_transport_protocol builder_openvpn Tcp) 443),
     build (builder_bridge (builder_transport_protocol builder_openvpn Tcp))]"

record additional_wireguard_constraints =
  ad_daita :: bool
  ad_daita_use_multihop_if_necessary :: bool
  ad_quantum_resistant :: quantum_resistant_state

record selector_config =
  sc_relay_settings :: relay_settings
  sc_additional_constraints :: additional_wireguard_constraints
  sc_custom_lists :: custom_lists
  sc_relay_overrides :: "relay_override list"
  sc_obfuscation_settings :: obfuscation_settings
  sc_bridge_state :: bridge_state
  sc_bridge_settings :: bridge_settings

record normal_selector_config =
  ns_user_preferences :: relay_constraints
  ns_additional_preferences :: additional_wireguard_constraints
  ns_custom_lists :: custom_lists
  ns_obfuscation_settings :: obfuscation_settings
  ns_bridge_state :: bridge_state
  ns_bridge_settings :: bridge_settings

datatype specialized_selector_config =
  SpecNormal normal_selector_config
| SpecCustom custom_tunnel_endpoint

datatype selected_bridge =
  SelectedNormalBridge shadowsocks relay
| SelectedCustomBridge custom_proxy

fun to_proxy :: "selected_bridge \<Rightarrow> custom_proxy" where
  "to_proxy (SelectedNormalBridge settings _) = Shadowsocks settings"
| "to_proxy (SelectedCustomBridge settings) = settings"

fun bridge_relay :: "selected_bridge \<Rightarrow> relay option" where
  "bridge_relay (SelectedNormalBridge _ r) = Some r"
| "bridge_relay (SelectedCustomBridge _) = None"

datatype get_relay_result =
  GetWireguard mullvad_wireguard_endpoint "selected_obfuscator option" wireguard_config
| GetOpenVpn endpoint relay "selected_bridge option"
| GetCustom custom_tunnel_endpoint

definition specialize :: "selector_config \<Rightarrow> specialized_selector_config" where
  "specialize c =
     (case sc_relay_settings c of
        CustomTunnelEndpoint e \<Rightarrow> SpecCustom e
      | Normal user_preferences \<Rightarrow>
          SpecNormal \<lparr>ns_user_preferences = user_preferences,
            ns_additional_preferences = sc_additional_constraints c,
            ns_custom_lists = sc_custom_lists c,
            ns_obfuscation_settings = sc_obfuscation_settings c,
            ns_bridge_state = sc_bridge_state c, ns_bridge_settings = sc_bridge_settings c\<rparr>)"

definition wireguard_constraints_query ::
  "wireguard_constraints \<Rightarrow> additional_wireguard_constraints \<Rightarrow> obfuscation_settings \<Rightarrow>
   wireguard_relay_query" where
  "wireguard_constraints_query wireguard additional obfuscation =
     \<lparr>wq_port = wgc_port wireguard, wq_ip_version = wgc_ip_version wireguard,
      wq_allowed_ips = wgc_allowed_ips wireguard,
      wq_use_multihop = Only (wgc_use_multihop wireguard),
      wq_entry_location = wgc_entry_location wireguard,
      wq_obfuscation = obfuscation_query_from obfuscation,
      wq_daita = Only (ad_daita additional),
      wq_daita_use_multihop_if_necessary = Only (ad_daita_use_multihop_if_necessary additional),
      wq_quantum_resistant = ad_quantum_resistant additional\<rparr>"

definition openvpn_constraints_query ::
  "openvpn_constraints \<Rightarrow> bridge_state \<Rightarrow> bridge_settings \<Rightarrow> openvpn_relay_query" where
  "openvpn_constraints_query openvpn state settings =
     \<lparr>oq_port = ovc_port openvpn,
      oq_bridge_settings =
        (case state of
           BridgeStateOn \<Rightarrow>
             (case bs_bridge_type settings of
                BridgeNormal \<Rightarrow> BridgeNormalQuery (bs_normal settings)
              | BridgeCustom \<Rightarrow> BridgeCustomQuery (bs_custom settings))
         | BridgeStateAuto \<Rightarrow> BridgeAuto
         | BridgeStateOff \<Rightarrow> BridgeOff)\<rparr>"

definition query_try_from :: "normal_selector_config \<Rightarrow> (selector_error, relay_query) result" where
  "query_try_from c =
     (let u = ns_user_preferences c
      in relay_query_new (rc_location u) (rc_providers u) (rc_ownership u) (rc_tunnel_protocol u)
           (wireguard_constraints_query (rc_wireguard_constraints u) (ns_additional_preferences c)
              (ns_obfuscation_settings c))
           (openvpn_constraints_query (rc_openvpn_constraints u) (ns_bridge_state c)
              (ns_bridge_settings c)))"

section \<open>Relays with distances\<close>

record relay_with_distance =
  rd_distance :: real
  rd_relay :: relay

definition new_with_distance_from :: "relay \<Rightarrow> coordinates \<Rightarrow> relay_with_distance" where
  "new_with_distance_from r origin =
     \<lparr>rd_distance = distance_from (rl_location r) origin, rd_relay = r\<rparr>"

section \<open>WireGuard\<close>

definition get_wireguard_singlehop_config ::
  "relay_query \<Rightarrow> custom_lists \<Rightarrow> relay_list \<Rightarrow> (selector_error, relay option) sel" where
  "get_wireguard_singlehop_config query clists parsed =
     sel_bind (filter_matching_relay_list query parsed clists) (\<lambda>candidates.
     sel_bind (pick_random_relay candidates) (\<lambda>picked.
     case picked of
       None \<Rightarrow> ok None
     | Some exit \<Rightarrow> sel_bind (sel_assert (filter_wireguard exit)) (\<lambda>_. ok (Some exit))))"

text \<open>\<^verbatim>\<open>Multihop::new\<close>; the pair is exit and entry.\<close>

definition multihop_new :: "relay \<Rightarrow> relay \<Rightarrow> ('e, relay \<times> relay) sel" where
  "multihop_new entry exit =
     sel_bind (sel_assert (filter_wireguard exit)) (\<lambda>_.
     sel_bind (sel_assert (filter_wireguard entry)) (\<lambda>_.
     ok (exit, entry)))"

text \<open>DAITA and obfuscation are for the entry relay only.\<close>

definition exit_constraints :: "relay_query \<Rightarrow> wireguard_relay_query" where
  "exit_constraints query =
     (rq_wireguard_constraints query)\<lparr>wq_daita := Only False, wq_obfuscation := ObfOff\<rparr>"

definition closest_relays :: "relay list \<Rightarrow> coordinates \<Rightarrow> ('e, relay list) sel" where
  "closest_relays candidates origin =
     sel_bind (sort_unstable_by_key rd_distance
         (map (\<lambda>entry. new_with_distance_from entry origin) candidates)) (\<lambda>sorted_candidates.
     let smallest_distance = (case sorted_candidates of [] \<Rightarrow> 0 | c # _ \<Rightarrow> rd_distance c)
     in ok (map rd_relay (takeWhile (\<lambda>c. rd_distance c \<le> smallest_distance) sorted_candidates)))"

definition get_wireguard_auto_multihop_config ::
  "relay_query \<Rightarrow> custom_lists \<Rightarrow> relay_list \<Rightarrow> (selector_error, relay \<times> relay) sel" where
  "get_wireguard_auto_multihop_config query clists parsed =
     sel_bind (lift_result (set_wireguard_constraints (exit_constraints query) query)) (\<lambda>exit_relay_query.
     sel_bind (filter_matching_relay_list exit_relay_query parsed clists) (\<lambda>exit_candidates.
     sel_bind (pick_random_relay exit_candidates) (\<lambda>picked_exit.
     sel_bind (ok_or picked_exit (NoRelay exit_relay_query)) (\<lambda>exit.
     sel_bind (lift_result (set_location Any query)) (\<lambda>entry_query.
     sel_bind (filter_matching_relay_list entry_query parsed clists) (\<lambda>all_entry_candidates.
     sel_bind (closest_relays all_entry_candidates (coordinates_of (rl_location exit))) (\<lambda>entry_candidates.
     sel_bind (pick_random_relay_excluding entry_candidates exit) (\<lambda>picked_entry.
     sel_bind (ok_or picked_entry (NoRelay entry_query)) (\<lambda>entry.
     multihop_new entry exit)))))))))"

definition pick_working_entry_exit_combo ::
  "relay list \<Rightarrow> relay list \<Rightarrow> ('e, (relay \<times> relay) option) sel" where
  "pick_working_entry_exit_combo exits entries =
     (if length entries = 1 \<and> relay_contains exits (hd entries)
      then sel_bind (pick_random_relay_excluding exits (hd entries)) (\<lambda>exit.
           ok (map_option (\<lambda>exit. (exit, hd entries)) exit))
      else if length exits = 1 \<and> relay_contains entries (hd exits)
      then sel_bind (pick_random_relay_excluding entries (hd exits)) (\<lambda>entry.
           ok (map_option (\<lambda>entry. (hd exits, entry)) entry))
      else sel_bind (pick_random_relay exits) (\<lambda>picked.
           case picked of
             None \<Rightarrow> ok None
           | Some exit \<Rightarrow>
               sel_bind (pick_random_relay_excluding entries exit) (\<lambda>entry.
               ok (map_option (\<lambda>entry. (exit, entry)) entry))))"

definition get_wireguard_multihop_config ::
  "relay_query \<Rightarrow> custom_lists \<Rightarrow> relay_list \<Rightarrow> (selector_error, relay \<times> relay) sel" where
  "get_wireguard_multihop_config query clists parsed =
     sel_bind (lift_result (set_location (wq_entry_location (rq_wireguard_constraints query)) query))
       (\<lambda>entry_relay_query.
     sel_bind (lift_result (set_wireguard_constraints (exit_constraints query) query)) (\<lambda>exit_relay_query.
     sel_bind (filter_matching_relay_list exit_relay_query parsed clists) (\<lambda>exit_candidates.
     sel_bind (filter_matching_relay_list entry_relay_query parsed clists) (\<lambda>entry_candidates.
     sel_bind (pick_working_entry_exit_combo exit_candidates entry_candidates) (\<lambda>combo.
     case combo of
       Some (exit, entry) \<Rightarrow> multihop_new entry exit
     | None \<Rightarrow>
         sel_bind (pick_working_entry_exit_combo
             (filter_matching_relay_list_include_all exit_relay_query parsed clists)
             (filter_matching_relay_list_include_all entry_relay_query parsed clists)) (\<lambda>combo'.
         sel_bind (ok_or combo' (NoRelay query)) (\<lambda>(exit, entry). multihop_new entry exit)))))))"

definition multihop_config :: "relay \<times> relay \<Rightarrow> wireguard_config" where
  "multihop_config p = Multihop (fst p) (snd p)"

definition get_wireguard_relay_config ::
  "relay_query \<Rightarrow> custom_lists \<Rightarrow> relay_list \<Rightarrow> (selector_error, wireguard_config) sel" where
  "get_wireguard_relay_config query clists parsed =
     (if singlehop query
      then sel_bind (get_wireguard_singlehop_config query clists parsed) (\<lambda>exit.
           case exit of
             Some exit \<Rightarrow> ok (Singlehop exit)
           | None \<Rightarrow>
               if using_daita query \<and> use_multihop_if_necessary query
               then sel_bind (get_wireguard_auto_multihop_config query clists parsed) (\<lambda>p.
                    ok (multihop_config p))
               else err (NoRelay query))
      else sel_bind
             (if using_daita query \<and> use_multihop_if_necessary query
              then get_wireguard_auto_multihop_config query clists parsed
              else get_wireguard_multihop_config query clists parsed) (\<lambda>p.
           ok (multihop_config p)))"

definition get_wireguard_endpoint ::
  "relay_query \<Rightarrow> relay_list \<Rightarrow> wireguard_config \<Rightarrow> (selector_error, mullvad_wireguard_endpoint) sel" where
  "get_wireguard_endpoint query parsed config =
     map_err (\<lambda>internal. NoEndpoint internal (DetailsWireguard config))
       (wireguard_endpoint (rq_wireguard_constraints query) (rs_wireguard parsed) config)"

definition single_obfuscator :: "obfuscator_config \<times> relay \<Rightarrow> selected_obfuscator" where
  "single_obfuscator p = \<lparr>so_config = ObfSingle (fst p), so_relay = snd p\<rparr>"

fun obfuscator_relay_of :: "wireguard_config \<Rightarrow> relay" where
  "obfuscator_relay_of (Singlehop exit) = exit"
| "obfuscator_relay_of (Multihop exit entry) = entry"

text \<open>\<open>staggered\<close> tells whether the feature \<^verbatim>\<open>staggered-obfuscation\<close> is compiled in.\<close>

definition get_wireguard_obfuscator ::
  "bool \<Rightarrow> relay_query \<Rightarrow> wireguard_config \<Rightarrow> mullvad_wireguard_endpoint \<Rightarrow> relay_list \<Rightarrow>
   (selector_error, selected_obfuscator option) sel" where
  "get_wireguard_obfuscator staggered query config e parsed =
     (let obfuscator_relay = obfuscator_relay_of config
      in case wq_obfuscation (rq_wireguard_constraints query) of
           ObfOff \<Rightarrow> ok None
         | ObfAuto \<Rightarrow>
             if staggered
             then map_err NoObfuscator
                    (sel_bind (get_multiplexer_obfuscator (we_udp2tcp_ports (rs_wireguard parsed))
                       (we_shadowsocks_port_ranges (rs_wireguard parsed)) obfuscator_relay e) (\<lambda>obfs.
                     ok (Some obfs)))
             else ok None
         | ObfUdp2tcp settings \<Rightarrow>
             map_err NoObfuscator
               (sel_bind (get_udp2tcp_obfuscator settings (we_udp2tcp_ports (rs_wireguard parsed))
                  obfuscator_relay e) (\<lambda>obfs. ok (Some (single_obfuscator obfs))))
         | ObfShadowsocks settings \<Rightarrow>
             map_err NoObfuscator
               (sel_bind (get_shadowsocks_obfuscator settings
                  (we_shadowsocks_port_ranges (rs_wireguard parsed)) obfuscator_relay e) (\<lambda>obfs.
                ok (Some (single_obfuscator obfs))))
         | ObfQuic \<Rightarrow>
             sel_bind (get_quic_obfuscator obfuscator_relay
                 (resolve_ip_version (wq_ip_version (rq_wireguard_constraints query)))) (\<lambda>obfs.
             ok (map_option single_obfuscator obfs))
         | ObfLwo \<Rightarrow> ok (map_option single_obfuscator (get_lwo_obfuscator obfuscator_relay e)))"

definition get_wireguard_relay_inner ::
  "bool \<Rightarrow> relay_query \<Rightarrow> custom_lists \<Rightarrow> relay_list \<Rightarrow> (selector_error, get_relay_result) sel" where
  "get_wireguard_relay_inner staggered query clists parsed =
     sel_bind (sel_assert (rq_tunnel_protocol query = TypeWireguard)) (\<lambda>_.
     sel_bind (get_wireguard_relay_config query clists parsed) (\<lambda>inner.
     sel_bind (get_wireguard_endpoint query parsed inner) (\<lambda>e.
     sel_bind (get_wireguard_obfuscator staggered query inner e parsed) (\<lambda>obfuscator.
     ok (GetWireguard e obfuscator inner)))))"

section \<open>OpenVPN and bridges\<close>

definition MIN_BRIDGE_COUNT :: nat where
  "MIN_BRIDGE_COUNT = 5"

text \<open>Conversions of \<^verbatim>\<open>f64\<close> to an integer drop the fraction; none here is out of range.\<close>

definition get_proximate_bridge :: "relay list \<Rightarrow> coordinates \<Rightarrow> (selector_error, relay) sel" where
  "get_proximate_bridge rs origin =
     sel_bind (sort_unstable_by_key (\<lambda>r. nat \<lfloor>rd_distance r\<rfloor>)
         (map (\<lambda>r. new_with_distance_from r origin) rs)) (\<lambda>by_distance.
     let matching_bridges = take MIN_BRIDGE_COUNT by_distance
     in case matching_bridges of
          [] \<Rightarrow> err NoBridge
        | _ \<Rightarrow>
            let greatest_distance = Max (rd_distance ` set matching_bridges);
                weight_fn = (\<lambda>r. 1 + word_of_nat (nat \<lfloor>greatest_distance - rd_distance r\<rfloor>))
            in sel_bind (pick_random_relay_weighted matching_bridges weight_fn) (\<lambda>picked.
               ok_or (map_option rd_relay picked) NoBridge))"

definition get_proxy_settings ::
  "relay_list \<Rightarrow> internal_bridge_constraints \<Rightarrow> coordinates option \<Rightarrow> custom_lists \<Rightarrow>
   (selector_error, shadowsocks \<times> relay) sel" where
  "get_proxy_settings list0 constraints location clists =
     (let bridges = filter_matching_bridges constraints (relays list0) clists
      in sel_bind
           (case location of
              Some origin \<Rightarrow> get_proximate_bridge bridges origin
            | None \<Rightarrow> sel_bind (pick_random_relay bridges) (\<lambda>picked. ok_or picked NoBridge)) (\<lambda>bridge.
         sel_bind (bridge_endpoint (rs_bridge_shadowsocks list0) bridge) (\<lambda>e.
         sel_bind (ok_or e NoBridge) (\<lambda>e.
         ok (e, bridge)))))"

definition get_bridge_for ::
  "bridge_query \<Rightarrow> location \<Rightarrow> transport_protocol \<Rightarrow> relay_list \<Rightarrow> custom_lists \<Rightarrow>
   (selector_error, selected_bridge option) sel" where
  "get_bridge_for query location transport_protocol parsed clists =
     (case query of
        BridgeNormalQuery settings \<Rightarrow>
          sel_bind (get_proxy_settings parsed
              \<lparr>ib_location = bc_location settings, ib_providers = bc_providers settings,
               ib_ownership = bc_ownership settings, ib_transport_protocol = Only transport_protocol\<rparr>
              (Some (coordinates_of location)) clists) (\<lambda>(settings, r).
          ok (Some (SelectedNormalBridge settings r)))
      | BridgeCustomQuery settings \<Rightarrow> ok (map_option SelectedCustomBridge settings)
      | BridgeOff \<Rightarrow> ok None
      | BridgeAuto \<Rightarrow> ok None)"

definition get_openvpn_bridge ::
  "relay_query \<Rightarrow> relay \<Rightarrow> transport_protocol \<Rightarrow> relay_list \<Rightarrow> custom_lists \<Rightarrow>
   (selector_error, selected_bridge option) sel" where
  "get_openvpn_bridge query r protocol parsed clists =
     (if \<not> should_use_bridge (oq_bridge_settings (rq_openvpn_constraints query)) then ok None
      else case protocol of
        Udp \<Rightarrow> err NoBridge
      | Tcp \<Rightarrow> get_bridge_for (oq_bridge_settings (rq_openvpn_constraints query)) (rl_location r) Tcp
                parsed clists)"

definition choose_openvpn_relay ::
  "relay_query \<Rightarrow> custom_lists \<Rightarrow> relay_list \<Rightarrow> (selector_error, relay option) sel" where
  "choose_openvpn_relay query clists parsed =
     sel_bind (filter_matching_relay_list query parsed clists) pick_random_relay"

definition get_openvpn_endpoint ::
  "relay_query \<Rightarrow> relay \<Rightarrow> relay_list \<Rightarrow> (selector_error, endpoint) sel" where
  "get_openvpn_endpoint query r parsed =
     map_err (\<lambda>internal. NoEndpoint internal (DetailsOpenVpn r))
       (openvpn_endpoint (rq_openvpn_constraints query) (rs_openvpn_ports parsed) r)"

definition get_openvpn_relay ::
  "relay_query \<Rightarrow> custom_lists \<Rightarrow> relay_list \<Rightarrow> (selector_error, get_relay_result) sel" where
  "get_openvpn_relay query clists parsed =
     sel_bind (sel_assert (rq_tunnel_protocol query = TypeOpenVpn)) (\<lambda>_.
     sel_bind (choose_openvpn_relay query clists parsed) (\<lambda>chosen.
     sel_bind (ok_or chosen (NoRelay query)) (\<lambda>exit.
     sel_bind (get_openvpn_endpoint query exit parsed) (\<lambda>e.
     sel_bind (get_openvpn_bridge query exit (ep_protocol e) parsed clists) (\<lambda>bridge.
     sel_bind (sel_assert (filter_openvpn exit)) (\<lambda>_.
     ok (GetOpenVpn e exit bridge)))))))"

fun unique_by_city :: "location list \<Rightarrow> location list" where
  "unique_by_city [] = []"
| "unique_by_city (l # ls) = l # filter (\<lambda>x. loc_city x \<noteq> loc_city l) (unique_by_city ls)"

definition get_relay_midpoint ::
  "relay_query \<Rightarrow> relay_list \<Rightarrow> custom_lists \<Rightarrow> ('e, coordinates option) sel" where
  "get_relay_midpoint query parsed clists =
     (if is_any (rq_location query) then ok None
      else sel_bind (filter_matching_relay_list query parsed clists) (\<lambda>rs.
           let matching_locations = unique_by_city (map rl_location rs)
           in ok (if matching_locations = [] then None else Some (midpoint matching_locations))))"

section \<open>Selecting\<close>

definition get_relay_inner ::
  "bool \<Rightarrow> relay_query \<Rightarrow> relay_list \<Rightarrow> custom_lists \<Rightarrow> (selector_error, get_relay_result) sel" where
  "get_relay_inner staggered query parsed clists =
     (case rq_tunnel_protocol query of
        TypeWireguard \<Rightarrow> get_wireguard_relay_inner staggered query clists parsed
      | TypeOpenVpn \<Rightarrow> get_openvpn_relay query clists parsed)"

definition ip_version_constraint :: "ip_availability \<Rightarrow> ip_version constraint" where
  "ip_version_constraint a =
     (case a of Ipv4 \<Rightarrow> Only IpV4 | Ipv6 \<Rightarrow> Only IpV6 | Ipv4AndIpv6 \<Rightarrow> Any)"

definition apply_ip_availability ::
  "ip_availability \<Rightarrow> relay_query \<Rightarrow> (selector_error, relay_query) sel" where
  "apply_ip_availability runtime_ip_availability user_query =
     (if rq_tunnel_protocol user_query = TypeOpenVpn then ok user_query
      else case wireguard_query_intersection (rq_wireguard_constraints user_query)
             (wireguard_relay_query_new\<lparr>wq_ip_version := ip_version_constraint runtime_ip_availability\<rparr>) of
             None \<Rightarrow>
               sel_bind (expect_some (constraint_option (wq_ip_version (rq_wireguard_constraints user_query))))
                 (\<lambda>family. err (SelectorIpVersionUnavailable family))
           | Some wireguard \<Rightarrow> lift_result (set_wireguard_constraints wireguard user_query))"

text \<open>
  \<^verbatim>\<open>iter.filter_map(f).cycle().nth(n)\<close>. The iterator is lazy: when it is exhausted the cycle
  starts it afresh, and ends when it then yields nothing. \<open>restarted\<close> tells that nothing has been
  yielded since the last start.
\<close>

function nth_cycle ::
  "('q \<Rightarrow> ('e, 'a option) sel) \<Rightarrow> 'q list \<Rightarrow> 'q list \<Rightarrow> bool \<Rightarrow> nat \<Rightarrow> ('e, 'a option) sel" where
  "nth_cycle f all [] restarted n = (if restarted then ok None else nth_cycle f all all True n)"
| "nth_cycle f all (q # qs) restarted n =
     sel_bind (f q) (\<lambda>x.
       case x of
         None \<Rightarrow> nth_cycle f all qs restarted n
       | Some a \<Rightarrow> if n = 0 then ok (Some a) else nth_cycle f all qs False (n - 1))"
  by pat_completeness auto
termination
  by (relation "measures [\<lambda>(f, all, qs, restarted, n). n,
        \<lambda>(f, all, qs, restarted, n). if restarted then 0 else 1,
        \<lambda>(f, all, qs, restarted, n). length qs]") auto

definition get_relay_with_custom_params ::
  "bool \<Rightarrow> selector_config \<Rightarrow> relay_list \<Rightarrow> nat \<Rightarrow> relay_query list \<Rightarrow> ip_availability \<Rightarrow>
   (selector_error, get_relay_result) sel" where
  "get_relay_with_custom_params staggered config parsed retry_attempt retry_order avail =
     (case specialize config of
        SpecCustom custom_config \<Rightarrow> ok (GetCustom custom_config)
      | SpecNormal normal_config \<Rightarrow>
          sel_bind (lift_result (query_try_from normal_config)) (\<lambda>user_preferences.
          sel_bind (apply_ip_availability avail user_preferences) (\<lambda>user_query.
          let clists = ns_custom_lists normal_config;
              attempt = (\<lambda>query. forget_err (get_relay_inner staggered query parsed clists));
              merged = List.map_filter (\<lambda>query. query_intersection query user_query) retry_order
          in sel_bind (nth_cycle attempt merged merged False retry_attempt) (\<lambda>found.
             case found of
               Some r \<Rightarrow> ok r
             | None \<Rightarrow> sel_bind (attempt user_query) (\<lambda>r. ok_or r (NoRelay user_query))))))"

definition get_relay ::
  "bool \<Rightarrow> selector_config \<Rightarrow> selector_config \<Rightarrow> relay_list \<Rightarrow> nat \<Rightarrow> ip_availability \<Rightarrow>
   (selector_error, get_relay_result) sel" where
  "get_relay staggered config config' parsed retry_attempt avail =
     (case specialize config of
        SpecCustom custom_config \<Rightarrow> ok (GetCustom custom_config)
      | SpecNormal normal_config \<Rightarrow>
          (case rc_tunnel_protocol (ns_user_preferences normal_config) of
             TypeWireguard \<Rightarrow> get_relay_with_custom_params staggered config' parsed retry_attempt
               WIREGUARD_RETRY_ORDER avail
           | TypeOpenVpn \<Rightarrow> get_relay_with_custom_params staggered config' parsed retry_attempt
               OPENVPN_RETRY_ORDER avail))"

definition get_relay_by_query ::
  "bool \<Rightarrow> selector_config \<Rightarrow> relay_list \<Rightarrow> relay_query \<Rightarrow> (selector_error, get_relay_result) sel" where
  "get_relay_by_query staggered config parsed query =
     (case specialize config of
        SpecCustom custom_config \<Rightarrow> ok (GetCustom custom_config)
      | SpecNormal normal_config \<Rightarrow>
          get_relay_inner staggered query parsed (ns_custom_lists normal_config))"

definition get_bridge_forced ::
  "selector_config \<Rightarrow> relay_list \<Rightarrow> (selector_error, shadowsocks option) sel" where
  "get_bridge_forced config parsed =
     sel_bind
       (case specialize config of
          SpecNormal c \<Rightarrow>
            (case query_try_from c of
               Inr user_preferences \<Rightarrow> get_relay_midpoint user_preferences parsed (ns_custom_lists c)
             | Inl e \<Rightarrow> ok None)
        | SpecCustom _ \<Rightarrow> ok None) (\<lambda>near_location.
     let constraints = (case bridge_settings_resolve (sc_bridge_settings config) of
           Inr (ResolvedNormal settings) \<Rightarrow>
             \<lparr>ib_location = bc_location settings, ib_providers = bc_providers settings,
              ib_ownership = bc_ownership settings, ib_transport_protocol = Only Tcp\<rparr>
         | _ \<Rightarrow> \<lparr>ib_location = Any, ib_providers = Any, ib_ownership = Any,
                 ib_transport_protocol = Only Tcp\<rparr>)
     in sel_bind (forget_err (get_proxy_settings parsed constraints near_location (sc_custom_lists config)))
          (\<lambda>r. ok (map_option fst r)))"

section \<open>The selector as a state\<close>

record relay_selector =
  se_config :: selector_config
  se_parsed_relays :: parsed_relays

definition selector_new ::
  "selector_config \<Rightarrow> ('e, nat \<times> relay_list) result \<Rightarrow> ('e, nat \<times> relay_list) result \<Rightarrow> relay_selector" where
  "selector_new config resource cache =
     \<lparr>se_config = config,
      se_parsed_relays =
        (case from_file cache resource (sc_relay_overrides config) of
           Inr parsed \<Rightarrow> parsed
         | Inl e \<Rightarrow> parsed_relays_empty)\<rparr>"

definition selector_from_list :: "selector_config \<Rightarrow> relay_list \<Rightarrow> nat \<Rightarrow> relay_selector" where
  "selector_from_list config list0 now =
     \<lparr>se_config = config, se_parsed_relays = from_relay_list list0 now (sc_relay_overrides config)\<rparr>"

definition selector_set_overrides :: "relay_selector \<Rightarrow> relay_override list \<Rightarrow> relay_selector" where
  "selector_set_overrides s overrides =
     s\<lparr>se_parsed_relays := set_overrides (se_parsed_relays s) overrides\<rparr>"

definition selector_set_config :: "relay_selector \<Rightarrow> selector_config \<Rightarrow> relay_selector" where
  "selector_set_config s config =
     (selector_set_overrides s (sc_relay_overrides config))\<lparr>se_config := config\<rparr>"

definition selector_set_relays :: "relay_selector \<Rightarrow> relay_list \<Rightarrow> nat \<Rightarrow> relay_selector" where
  "selector_set_relays s list0 now =
     s\<lparr>se_parsed_relays := parsed_relays_update (se_parsed_relays s) list0 now\<rparr>"

definition selector_get_relays :: "relay_selector \<Rightarrow> relay_list" where
  "selector_get_relays s = pr_original_list (se_parsed_relays s)"

end
