(* ===== verification/Relay_Selection.thy ===== *)
theory Relay_Selection
  imports Relay_Selector
begin

text \<open>
  What the relay selector returns. \<open>result_ok\<close> states what a result owes to the query it was
  made for; the lemmas derive, in the logic of outcomes, that every result of
  \<open>get_relay_inner\<close> satisfies it and that none of the assertions, \<^verbatim>\<open>expect\<close>s and
  \<^verbatim>\<open>unwrap\<close>s on the way fails. Queries from the retry orders are then shown to keep the
  user's preferences.
\<close>

section \<open>What a result owes to its query\<close>

definition exit_query :: "relay_query \<Rightarrow> relay_query" where
  "exit_query query = query\<lparr>rq_wireguard_constraints := exit_constraints query\<rparr>"

definition entry_query :: "relay_query \<Rightarrow> relay_query" where
  "entry_query query =
     query\<lparr>rq_location := (if using_daita query \<and> use_multihop_if_necessary query then Any
       else wq_entry_location (rq_wireguard_constraints query))\<rparr>"

fun config_ok :: "relay_query \<Rightarrow> relay_list \<Rightarrow> custom_lists \<Rightarrow> wireguard_config \<Rightarrow> bool" where
  "config_ok query parsed clists (Singlehop exit) \<longleftrightarrow>
     exit \<in> set (relays parsed) \<and> relay_matches query parsed clists exit \<and> singlehop query"
| "config_ok query parsed clists (Multihop exit entry) \<longleftrightarrow>
     exit \<in> set (relays parsed) \<and> relay_matches (exit_query query) parsed clists exit \<and>
     entry \<in> set (relays parsed) \<and> relay_matches (entry_query query) parsed clists entry \<and>
     \<not> relay_eq entry exit \<and>
     (singlehop query \<longrightarrow> using_daita query \<and> use_multihop_if_necessary query)"

definition obfuscator_ok ::
  "relay_query \<Rightarrow> wireguard_config \<Rightarrow> selected_obfuscator option \<Rightarrow> bool" where
  "obfuscator_ok query config obf \<longleftrightarrow>
     (\<forall>ob. obf = Some ob \<longrightarrow> so_relay ob = obfuscator_relay_of config) \<and>
     (case wq_obfuscation (rq_wireguard_constraints query) of
        ObfOff \<Rightarrow> obf = None
      | ObfAuto \<Rightarrow> True
      | ObfUdp2tcp settings \<Rightarrow> \<exists>ob addr. obf = Some ob \<and> so_config ob = ObfSingle (CfgUdp2Tcp addr) \<and>
          matches_eq (u2t_port settings) (sa_port addr)
      | ObfShadowsocks settings \<Rightarrow> \<exists>ob addr. obf = Some ob \<and> so_config ob = ObfSingle (CfgShadowsocks addr) \<and>
          matches_eq (sss_port settings) (sa_port addr)
      | ObfQuic \<Rightarrow>
          quic_addresses (obfuscator_relay_of config)
              (resolve_ip_version (wq_ip_version (rq_wireguard_constraints query))) = [] \<or>
          (\<exists>ob host addr token. obf = Some ob \<and> so_config ob = ObfSingle (CfgQuic host addr token))
      | ObfLwo \<Rightarrow> \<exists>ob addr. obf = Some ob \<and> so_config ob = ObfSingle (CfgLwo addr))"

definition bridge_ok ::
  "relay_query \<Rightarrow> relay_list \<Rightarrow> custom_lists \<Rightarrow> selected_bridge option \<Rightarrow> bool" where
  "bridge_ok query parsed clists bridge \<longleftrightarrow>
     (case oq_bridge_settings (rq_openvpn_constraints query) of
        BridgeOff \<Rightarrow> bridge = None
      | BridgeAuto \<Rightarrow> bridge = None
      | BridgeCustomQuery settings \<Rightarrow> bridge = map_option SelectedCustomBridge settings
      | BridgeNormalQuery settings \<Rightarrow>
          \<exists>proxy r. bridge = Some (SelectedNormalBridge proxy r) \<and> r \<in> set (relays parsed) \<and>
            filter_bridge r \<and> rl_active r \<and>
            filter_on_location (resolve_location (bc_location settings) clists) r \<and>
            filter_on_ownership (bc_ownership settings) r \<and>
            filter_on_providers (bc_providers settings) r)"

fun result_ok :: "relay_query \<Rightarrow> relay_list \<Rightarrow> custom_lists \<Rightarrow> get_relay_result \<Rightarrow> bool" where
  "result_ok query parsed clists (GetWireguard e obf config) \<longleftrightarrow>
     rq_tunnel_protocol query = TypeWireguard \<and> config_ok query parsed clists config \<and>
     endpoint_ok (rq_wireguard_constraints query) (rs_wireguard parsed) config e \<and>
     obfuscator_ok query config obf"
| "result_ok query parsed clists (GetOpenVpn e exit bridge) \<longleftrightarrow>
     rq_tunnel_protocol query = TypeOpenVpn \<and>
     exit \<in> set (relays parsed) \<and> relay_matches query parsed clists exit \<and>
     (\<exists>p \<in> set (rs_openvpn_ports parsed).
        compatible_openvpn_port_combo (oq_port (rq_openvpn_constraints query)) p \<and>
        e = endpoint_new (V4 (rl_ipv4_addr_in exit)) (ove_port p) (ove_protocol p)) \<and>
     bridge_ok query parsed clists bridge \<and>
     (bridge \<noteq> None \<longrightarrow> ep_protocol e = Tcp)"
| "result_ok query parsed clists (GetCustom _) \<longleftrightarrow> False"

section \<open>WireGuard configurations\<close>

lemma outcomes_matching:
  "outcomes (filter_matching_relay_list query parsed clists)
     (\<lambda>rs. (\<forall>r \<in> set rs. r \<in> set (relays parsed) \<and> relay_matches query parsed clists r) \<and>
        (rs = [] \<longleftrightarrow> \<not> (\<exists>r \<in> set (relays parsed). relay_matches query parsed clists r)) \<and>
        (hostnames_distinct (relays parsed) \<longrightarrow> hostnames_distinct rs)) E"
proof -
  let ?all = "filter_matching_relay_list_include_all query parsed clists"
  have distinct: "hostnames_distinct (relays parsed) \<Longrightarrow> hostnames_distinct ?all"
    by (auto simp: hostnames_distinct_def include_all_eq intro: distinct_map_filter)
  have empty: "?all = [] \<longleftrightarrow> \<not> (\<exists>r \<in> set (relays parsed). relay_matches query parsed clists r)"
    by (auto simp: include_all_eq filter_empty_conv)
  have nowhere: "resolve_location (rq_location query) clists = Only [] \<Longrightarrow> ?all = []"
    by (auto simp: include_all_eq filter_empty_conv relay_matches_def filter_on_location_def resolved_matches_def)
  show ?thesis
    unfolding filter_matching_relay_list_def
    by (rule outcomes_mono [OF outcomes_include_in_country [of _ ?all E]])
      (use distinct empty nowhere in \<open>auto simp: include_all_eq\<close>)
qed

lemma matches_wireguard:
  "relay_matches query parsed clists r \<Longrightarrow> rq_tunnel_protocol query = TypeWireguard \<Longrightarrow> filter_wireguard r"
  by (simp add: relay_matches_def filter_tunnel_type_def)

lemma outcomes_singlehop:
  assumes "rq_tunnel_protocol query = TypeWireguard"
  shows "outcomes (get_wireguard_singlehop_config query clists parsed)
     (\<lambda>x. case x of
        None \<Rightarrow> \<not> (\<exists>r \<in> set (relays parsed). relay_matches query parsed clists r)
      | Some exit \<Rightarrow> exit \<in> set (relays parsed) \<and> relay_matches query parsed clists exit) E"
  unfolding get_wireguard_singlehop_config_def
proof (rule outcomes_bind [OF outcomes_matching], elim conjE)
  fix rs
  assume rs: "\<forall>r \<in> set rs. r \<in> set (relays parsed) \<and> relay_matches query parsed clists r"
    and empty: "rs = [] \<longleftrightarrow> \<not> (\<exists>r \<in> set (relays parsed). relay_matches query parsed clists r)"
  show "outcomes (sel_bind (pick_random_relay rs) (\<lambda>picked. case picked of None \<Rightarrow> ok None
       | Some exit \<Rightarrow> sel_bind (sel_assert (filter_wireguard exit)) (\<lambda>_. ok (Some exit))))
     (\<lambda>x. case x of
        None \<Rightarrow> \<not> (\<exists>r \<in> set (relays parsed). relay_matches query parsed clists r)
      | Some exit \<Rightarrow> exit \<in> set (relays parsed) \<and> relay_matches query parsed clists exit) E"
    by (rule outcomes_bind [where Q = "\<lambda>x. case x of None \<Rightarrow> rs = [] | Some r \<Rightarrow> r \<in> set rs"])
      (use rs empty assms in \<open>auto intro!: outcomes_pick outcomes_ok outcomes_assert
        outcomes_bind [where Q = "\<lambda>_. True"] intro: matches_wireguard split: option.splits\<close>)
qed

lemma outcomes_multihop_new:
  "filter_wireguard exit \<Longrightarrow> filter_wireguard entry \<Longrightarrow> P (exit, entry) \<Longrightarrow>
     outcomes (multihop_new entry exit) P E"
  unfolding multihop_new_def
  by (intro outcomes_bind [where Q = "\<lambda>_. True"] outcomes_assert outcomes_ok) auto

text \<open>The closest of the candidates: all and only those at the least distance.\<close>

definition nearest :: "coordinates \<Rightarrow> relay list \<Rightarrow> relay \<Rightarrow> bool" where
  "nearest origin rs r \<longleftrightarrow>
     (\<forall>r' \<in> set rs. distance_from (rl_location r) origin \<le> distance_from (rl_location r') origin)"

lemma takeWhile_sorted_least:
  fixes xs :: "relay_with_distance list"
  assumes "sorted (map rd_distance xs)" and "xs \<noteq> []"
  shows "set (takeWhile (\<lambda>c. rd_distance c \<le> rd_distance (hd xs)) xs) =
    {c \<in> set xs. \<forall>c' \<in> set xs. rd_distance c \<le> rd_distance c'}"
proof -
  obtain y ys where xs: "xs = y # ys" using assms(2) by (cases xs) auto
  have least: "\<forall>c \<in> set xs. rd_distance y \<le> rd_distance c"
    using assms(1) by (auto simp: xs)
  have "set (takeWhile (\<lambda>c. rd_distance c \<le> d) zs) = {c \<in> set zs. rd_distance c \<le> d}"
    if "sorted (map rd_distance zs)" for d zs
    using that by (induction zs) auto
  then show ?thesis
    using assms(1) least by (auto simp: xs intro: order_trans)
qed

lemma outcomes_closest:
  "outcomes (closest_relays candidates origin)
     (\<lambda>rs. set rs = {r \<in> set candidates. nearest origin candidates r}) E"
  unfolding closest_relays_def
proof (rule outcomes_bind [OF outcomes_sort_unstable
      [where P = "\<lambda>ys. mset ys = mset (map (\<lambda>r. new_with_distance_from r origin) candidates) \<and>
        sorted (map rd_distance ys)"]])
  fix ys
  assume ys: "mset ys = mset (map (\<lambda>r. new_with_distance_from r origin) candidates) \<and> sorted (map rd_distance ys)"
  then have set: "set ys = (\<lambda>r. new_with_distance_from r origin) ` set candidates"
    by (metis mset_eq_setD set_map)
  have rs: "rd_relay ` set (takeWhile (\<lambda>c. rd_distance c \<le> d) ys) = {r \<in> set candidates. nearest origin candidates r}"
    if "d = (case ys of [] \<Rightarrow> 0 | c # _ \<Rightarrow> rd_distance c)" for d
  proof (cases "ys = []")
    case True
    with set show ?thesis by auto
  next
    case False
    then have "d = rd_distance (hd ys)" using that by (cases ys) auto
    then have "set (takeWhile (\<lambda>c. rd_distance c \<le> d) ys) = {c \<in> set ys. \<forall>c' \<in> set ys. rd_distance c \<le> rd_distance c'}"
      using takeWhile_sorted_least [of ys] ys False by simp
    then show ?thesis
      by (force simp: set nearest_def new_with_distance_from_def image_iff)
  qed
  then show "outcomes (let smallest_distance = (case ys of [] \<Rightarrow> 0 | c # _ \<Rightarrow> rd_distance c)
      in ok (map rd_relay (takeWhile (\<lambda>c. rd_distance c \<le> smallest_distance) ys)))
     (\<lambda>rs. set rs = {r \<in> set candidates. nearest origin candidates r}) E"
    by (auto simp: Let_def intro!: outcomes_ok)
qed auto

lemma exit_query_ok:
  "rq_tunnel_protocol query = TypeWireguard \<Longrightarrow>
     set_wireguard_constraints (exit_constraints query) query = Inr (exit_query query)"
  by (simp add: set_wireguard_constraints_def set_if_valid_ok query_valid_def exit_query_def)

lemma exit_query_protocol [simp]: "rq_tunnel_protocol (exit_query query) = rq_tunnel_protocol query"
  by (simp add: exit_query_def)

lemma wireguard_valid: "rq_tunnel_protocol query = TypeWireguard \<Longrightarrow> query_valid query"
  by (simp add: query_valid_def)

lemma outcomes_auto_multihop:
  assumes wg: "rq_tunnel_protocol query = TypeWireguard"
  shows "outcomes (get_wireguard_auto_multihop_config query clists parsed)
     (\<lambda>(exit, entry). exit \<in> set (relays parsed) \<and> relay_matches (exit_query query) parsed clists exit \<and>
        entry \<in> set (relays parsed) \<and> relay_matches (query\<lparr>rq_location := Any\<rparr>) parsed clists entry \<and>
        \<not> relay_eq entry exit) (\<lambda>_. True)"
  (is "outcomes _ ?P _")
proof -
  have entry: "outcomes (sel_bind (pick_random_relay_excluding entries exit) (\<lambda>picked_entry.
      sel_bind (ok_or picked_entry e) (\<lambda>entry. multihop_new entry exit))) ?P (\<lambda>_. True)"
    if "exit \<in> set (relays parsed)" "relay_matches (exit_query query) parsed clists exit"
      and "\<forall>r \<in> set entries. r \<in> set (relays parsed) \<and> relay_matches (query\<lparr>rq_location := Any\<rparr>) parsed clists r"
    for entries exit e
    by (rule outcomes_bind [where Q = "\<lambda>x. \<forall>r. x = Some r \<longrightarrow> r \<in> set entries \<and> \<not> relay_eq r exit"],
        auto intro!: outcomes_pick_excluding)
      (use that wg in \<open>auto intro!: outcomes_bind [where Q = "\<lambda>r. r \<in> set entries \<and> \<not> relay_eq r exit"]
        outcomes_ok_or outcomes_multihop_new intro: matches_wireguard\<close>)
  have closest: "outcomes (sel_bind (closest_relays all origin) (\<lambda>entries.
      sel_bind (pick_random_relay_excluding entries exit) (\<lambda>picked_entry.
      sel_bind (ok_or picked_entry e) (\<lambda>entry. multihop_new entry exit)))) ?P (\<lambda>_. True)"
    if "exit \<in> set (relays parsed)" "relay_matches (exit_query query) parsed clists exit"
      and "\<forall>r \<in> set all. r \<in> set (relays parsed) \<and> relay_matches (query\<lparr>rq_location := Any\<rparr>) parsed clists r"
    for all origin exit e
    by (rule outcomes_bind [OF outcomes_closest], rule entry) (use that in auto)
  have after_exit: "outcomes (sel_bind (lift_result (set_location Any query)) (\<lambda>entry_query.
     sel_bind (filter_matching_relay_list entry_query parsed clists) (\<lambda>all_entry_candidates.
     sel_bind (closest_relays all_entry_candidates (coordinates_of (rl_location exit))) (\<lambda>entry_candidates.
     sel_bind (pick_random_relay_excluding entry_candidates exit) (\<lambda>picked_entry.
     sel_bind (ok_or picked_entry (NoRelay entry_query)) (\<lambda>entry.
     multihop_new entry exit)))))) ?P (\<lambda>_. True)"
    if "exit \<in> set (relays parsed)" "relay_matches (exit_query query) parsed clists exit" for exit
    using that by (simp add: wireguard_valid wg) (auto intro!: outcomes_bind [OF outcomes_matching] closest)
  show ?thesis
    unfolding get_wireguard_auto_multihop_config_def exit_query_ok [OF wg] lift_result_simps sel_bind_simps
    by (rule outcomes_bind [OF outcomes_matching],
        rule outcomes_bind [where Q = "\<lambda>x. \<forall>r. x = Some r \<longrightarrow> r \<in> set (relays parsed) \<and>
          relay_matches (exit_query query) parsed clists r"])
      (auto intro!: outcomes_pick outcomes_ok_or after_exit
        outcomes_bind [where Q = "\<lambda>r. r \<in> set (relays parsed) \<and> relay_matches (exit_query query) parsed clists r"])
qed


text \<open>
  A working pair has two different relays. With unique hostnames the choice fails only when
  there is no working pair.
\<close>

definition working_pair :: "relay list \<Rightarrow> relay list \<Rightarrow> relay \<times> relay \<Rightarrow> bool" where
  "working_pair exits entries p \<longleftrightarrow>
     fst p \<in> set exits \<and> snd p \<in> set entries \<and> \<not> relay_eq (snd p) (fst p)"

definition no_working_pair :: "relay list \<Rightarrow> relay list \<Rightarrow> bool" where
  "no_working_pair exits entries \<longleftrightarrow> (\<forall>p. \<not> working_pair exits entries p)"

lemma relay_eq_sym: "relay_eq a b \<longleftrightarrow> relay_eq b a"
  by (auto simp: relay_eq_def)

lemma all_same_hostname:
  assumes "hostnames_distinct rs" and "\<forall>r \<in> set rs. relay_eq r x"
  shows "length rs \<le> 1"
proof (rule ccontr)
  assume "\<not> length rs \<le> 1"
  then obtain a b cs where "rs = a # b # cs"
    by (metis One_nat_def impossible_Cons le_numeral_extra(4) length_Cons list.exhaust list.size(3) zero_le)
  with assms show False by (simp add: hostnames_distinct_def relay_eq_def)
qed

lemma outcomes_pick_combo:
  "outcomes (pick_working_entry_exit_combo exits entries)
     (\<lambda>x. case x of
        Some p \<Rightarrow> working_pair exits entries p
      | None \<Rightarrow> hostnames_distinct exits \<and> hostnames_distinct entries \<longrightarrow> no_working_pair exits entries) E"
  (is "outcomes _ ?P _")
proof -
  consider (entry) "length entries = 1" "relay_contains exits (hd entries)"
    | (exit) "\<not> (length entries = 1 \<and> relay_contains exits (hd entries))"
        "length exits = 1" "relay_contains entries (hd exits)"
    | (free) "\<not> (length entries = 1 \<and> relay_contains exits (hd entries))"
        "\<not> (length exits = 1 \<and> relay_contains entries (hd exits))"
    by blast
  then show ?thesis
  proof cases
    case entry
    then obtain e where e: "entries = [e]" by (cases entries) auto
    have "outcomes (sel_bind (pick_random_relay_excluding exits e) (\<lambda>exit.
        ok (map_option (\<lambda>exit. (exit, e)) exit))) ?P E"
      by (rule outcomes_bind [where Q = "\<lambda>x. case x of None \<Rightarrow> \<forall>r \<in> set exits. relay_eq r e
            | Some r \<Rightarrow> r \<in> set exits \<and> \<not> relay_eq r e"])
        (auto simp: e working_pair_def no_working_pair_def relay_eq_sym [of e]
          intro!: outcomes_pick_excluding outcomes_ok split: option.splits)
    with entry show ?thesis
      by (simp add: pick_working_entry_exit_combo_def e)
  next
    case exit
    then obtain x where x: "exits = [x]" by (cases exits) auto
    have "outcomes (sel_bind (pick_random_relay_excluding entries x) (\<lambda>entry.
        ok (map_option (\<lambda>entry. (x, entry)) entry))) ?P E"
      by (rule outcomes_bind [where Q = "\<lambda>y. case y of None \<Rightarrow> \<forall>r \<in> set entries. relay_eq r x
            | Some r \<Rightarrow> r \<in> set entries \<and> \<not> relay_eq r x"])
        (auto simp: x working_pair_def no_working_pair_def
          intro!: outcomes_pick_excluding outcomes_ok split: option.splits)
    with exit show ?thesis
      by (auto simp: pick_working_entry_exit_combo_def x)
  next
    case free
    have none: "no_working_pair exits entries"
      if "x \<in> set exits" and same: "\<forall>r \<in> set entries. relay_eq r x" and "hostnames_distinct entries" for x
    proof (cases "entries = []")
      case True
      then show ?thesis by (simp add: no_working_pair_def working_pair_def)
    next
      case False
      then have len: "length entries = 1"
        using all_same_hostname [OF that(3) same] by (cases entries) auto
      moreover have "relay_contains exits (hd entries)"
        using that(1) same False by (meson hd_in_set relay_contains_def relay_eq_sym)
      ultimately show ?thesis using free by blast
    qed
    have picked: "outcomes (sel_bind (pick_random_relay_excluding entries x) (\<lambda>entry.
        ok (map_option (\<lambda>entry. (x, entry)) entry))) ?P E" if "x \<in> set exits" for x
      by (rule outcomes_bind [where Q = "\<lambda>y. case y of None \<Rightarrow> \<forall>r \<in> set entries. relay_eq r x
            | Some r \<Rightarrow> r \<in> set entries \<and> \<not> relay_eq r x"])
        (use that none in \<open>auto simp: working_pair_def
          intro!: outcomes_pick_excluding outcomes_ok split: option.splits\<close>)
    have "outcomes (sel_bind (pick_random_relay exits) (\<lambda>picked. case picked of
        None \<Rightarrow> ok None
      | Some exit \<Rightarrow> sel_bind (pick_random_relay_excluding entries exit) (\<lambda>entry.
           ok (map_option (\<lambda>entry. (exit, entry)) entry)))) ?P E"
    proof (rule outcomes_bind [where Q = "\<lambda>y. case y of None \<Rightarrow> exits = [] | Some r \<Rightarrow> r \<in> set exits"])
      show "outcomes (pick_random_relay exits)
          (\<lambda>y. case y of None \<Rightarrow> exits = [] | Some r \<Rightarrow> r \<in> set exits) E"
        by (rule outcomes_pick) auto
    next
      fix y
      assume y: "case y of None \<Rightarrow> exits = [] | Some r \<Rightarrow> r \<in> set exits"
      show "outcomes (case y of None \<Rightarrow> ok None
        | Some exit \<Rightarrow> sel_bind (pick_random_relay_excluding entries exit) (\<lambda>entry.
           ok (map_option (\<lambda>entry. (exit, entry)) entry))) ?P E"
      proof (cases y)
        case None
        with y show ?thesis
          by (auto simp: no_working_pair_def working_pair_def intro!: outcomes_ok)
      next
        case (Some x)
        with y picked [of x] show ?thesis by simp
      qed
    qed
    with free show ?thesis
      unfolding pick_working_entry_exit_combo_def by (simp only: if_False)
  qed
qed

lemma outcomes_multihop:
  assumes wg: "rq_tunnel_protocol query = TypeWireguard"
  shows "outcomes (get_wireguard_multihop_config query clists parsed)
     (\<lambda>(exit, entry). exit \<in> set (relays parsed) \<and> relay_matches (exit_query query) parsed clists exit \<and>
        entry \<in> set (relays parsed) \<and>
        relay_matches (query\<lparr>rq_location := wq_entry_location (rq_wireguard_constraints query)\<rparr>) parsed clists entry \<and>
        \<not> relay_eq entry exit) (\<lambda>_. True)"
  (is "outcomes _ ?P _")
proof -
  let ?entry = "query\<lparr>rq_location := wq_entry_location (rq_wireguard_constraints query)\<rparr>"
  let ?fits = "\<lambda>q rs. \<forall>r \<in> set rs. r \<in> set (relays parsed) \<and> relay_matches q parsed clists r"
  have new: "outcomes (multihop_new (snd p) (fst p)) ?P (\<lambda>_. True)"
    if "working_pair exits entries p" and "?fits (exit_query query) exits" and "?fits ?entry entries"
    for p exits entries
    using that wg by (auto simp: working_pair_def intro!: outcomes_multihop_new intro: matches_wireguard)
  have fallback: "outcomes (sel_bind (pick_working_entry_exit_combo
             (filter_matching_relay_list_include_all (exit_query query) parsed clists)
             (filter_matching_relay_list_include_all ?entry parsed clists)) (\<lambda>combo'.
         sel_bind (ok_or combo' e) (\<lambda>(exit, entry). multihop_new entry exit))) ?P (\<lambda>_. True)" for e
    by (rule outcomes_bind [OF outcomes_pick_combo])
      (auto simp: include_all_eq case_prod_beta intro!: outcomes_err new split: option.splits)
  have combo: "outcomes (sel_bind (pick_working_entry_exit_combo exits entries) (\<lambda>combo. case combo of
       Some (exit, entry) \<Rightarrow> multihop_new entry exit
     | None \<Rightarrow> sel_bind (pick_working_entry_exit_combo
             (filter_matching_relay_list_include_all (exit_query query) parsed clists)
             (filter_matching_relay_list_include_all ?entry parsed clists)) (\<lambda>combo'.
         sel_bind (ok_or combo' (NoRelay query)) (\<lambda>(exit, entry). multihop_new entry exit)))) ?P (\<lambda>_. True)"
    if "?fits (exit_query query) exits" and "?fits ?entry entries" for exits entries
    by (rule outcomes_bind [OF outcomes_pick_combo], rule outcomes_option, rule fallback)
      (use new [OF _ that] in \<open>simp add: case_prod_beta\<close>)
  show ?thesis
    unfolding get_wireguard_multihop_config_def
    by (simp add: wireguard_valid wg exit_query_ok)
      (auto intro!: outcomes_bind [OF outcomes_matching] combo)
qed


lemma outcomes_relay_config:
  assumes wg: "rq_tunnel_protocol query = TypeWireguard"
  shows "outcomes (get_wireguard_relay_config query clists parsed) (config_ok query parsed clists) (\<lambda>_. True)"
proof -
  let ?auto = "using_daita query \<and> use_multihop_if_necessary query"
  have auto: "outcomes (sel_bind (get_wireguard_auto_multihop_config query clists parsed) (\<lambda>p. ok (multihop_config p)))
      (config_ok query parsed clists) (\<lambda>_. True)" if ?auto
    by (rule outcomes_bind [OF outcomes_auto_multihop [OF wg]])
      (use that in \<open>auto simp: multihop_config_def entry_query_def intro!: outcomes_ok\<close>)
  have plain: "outcomes (sel_bind (get_wireguard_multihop_config query clists parsed) (\<lambda>p. ok (multihop_config p)))
      (config_ok query parsed clists) (\<lambda>_. True)" if "\<not> ?auto" and "\<not> singlehop query"
    by (rule outcomes_bind [OF outcomes_multihop [OF wg]])
      (use that in \<open>auto simp: multihop_config_def entry_query_def intro!: outcomes_ok\<close>)
  have single: "outcomes (sel_bind (get_wireguard_singlehop_config query clists parsed) (\<lambda>exit. case exit of
        Some exit \<Rightarrow> ok (Singlehop exit)
      | None \<Rightarrow> if ?auto then sel_bind (get_wireguard_auto_multihop_config query clists parsed)
           (\<lambda>p. ok (multihop_config p)) else err (NoRelay query)))
      (config_ok query parsed clists) (\<lambda>_. True)" if "singlehop query"
    by (rule outcomes_bind [OF outcomes_singlehop [OF wg]], rule outcomes_option)
      (use that auto in \<open>auto intro!: outcomes_ok outcomes_err\<close>)
  show ?thesis
    using single auto plain
    by (cases "singlehop query"; cases "using_daita query"; cases "use_multihop_if_necessary query")
      (simp_all add: get_wireguard_relay_config_def)
qed

lemma config_obfuscator_relay:
  assumes "config_ok query parsed clists config" and "rq_tunnel_protocol query = TypeWireguard"
  shows "filter_wireguard (obfuscator_relay_of config)"
    and "filter_on_obfuscation (rq_wireguard_constraints query) parsed (obfuscator_relay_of config)"
  using assms
  by (cases config; auto simp: relay_matches_def filter_tunnel_type_def entry_query_def)+

lemma filter_wireguard_iff: "filter_wireguard r \<longleftrightarrow> (\<exists>data. relay_wireguard r = Some data)"
  by (auto simp: filter_wireguard_def relay_wireguard_def split: relay_endpoint_data.splits)

lemma lwo_obfuscator:
  assumes "filter_wireguard r" and "filter_on_obfuscation query parsed r" and "wq_obfuscation query = ObfLwo"
    and "address_of query r (sa_ip (pc_endpoint (me_peer e)))"
  shows "\<exists>addr. get_lwo_obfuscator r e = Some (CfgLwo addr, r)"
proof -
  obtain data where "relay_wireguard r = Some data"
    using assms(1) by (auto simp: filter_wireguard_iff)
  with assms(2-4) show ?thesis
    by (auto simp: get_lwo_obfuscator_def filter_on_obfuscation_def address_of_def split: ip_version.splits)
qed

lemma endpoint_address:
  "endpoint_ok query data config e \<Longrightarrow>
     address_of query (obfuscator_relay_of config) (sa_ip (pc_endpoint (me_peer e)))"
  by (cases config) (auto simp: peer_ok_def)

lemma outcomes_obfuscator:
  assumes config: "config_ok query parsed clists config" and wg: "rq_tunnel_protocol query = TypeWireguard"
    and e: "endpoint_ok (rq_wireguard_constraints query) (rs_wireguard parsed) config e"
  shows "outcomes (get_wireguard_obfuscator staggered query config e parsed) (obfuscator_ok query config) (\<lambda>_. True)"
proof -
  note relay = config_obfuscator_relay [OF config wg]
  show ?thesis
  proof (cases "wq_obfuscation (rq_wireguard_constraints query)")
    case ObfOff
    then show ?thesis by (simp add: get_wireguard_obfuscator_def obfuscator_ok_def outcomes_ok)
  next
    case ObfAuto
    have "outcomes (map_err NoObfuscator (sel_bind (get_multiplexer_obfuscator ports ranges
        (obfuscator_relay_of config) e) (\<lambda>obfs. ok (Some obfs)))) (obfuscator_ok query config) (\<lambda>_. True)" for ports ranges
      by (rule outcomes_map_err, rule outcomes_bind [OF outcomes_multiplexer [OF relay(1)]])
        (simp add: ObfAuto obfuscator_ok_def outcomes_ok)
    with ObfAuto show ?thesis
      by (simp add: get_wireguard_obfuscator_def Let_def obfuscator_ok_def outcomes_ok)
  next
    case (ObfUdp2tcp settings)
    have "outcomes (map_err NoObfuscator (sel_bind (get_udp2tcp_obfuscator settings ports
        (obfuscator_relay_of config) e) (\<lambda>obfs. ok (Some (single_obfuscator obfs)))))
        (obfuscator_ok query config) (\<lambda>_. True)" for ports
      by (rule outcomes_map_err, rule outcomes_bind [OF outcomes_udp2tcp])
        (auto simp: ObfUdp2tcp obfuscator_ok_def single_obfuscator_def intro!: outcomes_ok)
    with ObfUdp2tcp show ?thesis by (simp add: get_wireguard_obfuscator_def Let_def)
  next
    case (ObfShadowsocks settings)
    have "outcomes (map_err NoObfuscator (sel_bind (get_shadowsocks_obfuscator settings ranges
        (obfuscator_relay_of config) e) (\<lambda>obfs. ok (Some (single_obfuscator obfs)))))
        (obfuscator_ok query config) (\<lambda>_. True)" for ranges
      by (rule outcomes_map_err, rule outcomes_bind [OF outcomes_shadowsocks [OF relay(1)]])
        (auto simp: ObfShadowsocks obfuscator_ok_def single_obfuscator_def intro!: outcomes_ok)
    with ObfShadowsocks show ?thesis by (simp add: get_wireguard_obfuscator_def Let_def)
  next
    case ObfQuic
    have "outcomes (sel_bind (get_quic_obfuscator (obfuscator_relay_of config)
        (resolve_ip_version (wq_ip_version (rq_wireguard_constraints query))))
        (\<lambda>obfs. ok (map_option single_obfuscator obfs))) (obfuscator_ok query config) (\<lambda>_. True)"
      by (rule outcomes_bind [OF outcomes_quic], rule outcomes_ok)
        (auto simp: ObfQuic obfuscator_ok_def single_obfuscator_def split: option.splits)
    with ObfQuic show ?thesis by (simp add: get_wireguard_obfuscator_def Let_def)
  next
    case ObfLwo
    then show ?thesis
      using lwo_obfuscator [OF relay ObfLwo endpoint_address [OF e]]
      by (auto simp: get_wireguard_obfuscator_def Let_def obfuscator_ok_def single_obfuscator_def intro!: outcomes_ok)
  qed
qed

lemma outcomes_wireguard_relay:
  assumes wg: "rq_tunnel_protocol query = TypeWireguard"
  shows "outcomes (get_wireguard_relay_inner staggered query clists parsed) (result_ok query parsed clists) (\<lambda>_. True)"
proof -
  have e: "outcomes (get_wireguard_endpoint query parsed config)
      (endpoint_ok (rq_wireguard_constraints query) (rs_wireguard parsed) config) (\<lambda>_. True)" for config
    unfolding get_wireguard_endpoint_def by (rule outcomes_map_err, rule outcomes_wireguard_endpoint)
  have rest: "outcomes (sel_bind (get_wireguard_endpoint query parsed config) (\<lambda>e.
      sel_bind (get_wireguard_obfuscator staggered query config e parsed) (\<lambda>obfuscator.
      ok (GetWireguard e obfuscator config)))) (result_ok query parsed clists) (\<lambda>_. True)"
    if config: "config_ok query parsed clists config" for config
    by (rule outcomes_bind [OF e], rule outcomes_bind [OF outcomes_obfuscator [OF config wg]])
      (simp_all add: config wg outcomes_ok)
  show ?thesis
    unfolding get_wireguard_relay_inner_def
    by (rule outcomes_bind [where Q = "\<lambda>_. True"], simp add: wg outcomes_assert,
        rule outcomes_bind [OF outcomes_relay_config [OF wg]], rule rest)
qed

section \<open>OpenVPN and bridges\<close>

lemma outcomes_proximate_bridge:
  "outcomes (get_proximate_bridge rs origin) (\<lambda>r. r \<in> set rs) (\<lambda>_. True)"
  unfolding get_proximate_bridge_def
proof (rule outcomes_bind [OF outcomes_sort_unstable
      [where P = "\<lambda>ys. set ys = set (map (\<lambda>r. new_with_distance_from r origin) rs)"]])
  fix ys
  assume ys: "set ys = set (map (\<lambda>r. new_with_distance_from r origin) rs)"
  have mem: "\<forall>c \<in> set (take MIN_BRIDGE_COUNT ys). rd_relay c \<in> set rs"
    using ys by (auto simp: new_with_distance_from_def dest!: in_set_takeD)
  have pick: "outcomes (sel_bind (pick_random_relay_weighted bs weight)
      (\<lambda>picked. ok_or (map_option rd_relay picked) NoBridge)) (\<lambda>r. r \<in> set rs) (\<lambda>_. True)"
    if "\<forall>c \<in> set bs. rd_relay c \<in> set rs" for bs weight
    using that by (intro outcomes_bind [where Q = "\<lambda>x. \<forall>c. x = Some c \<longrightarrow> rd_relay c \<in> set rs"]
        outcomes_pick_weighted outcomes_ok_or) auto
  show "outcomes (let matching_bridges = take MIN_BRIDGE_COUNT ys
     in case matching_bridges of
          [] \<Rightarrow> err NoBridge
        | _ \<Rightarrow>
            let greatest_distance = Max (rd_distance ` set matching_bridges);
                weight_fn = (\<lambda>r. 1 + word_of_nat (nat \<lfloor>greatest_distance - rd_distance r\<rfloor>))
            in sel_bind (pick_random_relay_weighted matching_bridges weight_fn) (\<lambda>picked.
               ok_or (map_option rd_relay picked) NoBridge)) (\<lambda>r. r \<in> set rs) (\<lambda>_. True)"
    using mem by (auto simp: Let_def outcomes_err split: list.split intro!: pick)
qed (metis mset_eq_setD)

definition bridge_matches :: "internal_bridge_constraints \<Rightarrow> custom_lists \<Rightarrow> relay \<Rightarrow> bool" where
  "bridge_matches c clists r \<longleftrightarrow>
     rl_active r \<and> filter_bridge r \<and>
     filter_on_location (resolve_location (ib_location c) clists) r \<and>
     filter_on_ownership (ib_ownership c) r \<and> filter_on_providers (ib_providers c) r"

lemma filter_matching_bridges_eq:
  "filter_matching_bridges c rs clists = filter (bridge_matches c clists) rs"
  by (simp add: filter_matching_bridges_def bridge_matches_def [abs_def] filter_on_active_def conj_ac Let_def)

lemma outcomes_bridge_endpoint: "outcomes (bridge_endpoint data r) (\<lambda>_. True) E"
  by (auto simp: bridge_endpoint_def intro!: outcomes_ok outcomes_bind [where Q = "\<lambda>_. True"] outcomes_choose)

lemma outcomes_proxy_settings:
  "outcomes (get_proxy_settings parsed c location clists)
     (\<lambda>p. snd p \<in> set (relays parsed) \<and> bridge_matches c clists (snd p)) (\<lambda>_. True)"
proof -
  let ?bridges = "filter_matching_bridges c (relays parsed) clists"
  have pick: "outcomes (case location of
        Some origin \<Rightarrow> get_proximate_bridge ?bridges origin
      | None \<Rightarrow> sel_bind (pick_random_relay ?bridges) (\<lambda>picked. ok_or picked NoBridge))
      (\<lambda>r. r \<in> set ?bridges) (\<lambda>_. True)"
    by (rule outcomes_option)
      (auto intro!: outcomes_proximate_bridge outcomes_pick outcomes_ok_or
        outcomes_bind [where Q = "\<lambda>x. \<forall>r. x = Some r \<longrightarrow> r \<in> set ?bridges"])
  show ?thesis
    unfolding get_proxy_settings_def Let_def
    by (rule outcomes_bind [OF pick], rule outcomes_bind [OF outcomes_bridge_endpoint])
      (auto simp: filter_matching_bridges_eq intro!: outcomes_ok outcomes_ok_or
        outcomes_bind [where Q = "\<lambda>_. True"])
qed

lemma outcomes_openvpn_bridge:
  "outcomes (get_openvpn_bridge query r protocol parsed clists)
     (\<lambda>b. bridge_ok query parsed clists b \<and> (b \<noteq> None \<longrightarrow> protocol = Tcp)) (\<lambda>_. True)"
proof (cases protocol)
  case Udp
  then show ?thesis
    by (cases "oq_bridge_settings (rq_openvpn_constraints query)")
      (simp_all add: get_openvpn_bridge_def bridge_ok_def outcomes_ok outcomes_err)
next
  case Tcp
  show ?thesis
  proof (cases "oq_bridge_settings (rq_openvpn_constraints query)")
    case (BridgeNormalQuery settings)
    let ?c = "\<lparr>ib_location = bc_location settings, ib_providers = bc_providers settings,
      ib_ownership = bc_ownership settings, ib_transport_protocol = Only Tcp\<rparr>"
    have "outcomes (sel_bind (get_proxy_settings parsed ?c location clists)
        (\<lambda>(settings, r). ok (Some (SelectedNormalBridge settings r))))
        (\<lambda>b. bridge_ok query parsed clists b) (\<lambda>_. True)" for location
      by (rule outcomes_bind [OF outcomes_proxy_settings])
        (auto simp: bridge_ok_def BridgeNormalQuery bridge_matches_def intro!: outcomes_ok)
    then show ?thesis
      by (simp add: get_openvpn_bridge_def get_bridge_for_def BridgeNormalQuery Tcp)
  qed (simp_all add: get_openvpn_bridge_def get_bridge_for_def bridge_ok_def outcomes_ok Tcp)
qed

lemma outcomes_openvpn_relay:
  assumes ov: "rq_tunnel_protocol query = TypeOpenVpn"
  shows "outcomes (get_openvpn_relay query clists parsed) (result_ok query parsed clists) (\<lambda>_. True)"
proof -
  have exit: "outcomes (choose_openvpn_relay query clists parsed)
      (\<lambda>x. \<forall>r. x = Some r \<longrightarrow> r \<in> set (relays parsed) \<and> relay_matches query parsed clists r) E" for E
    unfolding choose_openvpn_relay_def
    by (rule outcomes_bind [OF outcomes_matching]) (auto intro!: outcomes_pick)
  have e: "outcomes (get_openvpn_endpoint query r parsed)
     (\<lambda>e. \<exists>p \<in> set (rs_openvpn_ports parsed).
        compatible_openvpn_port_combo (oq_port (rq_openvpn_constraints query)) p \<and>
        e = endpoint_new (V4 (rl_ipv4_addr_in r)) (ove_port p) (ove_protocol p)) (\<lambda>_. True)" for r
    unfolding get_openvpn_endpoint_def
    by (rule outcomes_map_err, rule outcomes_mono [OF outcomes_openvpn_endpoint]) auto
  have rest: "outcomes (sel_bind (get_openvpn_endpoint query exit parsed) (\<lambda>e.
     sel_bind (get_openvpn_bridge query exit (ep_protocol e) parsed clists) (\<lambda>bridge.
     sel_bind (sel_assert (filter_openvpn exit)) (\<lambda>_.
     ok (GetOpenVpn e exit bridge))))) (result_ok query parsed clists) (\<lambda>_. True)"
    if "exit \<in> set (relays parsed)" and "relay_matches query parsed clists exit" for exit
  proof (rule outcomes_bind [OF e], rule outcomes_bind [OF outcomes_openvpn_bridge],
      rule outcomes_bind [where Q = "\<lambda>_. True"])
    show "outcomes (sel_assert (filter_openvpn exit)) (\<lambda>_. True) (\<lambda>_. True)"
      using that ov by (auto simp: relay_matches_def filter_tunnel_type_def intro!: outcomes_assert)
  qed (use that ov in \<open>auto intro!: outcomes_ok\<close>)
  show ?thesis
    unfolding get_openvpn_relay_def
    by (rule outcomes_bind [where Q = "\<lambda>_. True"], simp add: ov outcomes_assert,
        rule outcomes_bind [OF exit],
        rule outcomes_bind [where Q = "\<lambda>r. r \<in> set (relays parsed) \<and> relay_matches query parsed clists r"])
      (auto intro!: outcomes_ok_or rest)
qed

lemma outcomes_relay_inner:
  "outcomes (get_relay_inner staggered query parsed clists) (result_ok query parsed clists) (\<lambda>_. True)"
  by (cases "rq_tunnel_protocol query")
    (simp_all add: get_relay_inner_def outcomes_wireguard_relay outcomes_openvpn_relay)

end
