(* ===== verification/Relay_Retries.thy ===== *)
theory Relay_Retries
  imports Relay_Selection
begin

text \<open>
  From the user's settings to a relay: merging the user's query with the entries of a retry order,
  the connectivity of the host, and the walk through the retry order. \<open>honours\<close> states that one
  query keeps every explicit wish of another.
\<close>

section \<open>Keeping the user's wishes\<close>

definition keeps :: "'a constraint \<Rightarrow> 'a constraint \<Rightarrow> bool" where
  "keeps wish c \<longleftrightarrow> wish = Any \<or> c = wish"

definition keeps_port :: "transport_port constraint \<Rightarrow> transport_port constraint \<Rightarrow> bool" where
  "keeps_port wish c \<longleftrightarrow>
     (case wish of
        Any \<Rightarrow> True
      | Only w \<Rightarrow> \<exists>p. c = Only p \<and> tp_protocol p = tp_protocol w \<and> keeps (tp_port w) (tp_port p))"

definition wireguard_honours :: "wireguard_relay_query \<Rightarrow> wireguard_relay_query \<Rightarrow> bool" where
  "wireguard_honours wish q \<longleftrightarrow>
     keeps (wq_port wish) (wq_port q) \<and> keeps (wq_ip_version wish) (wq_ip_version q) \<and>
     keeps (wq_allowed_ips wish) (wq_allowed_ips q) \<and>
     keeps (wq_use_multihop wish) (wq_use_multihop q) \<and>
     keeps (wq_entry_location wish) (wq_entry_location q) \<and>
     (wq_obfuscation wish = ObfAuto \<or> wq_obfuscation q = wq_obfuscation wish) \<and>
     keeps (wq_daita wish) (wq_daita q) \<and>
     keeps (wq_daita_use_multihop_if_necessary wish) (wq_daita_use_multihop_if_necessary q) \<and>
     (wq_quantum_resistant wish = QrAuto \<or> wq_quantum_resistant q = wq_quantum_resistant wish)"

definition openvpn_honours :: "openvpn_relay_query \<Rightarrow> openvpn_relay_query \<Rightarrow> bool" where
  "openvpn_honours wish q \<longleftrightarrow>
     keeps_port (oq_port wish) (oq_port q) \<and>
     (oq_bridge_settings wish = BridgeAuto \<and> (\<forall>proxy. oq_bridge_settings q \<noteq> BridgeCustomQuery proxy) \<or>
      oq_bridge_settings q = oq_bridge_settings wish)"

definition honours :: "relay_query \<Rightarrow> relay_query \<Rightarrow> bool" where
  "honours wish q \<longleftrightarrow>
     keeps (rq_location wish) (rq_location q) \<and> keeps (rq_providers wish) (rq_providers q) \<and>
     keeps (rq_ownership wish) (rq_ownership q) \<and> rq_tunnel_protocol q = rq_tunnel_protocol wish \<and>
     wireguard_honours (rq_wireguard_constraints wish) (rq_wireguard_constraints q) \<and>
     openvpn_honours (rq_openvpn_constraints wish) (rq_openvpn_constraints q)"

lemma keeps_refl [simp]: "keeps c c"
  by (simp add: keeps_def)

lemma keeps_trans: "keeps a b \<Longrightarrow> keeps b c \<Longrightarrow> keeps a c"
  by (auto simp: keeps_def)

lemma keeps_port_refl [simp]: "keeps_port c c"
  by (cases c) (auto simp: keeps_port_def)

lemma keeps_port_trans: "keeps_port a b \<Longrightarrow> keeps_port b c \<Longrightarrow> keeps_port a c"
  by (cases a; cases b) (auto simp: keeps_port_def intro: keeps_trans)

lemma honours_refl [simp]: "honours q q"
  by (simp add: honours_def wireguard_honours_def openvpn_honours_def)

lemma wireguard_honours_trans:
  "wireguard_honours a b \<Longrightarrow> wireguard_honours b c \<Longrightarrow> wireguard_honours a c"
  unfolding wireguard_honours_def by (elim conjE, intro conjI) (erule (1) keeps_trans | fastforce)+

lemma openvpn_honours_trans:
  "openvpn_honours a b \<Longrightarrow> openvpn_honours b c \<Longrightarrow> openvpn_honours a c"
  unfolding openvpn_honours_def by (elim conjE, intro conjI) (erule (1) keeps_port_trans | metis)+

lemma honours_trans: "honours a b \<Longrightarrow> honours b c \<Longrightarrow> honours a c"
  unfolding honours_def
  by (elim conjE, intro conjI)
    (erule (1) keeps_trans | erule (1) wireguard_honours_trans | erule (1) openvpn_honours_trans | simp)+

text \<open>
  What the entries of the retry orders have in common: they never ask for obfuscation to be off,
  nor for particular ports of an obfuscator or particular bridges.
\<close>

definition undemanding :: "relay_query \<Rightarrow> bool" where
  "undemanding q \<longleftrightarrow>
     (wq_obfuscation (rq_wireguard_constraints q)
        \<in> {ObfAuto, ObfUdp2tcp \<lparr>u2t_port = Any\<rparr>, ObfShadowsocks \<lparr>sss_port = Any\<rparr>, ObfQuic, ObfLwo}) \<and>
     (oq_bridge_settings (rq_openvpn_constraints q)
        \<in> {BridgeAuto, BridgeNormalQuery bridge_constraints_default})"

lemma retry_orders_undemanding:
  "\<forall>q \<in> set WIREGUARD_RETRY_ORDER \<union> set OPENVPN_RETRY_ORDER. undemanding q"
  by (simp add: WIREGUARD_RETRY_ORDER_def OPENVPN_RETRY_ORDER_def builder_defs query_default_defs undemanding_def
      Let_def bridge_constraints_default_def)

lemma keeps_intersection: "only_if_equal a b = Some c \<Longrightarrow> keeps b c"
  by (auto simp: only_if_equal_Some keeps_def)

lemma keeps_port_intersection:
  assumes "constraint_intersection transport_port_intersection a b = Some c"
  shows "keeps_port b c"
proof (cases a; cases b)
  fix x y
  assume a: "a = Only x" and b: "b = Only y"
  with assms obtain p where p: "transport_port_intersection x y = Some p" and c: "c = Only p" by auto
  from p have "tp_protocol p = tp_protocol y" and "keeps (tp_port y) (tp_port p)"
    by (auto simp: transport_port_intersection_def intersection_partialeq_def bind_eq_Some_conv
        dest!: keeps_intersection split: if_splits)
  with c b show ?thesis by (simp add: keeps_port_def)
qed (use assms in \<open>auto simp: keeps_port_def\<close>)

lemma obfuscation_kept:
  assumes "obfuscation_intersection a b = Some c"
    and "a \<in> {ObfAuto, ObfUdp2tcp \<lparr>u2t_port = Any\<rparr>, ObfShadowsocks \<lparr>sss_port = Any\<rparr>, ObfQuic, ObfLwo}"
  shows "b = ObfAuto \<or> c = b"
  using assms
  by (cases b) (auto simp: udp2tcp_settings_intersection_def shadowsocks_settings_intersection_def)

lemma quantum_kept: "quantum_intersection a b = Some c \<Longrightarrow> b = QrAuto \<or> c = b"
  by (cases a; cases b) auto

lemma bridge_kept:
  assumes "bridge_intersection a b = Some c" and "a \<in> {BridgeAuto, BridgeNormalQuery bridge_constraints_default}"
  shows "b = BridgeAuto \<and> (\<forall>proxy. c \<noteq> BridgeCustomQuery proxy) \<or> c = b"
  using assms
  by (cases b) (auto simp: bridge_constraints_intersection_def bridge_constraints_default_def)

lemma intersection_honours:
  assumes "query_intersection q wish = Some m" and "undemanding q"
  shows "honours wish m"
proof -
  obtain w ov where w: "wireguard_query_intersection (rq_wireguard_constraints q) (rq_wireguard_constraints wish) = Some w"
    and ov: "openvpn_query_intersection (rq_openvpn_constraints q) (rq_openvpn_constraints wish) = Some ov"
    and m: "rq_wireguard_constraints m = w" "rq_openvpn_constraints m = ov"
      "rq_tunnel_protocol m = rq_tunnel_protocol wish"
      "keeps (rq_location wish) (rq_location m)" "keeps (rq_providers wish) (rq_providers m)"
      "keeps (rq_ownership wish) (rq_ownership m)"
    using assms(1)
    by (auto simp: query_intersection_def bind_eq_Some_conv intersection_partialeq_def
        dest!: keeps_intersection split: if_splits)
  have "wireguard_honours (rq_wireguard_constraints wish) w"
    using w assms(2)
    by (auto simp: wireguard_query_intersection_def wireguard_honours_def undemanding_def bind_eq_Some_conv
        dest!: keeps_intersection obfuscation_kept quantum_kept)
  moreover have "openvpn_honours (rq_openvpn_constraints wish) ov"
    using ov assms(2)
    by (auto simp: openvpn_query_intersection_def openvpn_honours_def undemanding_def bind_eq_Some_conv
        dest!: keeps_port_intersection bridge_kept)
  ultimately show ?thesis
    by (simp add: honours_def m)
qed

section \<open>The connectivity of the host\<close>

lemma intersection_ip_version:
  "wireguard_query_intersection w (wireguard_relay_query_new\<lparr>wq_ip_version := c\<rparr>) =
     map_option (\<lambda>v. w\<lparr>wq_ip_version := v\<rparr>) (only_if_equal (wq_ip_version w) c)"
  by (cases "only_if_equal (wq_ip_version w) c")
    (simp_all add: wireguard_query_intersection_def wireguard_relay_query_new_def
      quantum.commute [of "wq_quantum_resistant w"] quantum.unit)

lemma apply_ip_availability_eq:
  assumes "query_valid q"
  shows "apply_ip_availability avail q =
    (if rq_tunnel_protocol q = TypeOpenVpn then ok q
     else case (wq_ip_version (rq_wireguard_constraints q), ip_version_constraint avail) of
       (Only v, Only v') \<Rightarrow> if v = v' then ok q else err (SelectorIpVersionUnavailable v)
     | (Any, c) \<Rightarrow> ok (map_wireguard (\<lambda>w. w\<lparr>wq_ip_version := c\<rparr>) q)
     | (Only v, Any) \<Rightarrow> ok q)"
proof -
  have same: "map_wireguard (\<lambda>w. w\<lparr>wq_ip_version := v\<rparr>) q = q"
    if "wq_ip_version (rq_wireguard_constraints q) = v" for v
    using that [symmetric] by simp
  have valid: "set_wireguard_constraints ((rq_wireguard_constraints q)\<lparr>wq_ip_version := v\<rparr>) q =
      Inr (map_wireguard (\<lambda>w. w\<lparr>wq_ip_version := v\<rparr>) q)" for v
    using assms by (simp add: set_wireguard_constraints_def set_if_valid_ok query_valid_def
        core_privacy_feature_enabled_def multihop_def)
  show ?thesis
    by (cases "wq_ip_version (rq_wireguard_constraints q)"; cases "ip_version_constraint avail")
      (auto simp: apply_ip_availability_def intersection_ip_version intersection_partialeq_def expect_some_def
        same valid)
qed

lemma outcomes_ip_availability:
  assumes "query_valid q"
  shows "outcomes (apply_ip_availability avail q) (\<lambda>q'. honours q q' \<and> query_valid q') (\<lambda>_. True)"
  unfolding apply_ip_availability_eq [OF assms]
  using assms
  by (auto simp: honours_def wireguard_honours_def openvpn_honours_def keeps_def query_valid_def
      core_privacy_feature_enabled_def multihop_def intro!: outcomes_ok outcomes_err split: constraint.split)

section \<open>Walking through the retry order\<close>

lemma outcomes_nth_cycle:
  assumes "\<And>q. q \<in> set all \<Longrightarrow> outcomes (f q) (\<lambda>x. \<forall>a. x = Some a \<longrightarrow> P q a) E"
    and "set qs \<subseteq> set all"
  shows "outcomes (nth_cycle f all qs restarted n) (\<lambda>x. \<forall>a. x = Some a \<longrightarrow> (\<exists>q \<in> set all. P q a)) E"
  using assms
proof (induction f all qs restarted n rule: nth_cycle.induct)
  case (1 f all restarted n)
  then show ?case by (auto intro!: outcomes_ok)
next
  case (2 f all q qs restarted n)
  show ?case
    unfolding nth_cycle.simps
    by (rule outcomes_bind [OF "2.prems"(1)], use "2.prems" in simp, rule outcomes_option)
      (use "2.IH" "2.prems" in \<open>auto intro!: outcomes_ok\<close>)
qed

text \<open>
  If it does not depend on chance which queries of the order lead to a relay, attempt \<open>n\<close> uses the
  \<open>n\<close>th of them, counting from the start again after the last.
\<close>

definition nth_working :: "('q \<Rightarrow> bool) \<Rightarrow> 'q list \<Rightarrow> 'q list \<Rightarrow> nat \<Rightarrow> 'q" where
  "nth_working works all qs n =
     (if n < length (filter works qs) then filter works qs ! n
      else filter works all ! ((n - length (filter works qs)) mod length (filter works all)))"

lemma nth_working_Nil: "nth_working works all all n = nth_working works all [] n"
  by (simp add: nth_working_def le_mod_geq)

lemma nth_working_Cons:
  "nth_working works all (q # qs) n =
     (if works q then if n = 0 then q else nth_working works all qs (n - 1) else nth_working works all qs n)"
  by (cases n) (auto simp: nth_working_def)

lemma outcomes_nth_cycle_works:
  assumes "\<And>q. q \<in> set all \<Longrightarrow> works q \<Longrightarrow> outcomes (f q) (\<lambda>x. \<exists>a. x = Some a \<and> P q a) E"
    and "\<And>q. q \<in> set all \<Longrightarrow> \<not> works q \<Longrightarrow> outcomes (f q) (\<lambda>x. x = None) E"
    and "set qs \<subseteq> set all" and "filter works all \<noteq> []"
    and "restarted \<longrightarrow> filter works qs = filter works all"
  shows "outcomes (nth_cycle f all qs restarted n) (\<lambda>x. \<exists>a. x = Some a \<and> P (nth_working works all qs n) a) E"
  using assms
proof (induction f all qs restarted n rule: nth_cycle.induct)
  case (1 f all restarted n)
  have restarted: "\<not> restarted" using "1.prems"(4,5) by auto
  have "outcomes (nth_cycle f all all True n) (\<lambda>x. \<exists>a. x = Some a \<and> P (nth_working works all all n) a) E"
    by (rule "1.IH") (use restarted "1.prems" in simp_all)
  with restarted show ?case by (simp add: nth_working_Nil)
next
  case (2 f all q qs restarted n)
  have q: "q \<in> set all" using "2.prems"(3) by auto
  show ?case
  proof (cases "works q")
    case False
    have "outcomes (nth_cycle f all qs restarted n)
        (\<lambda>x. \<exists>a. x = Some a \<and> P (nth_working works all qs n) a) E"
      by (rule "2.IH"(1)) (use "2.prems" False in auto)
    with False show ?thesis
      unfolding nth_cycle.simps
      by (intro outcomes_bind [OF "2.prems"(2) [OF q False]]) (simp add: nth_working_Cons)
  next
    case True
    have rest: "outcomes (nth_cycle f all qs False (n - 1))
        (\<lambda>x. \<exists>a. x = Some a \<and> P (nth_working works all qs (n - 1)) a) E" if "n \<noteq> 0"
      by (rule "2.IH"(2)) (use "2.prems" that in auto)
    show ?thesis
      unfolding nth_cycle.simps
      by (rule outcomes_bind [OF "2.prems"(1) [OF q True]])
        (use True rest in \<open>auto simp: nth_working_Cons intro!: outcomes_ok\<close>)
  qed
qed

section \<open>What the user's settings ask of a selected relay\<close>

definition acceptable :: "normal_selector_config \<Rightarrow> relay_list \<Rightarrow> location_constraint constraint \<Rightarrow> relay \<Rightarrow> bool" where
  "acceptable c parsed location r \<longleftrightarrow>
     r \<in> set (relays parsed) \<and> rl_active r \<and>
     filter_tunnel_type (rc_tunnel_protocol (ns_user_preferences c)) r \<and>
     filter_on_location (resolve_location location (ns_custom_lists c)) r \<and>
     filter_on_ownership (rc_ownership (ns_user_preferences c)) r \<and>
     filter_on_providers (rc_providers (ns_user_preferences c)) r"

definition daita_if_wanted :: "normal_selector_config \<Rightarrow> relay \<Rightarrow> bool" where
  "daita_if_wanted c r \<longleftrightarrow> filter_on_daita (Only (ad_daita (ns_additional_preferences c))) r"

definition automatic_multihop :: "normal_selector_config \<Rightarrow> bool" where
  "automatic_multihop c \<longleftrightarrow>
     ad_daita (ns_additional_preferences c) \<and> ad_daita_use_multihop_if_necessary (ns_additional_preferences c)"

fun relays_serve :: "normal_selector_config \<Rightarrow> relay_list \<Rightarrow> wireguard_config \<Rightarrow> bool" where
  "relays_serve c parsed (Singlehop exit) \<longleftrightarrow>
     \<not> wgc_use_multihop (rc_wireguard_constraints (ns_user_preferences c)) \<and>
     acceptable c parsed (rc_location (ns_user_preferences c)) exit \<and> daita_if_wanted c exit"
| "relays_serve c parsed (Multihop exit entry) \<longleftrightarrow>
     (wgc_use_multihop (rc_wireguard_constraints (ns_user_preferences c)) \<or> automatic_multihop c) \<and>
     acceptable c parsed (rc_location (ns_user_preferences c)) exit \<and>
     acceptable c parsed
       (if automatic_multihop c then Any
        else wgc_entry_location (rc_wireguard_constraints (ns_user_preferences c))) entry \<and>
     daita_if_wanted c entry \<and> rl_hostname entry \<noteq> rl_hostname exit"

text \<open>
  The port and the address family of the endpoint the host talks to. Traffic to the first hop of a
  multihop connection can only be for the exit.
\<close>

definition endpoint_serves :: "normal_selector_config \<Rightarrow> wireguard_config \<Rightarrow> mullvad_wireguard_endpoint \<Rightarrow> bool" where
  "endpoint_serves c config e \<longleftrightarrow>
     (let w = rc_wireguard_constraints (ns_user_preferences c); addr = pc_endpoint (me_peer e)
      in matches_eq (wgc_port w) (sa_port addr) \<and>
         matches_eq (wgc_ip_version w) (ip_version_of (sa_ip addr)) \<and>
         (case config of
            Singlehop exit \<Rightarrow> me_exit_peer e = None \<and> key_of exit (pc_public_key (me_peer e))
          | Multihop exit entry \<Rightarrow>
              key_of entry (pc_public_key (me_peer e)) \<and>
              pc_allowed_ips (me_peer e) = [NetV4 (rl_ipv4_addr_in exit) 32] \<and>
              (\<exists>peer. me_exit_peer e = Some peer \<and> key_of exit (pc_public_key peer))))"

text \<open>
  The obfuscation. For QUIC it may be missing, if the relay has no QUIC address of the family that
  is used.
\<close>

definition obfuscator_serves ::
  "normal_selector_config \<Rightarrow> wireguard_config \<Rightarrow> selected_obfuscator option \<Rightarrow> bool" where
  "obfuscator_serves c config obf \<longleftrightarrow>
     (case ob_selected (ns_obfuscation_settings c) of
        SelAuto \<Rightarrow> True
      | SelOff \<Rightarrow> obf = None
      | SelUdp2Tcp \<Rightarrow> \<exists>ob addr. obf = Some ob \<and> so_config ob = ObfSingle (CfgUdp2Tcp addr) \<and>
          matches_eq (u2t_port (ob_udp2tcp (ns_obfuscation_settings c))) (sa_port addr)
      | SelShadowsocks \<Rightarrow> \<exists>ob addr. obf = Some ob \<and> so_config ob = ObfSingle (CfgShadowsocks addr) \<and>
          matches_eq (sss_port (ob_shadowsocks (ns_obfuscation_settings c))) (sa_port addr)
      | SelQuic \<Rightarrow>
          (\<exists>v. quic_addresses (obfuscator_relay_of config) v = []) \<or>
          (\<exists>ob host addr token. obf = Some ob \<and> so_config ob = ObfSingle (CfgQuic host addr token))
      | SelLwo \<Rightarrow> \<exists>ob addr. obf = Some ob \<and> so_config ob = ObfSingle (CfgLwo addr))"

definition bridge_serves :: "normal_selector_config \<Rightarrow> relay_list \<Rightarrow> selected_bridge option \<Rightarrow> bool" where
  "bridge_serves c parsed bridge \<longleftrightarrow>
     (let settings = bs_normal (ns_bridge_settings c);
          from_list = (\<lambda>ok. \<exists>proxy r. bridge = Some (SelectedNormalBridge proxy r) \<and>
            r \<in> set (relays parsed) \<and> filter_bridge r \<and> rl_active r \<and> ok r)
      in case ns_bridge_state c of
           BridgeStateOff \<Rightarrow> bridge = None
         | BridgeStateAuto \<Rightarrow> bridge = None \<or> from_list (\<lambda>_. True)
         | BridgeStateOn \<Rightarrow>
             (case bs_bridge_type (ns_bridge_settings c) of
                BridgeCustom \<Rightarrow> bridge = map_option SelectedCustomBridge (bs_custom (ns_bridge_settings c))
              | BridgeNormal \<Rightarrow>
                  from_list (\<lambda>r. filter_on_location (resolve_location (bc_location settings) (ns_custom_lists c)) r \<and>
                    filter_on_ownership (bc_ownership settings) r \<and>
                    filter_on_providers (bc_providers settings) r)))"

fun serves :: "normal_selector_config \<Rightarrow> relay_list \<Rightarrow> get_relay_result \<Rightarrow> bool" where
  "serves c parsed (GetWireguard e obf config) \<longleftrightarrow>
     rc_tunnel_protocol (ns_user_preferences c) = TypeWireguard \<and>
     relays_serve c parsed config \<and> endpoint_serves c config e \<and> obfuscator_serves c config obf"
| "serves c parsed (GetOpenVpn e exit bridge) \<longleftrightarrow>
     rc_tunnel_protocol (ns_user_preferences c) = TypeOpenVpn \<and>
     acceptable c parsed (rc_location (ns_user_preferences c)) exit \<and>
     keeps_port (ovc_port (rc_openvpn_constraints (ns_user_preferences c)))
       (Only \<lparr>tp_protocol = ep_protocol e, tp_port = Only (sa_port (ep_address e))\<rparr>) \<and>
     bridge_serves c parsed bridge \<and> (bridge \<noteq> None \<longrightarrow> ep_protocol e = Tcp)"
| "serves c parsed (GetCustom _) \<longleftrightarrow> False"

lemma query_try_from_ok:
  assumes "query_try_from c = Inr user"
  shows "query_valid user" and "rq_location user = rc_location (ns_user_preferences c)"
    and "rq_providers user = rc_providers (ns_user_preferences c)"
    and "rq_ownership user = rc_ownership (ns_user_preferences c)"
    and "rq_tunnel_protocol user = rc_tunnel_protocol (ns_user_preferences c)"
    and "rq_wireguard_constraints user = wireguard_constraints_query
      (rc_wireguard_constraints (ns_user_preferences c)) (ns_additional_preferences c) (ns_obfuscation_settings c)"
    and "rq_openvpn_constraints user = openvpn_constraints_query
      (rc_openvpn_constraints (ns_user_preferences c)) (ns_bridge_state c) (ns_bridge_settings c)"
  using assms by (auto simp: query_try_from_def relay_query_new_def validate_eq Let_def split: if_splits)

lemma matches_kept: "constraint_matches f c x \<Longrightarrow> keeps wish c \<Longrightarrow> constraint_matches f wish x"
  by (auto simp: keeps_def)

lemma location_kept:
  "filter_on_location (resolve_location c clists) r \<Longrightarrow> keeps wish c \<Longrightarrow>
   filter_on_location (resolve_location wish clists) r"
  by (auto simp: keeps_def filter_on_location_def resolve_location_def)

lemma matches_eq_kept: "matches_eq c x \<Longrightarrow> keeps wish c \<Longrightarrow> matches_eq wish x"
  by (auto simp: keeps_def)

lemma acceptable_if_matches:
  assumes "query_try_from c = Inr user" and "honours user m"
    and "r \<in> set (relays parsed)" and "relay_matches q parsed (ns_custom_lists c) r"
    and "rq_tunnel_protocol q = rq_tunnel_protocol m" and "rq_ownership q = rq_ownership m"
    and "rq_providers q = rq_providers m" and "keeps location (rq_location q)"
  shows "acceptable c parsed location r"
  using assms
  by (auto simp: acceptable_def relay_matches_def honours_def query_try_from_ok [OF assms(1)]
      filter_on_ownership_def filter_on_providers_def intro: matches_kept location_kept)

lemma keeps_Only [simp]: "keeps (Only x) c \<longleftrightarrow> c = Only x"
  by (simp add: keeps_def)

lemma honours_additional:
  assumes "query_try_from c = Inr user" and "honours user m"
  shows "wq_daita (rq_wireguard_constraints m) = Only (ad_daita (ns_additional_preferences c))"
    and "singlehop m \<longleftrightarrow> \<not> wgc_use_multihop (rc_wireguard_constraints (ns_user_preferences c))"
    and "using_daita m \<and> use_multihop_if_necessary m \<longleftrightarrow> automatic_multihop c"
    and "keeps (wgc_entry_location (rc_wireguard_constraints (ns_user_preferences c)))
      (wq_entry_location (rq_wireguard_constraints m))"
proof -
  have w: "wireguard_honours (rq_wireguard_constraints user) (rq_wireguard_constraints m)"
    using assms(2) by (simp add: honours_def)
  note facts = w [unfolded wireguard_honours_def query_try_from_ok(6) [OF assms(1)] wireguard_constraints_query_def,
      simplified]
  show daita: "wq_daita (rq_wireguard_constraints m) = Only (ad_daita (ns_additional_preferences c))"
    using facts by simp
  show "singlehop m \<longleftrightarrow> \<not> wgc_use_multihop (rc_wireguard_constraints (ns_user_preferences c))"
    using facts by (simp add: singlehop_def multihop_def)
  show "using_daita m \<and> use_multihop_if_necessary m \<longleftrightarrow> automatic_multihop c"
    using facts by (auto simp: daita using_daita_def use_multihop_if_necessary_def automatic_multihop_def
        is_only_and_def
        intersection_partialeq_def)
  show "keeps (wgc_entry_location (rc_wireguard_constraints (ns_user_preferences c)))
      (wq_entry_location (rq_wireguard_constraints m))"
    using facts by simp
qed

lemma relays_serve_if_ok:
  assumes "query_try_from c = Inr user" and "honours user m" and "config_ok m parsed (ns_custom_lists c) config"
  shows "relays_serve c parsed config"
proof (cases config)
  case (Singlehop exit)
  with assms(3) show ?thesis
    using honours_additional [OF assms(1,2)] query_try_from_ok [OF assms(1)] assms(2)
    by (auto simp: daita_if_wanted_def relay_matches_def honours_def
        intro!: acceptable_if_matches [OF assms(1,2), of exit parsed m])
next
  case (Multihop exit entry)
  have "acceptable c parsed (rc_location (ns_user_preferences c)) exit"
    using assms(3) Multihop query_try_from_ok [OF assms(1)] assms(2)
    by (intro acceptable_if_matches [OF assms(1,2), of exit parsed "exit_query m"])
      (auto simp: exit_query_def honours_def)
  moreover have "acceptable c parsed (if automatic_multihop c then Any
      else wgc_entry_location (rc_wireguard_constraints (ns_user_preferences c))) entry"
    using assms(3) Multihop honours_additional [OF assms(1,2)]
    by (intro acceptable_if_matches [OF assms(1,2), of entry parsed "entry_query m"])
      (auto simp: entry_query_def keeps_def)
  ultimately show ?thesis
    using assms(3) Multihop honours_additional [OF assms(1,2)]
    by (auto simp: daita_if_wanted_def relay_matches_def entry_query_def relay_eq_def)
qed

lemma endpoint_serves_if_ok:
  assumes "query_try_from c = Inr user" and "honours user m"
    and "endpoint_ok (rq_wireguard_constraints m) data config e"
  shows "endpoint_serves c config e"
proof -
  have port: "keeps (wgc_port (rc_wireguard_constraints (ns_user_preferences c))) (wq_port (rq_wireguard_constraints m))"
    and version: "keeps (wgc_ip_version (rc_wireguard_constraints (ns_user_preferences c)))
      (wq_ip_version (rq_wireguard_constraints m))"
    using assms(2) by (auto simp: honours_def wireguard_honours_def query_try_from_ok [OF assms(1)]
        wireguard_constraints_query_def)
  have family: "matches_eq (wq_ip_version (rq_wireguard_constraints m)) (ip_version_of addr)"
    if "address_of (rq_wireguard_constraints m) r addr" for r addr
    using that by (cases "wq_ip_version (rq_wireguard_constraints m)" rule: resolve_ip_version.cases)
      (auto simp: address_of_def)
  show ?thesis
    using assms(3)
    by (cases config)
      (auto simp: endpoint_serves_def peer_ok_def Let_def intro: matches_eq_kept [OF _ port]
        matches_eq_kept [OF family version])
qed

lemma obfuscator_serves_if_ok:
  assumes "query_try_from c = Inr user" and "honours user m" and "obfuscator_ok m config obf"
  shows "obfuscator_serves c config obf"
  using assms(2,3)
  by (cases "ob_selected (ns_obfuscation_settings c)")
    (auto simp: obfuscator_serves_def obfuscator_ok_def honours_def wireguard_honours_def
      query_try_from_ok [OF assms(1)] wireguard_constraints_query_def obfuscation_query_from_def)

lemma bridge_serves_if_ok:
  assumes "query_try_from c = Inr user" and "honours user m" and "bridge_ok m parsed (ns_custom_lists c) bridge"
  shows "bridge_serves c parsed bridge"
  using assms(2,3)
  by (cases "ns_bridge_state c"; cases "bs_bridge_type (ns_bridge_settings c)")
    (auto simp: bridge_serves_def bridge_ok_def honours_def openvpn_honours_def Let_def
      query_try_from_ok [OF assms(1)] openvpn_constraints_query_def split: bridge_query.splits)

lemma compatible_keeps_port:
  assumes "compatible_openvpn_port_combo c p"
  shows "keeps_port c (Only \<lparr>tp_protocol = ove_protocol p, tp_port = Only (ove_port p)\<rparr>)"
proof (cases c)
  case (Only w)
  with assms show ?thesis
    by (cases "tp_port w") (auto simp: compatible_openvpn_port_combo_def keeps_port_def keeps_def)
qed (simp add: keeps_port_def)

lemma serves_wireguard_if_ok:
  assumes "query_try_from c = Inr user" and "honours user m"
    and "result_ok m parsed (ns_custom_lists c) (GetWireguard e obf config)"
  shows "serves c parsed (GetWireguard e obf config)"
proof -
  from assms(3) have ok: "rq_tunnel_protocol m = TypeWireguard" "config_ok m parsed (ns_custom_lists c) config"
    "endpoint_ok (rq_wireguard_constraints m) (rs_wireguard parsed) config e" "obfuscator_ok m config obf"
    by simp_all
  have "rc_tunnel_protocol (ns_user_preferences c) = TypeWireguard"
    using assms(2) ok(1) by (simp add: honours_def query_try_from_ok [OF assms(1)])
  with relays_serve_if_ok [OF assms(1,2) ok(2)] endpoint_serves_if_ok [OF assms(1,2) ok(3)]
    obfuscator_serves_if_ok [OF assms(1,2) ok(4)]
  show ?thesis by simp
qed

lemma serves_openvpn_if_ok:
  assumes "query_try_from c = Inr user" and "honours user m"
    and "result_ok m parsed (ns_custom_lists c) (GetOpenVpn e exit bridge)"
  shows "serves c parsed (GetOpenVpn e exit bridge)"
proof -
  from assms(3) obtain p where ok: "rq_tunnel_protocol m = TypeOpenVpn" "exit \<in> set (relays parsed)"
      "relay_matches m parsed (ns_custom_lists c) exit" "bridge_ok m parsed (ns_custom_lists c) bridge"
      "bridge \<noteq> None \<longrightarrow> ep_protocol e = Tcp"
    and p: "compatible_openvpn_port_combo (oq_port (rq_openvpn_constraints m)) p"
    and e: "e = endpoint_new (V4 (rl_ipv4_addr_in exit)) (ove_port p) (ove_protocol p)"
    by auto
  have tunnel: "rc_tunnel_protocol (ns_user_preferences c) = TypeOpenVpn"
    and location: "keeps (rc_location (ns_user_preferences c)) (rq_location m)"
    and port: "keeps_port (ovc_port (rc_openvpn_constraints (ns_user_preferences c)))
      (oq_port (rq_openvpn_constraints m))"
    using assms(2) ok(1) by (simp_all add: honours_def openvpn_honours_def query_try_from_ok [OF assms(1)]
        openvpn_constraints_query_def)
  have "keeps_port (ovc_port (rc_openvpn_constraints (ns_user_preferences c)))
      (Only \<lparr>tp_protocol = ep_protocol e, tp_port = Only (sa_port (ep_address e))\<rparr>)"
    using keeps_port_trans [OF port compatible_keeps_port [OF p]] by (simp add: e endpoint_new_def)
  with tunnel ok(5) acceptable_if_matches [OF assms(1,2) ok(2,3) refl refl refl location]
    bridge_serves_if_ok [OF assms(1,2) ok(4)]
  show ?thesis by simp
qed

lemma serves_if_ok:
  assumes "query_try_from c = Inr user" and "honours user m" and "result_ok m parsed (ns_custom_lists c) res"
  shows "serves c parsed res"
  using assms
  by (cases res) (blast intro: serves_wireguard_if_ok serves_openvpn_if_ok | simp)+

section \<open>Selecting a relay\<close>

text \<open>The queries an attempt may be answered with: the user's own and its merges with a retry order.\<close>

definition merged_queries :: "relay_query list \<Rightarrow> relay_query \<Rightarrow> relay_query list" where
  "merged_queries order user = List.map_filter (\<lambda>query. query_intersection query user) order"

lemma merged_queries_honour:
  assumes "\<forall>q \<in> set order. undemanding q" and "m \<in> set (merged_queries order user)"
  shows "honours user m"
  using assms by (auto simp: merged_queries_def List.map_filter_def intro: intersection_honours)

lemma outcomes_attempt:
  "outcomes (forget_err (get_relay_inner staggered q parsed clists))
     (\<lambda>x. \<forall>res. x = Some res \<longrightarrow> result_ok q parsed clists res) E"
  by (rule outcomes_forget_err) (rule outcomes_mono [OF outcomes_relay_inner], auto)

lemma outcomes_custom_params:
  assumes "specialize config = SpecNormal c" and "\<forall>q \<in> set order. undemanding q"
  shows "outcomes (get_relay_with_custom_params staggered config parsed n order avail) (serves c parsed) (\<lambda>_. True)"
proof (cases "query_try_from c")
  case (Inl e)
  then show ?thesis
    by (simp add: get_relay_with_custom_params_def assms(1) outcomes_err)
next
  case (Inr user)
  have attempt: "outcomes (forget_err (get_relay_inner staggered q parsed (ns_custom_lists c)))
      (\<lambda>x. \<forall>res. x = Some res \<longrightarrow> serves c parsed res) (\<lambda>_. True)" if "honours user q" for q
    by (rule outcomes_mono [OF outcomes_attempt]) (use serves_if_ok [OF Inr that] in auto)
  show ?thesis
    unfolding get_relay_with_custom_params_def assms(1)
    apply (simp add: Inr Let_def merged_queries_def [symmetric])
    apply (rule outcomes_bind [OF outcomes_ip_availability [OF query_try_from_ok(1) [OF Inr]]])
    apply (rule outcomes_bind [OF outcomes_nth_cycle [where P = "\<lambda>q. serves c parsed"]])
      apply (rule attempt)
      apply (metis merged_queries_honour [OF assms(2)] honours_trans)
     apply simp
    apply (rule outcomes_option)
     apply (auto intro!: outcomes_bind [OF attempt] outcomes_ok_or outcomes_ok)
    done
qed

lemma outcomes_get_relay:
  assumes "specialize config = SpecNormal c" and "specialize config' = SpecNormal c'"
  shows "outcomes (get_relay staggered config config' parsed n avail) (serves c' parsed) (\<lambda>_. True)"
  using retry_orders_undemanding
  by (auto simp: get_relay_def assms(1) split: tunnel_type.split intro!: outcomes_custom_params [OF assms(2)])

end
