(* ===== verification/Relay_Properties.thy ===== *)
theory Relay_Properties
  imports Relay_Retries
begin

text \<open>
  The properties of the relay selector, each with an instance where it has hypotheses, and the
  lemmas that show where the selector departs from its documentation.
\<close>

section \<open>A relay list and settings\<close>

definition stockholm :: location where
  "stockholm = \<lparr>loc_country = ''Sweden'', loc_country_code = ''se'', loc_city = ''Stockholm'',
     loc_city_code = ''sto'', loc_latitude = 59, loc_longitude = 18\<rparr>"

definition sample_data :: wireguard_relay_endpoint_data where
  "sample_data = \<lparr>wr_public_key = [1], wr_daita = True, wr_quic = None, wr_lwo = False,
     wr_shadowsocks_extra_addr_in = []\<rparr>"

definition sample_relay :: "string \<Rightarrow> u32 \<Rightarrow> relay" where
  "sample_relay host addr = \<lparr>rl_hostname = host, rl_ipv4_addr_in = addr, rl_ipv6_addr_in = None,
     rl_overridden_ipv4 = False, rl_overridden_ipv6 = False, rl_include_in_country = True,
     rl_active = True, rl_owned = True, rl_provider = ''a'', rl_weight = 100,
     rl_endpoint_data = RelayWireguard sample_data, rl_location = stockholm\<rparr>"

definition sample_list :: "relay list \<Rightarrow> relay_list" where
  "sample_list rs = \<lparr>rs_etag = None,
     rs_countries = [\<lparr>cn_name = ''Sweden'', cn_code = ''se'', cn_cities =
       [\<lparr>ci_name = ''Stockholm'', ci_code = ''sto'', ci_latitude = 59, ci_longitude = 18, ci_relays = rs\<rparr>]\<rparr>],
     rs_openvpn_ports = [], rs_bridge_shadowsocks = [],
     rs_wireguard = \<lparr>we_port_ranges = [(51820, 51820)], we_ipv4_gateway = 1, we_ipv6_gateway = 1,
       we_shadowsocks_port_ranges = [], we_udp2tcp_ports = [443]\<rparr>\<rparr>"

definition sample_constraints :: relay_constraints where
  "sample_constraints = \<lparr>rc_location = Only (Location (Country ''se'')), rc_providers = Any,
     rc_ownership = Only MullvadOwned, rc_tunnel_protocol = TypeWireguard,
     rc_wireguard_constraints = \<lparr>wgc_port = Only 51820, wgc_ip_version = Any, wgc_allowed_ips = Any,
       wgc_use_multihop = False, wgc_entry_location = Any\<rparr>,
     rc_openvpn_constraints = \<lparr>ovc_port = Any\<rparr>\<rparr>"

definition sample_normal :: normal_selector_config where
  "sample_normal = \<lparr>ns_user_preferences = sample_constraints,
     ns_additional_preferences = \<lparr>ad_daita = True, ad_daita_use_multihop_if_necessary = False,
       ad_quantum_resistant = QrAuto\<rparr>,
     ns_custom_lists = [], ns_obfuscation_settings = obfuscation_settings_default,
     ns_bridge_state = BridgeStateAuto, ns_bridge_settings = bridge_settings_default\<rparr>"

definition sample_config :: selector_config where
  "sample_config = \<lparr>sc_relay_settings = Normal sample_constraints,
     sc_additional_constraints = ns_additional_preferences sample_normal,
     sc_custom_lists = [], sc_relay_overrides = [],
     sc_obfuscation_settings = obfuscation_settings_default,
     sc_bridge_state = BridgeStateAuto, sc_bridge_settings = bridge_settings_default\<rparr>"

definition sample_query :: relay_query where
  "sample_query = \<lparr>rq_location = Only (Location (Country ''se'')), rq_providers = Any,
     rq_ownership = Only MullvadOwned, rq_tunnel_protocol = TypeWireguard,
     rq_wireguard_constraints = \<lparr>wq_port = Only 51820, wq_ip_version = Any, wq_allowed_ips = Any,
       wq_use_multihop = Only False, wq_entry_location = Any, wq_obfuscation = ObfAuto,
       wq_daita = Only True, wq_daita_use_multihop_if_necessary = Only False,
       wq_quantum_resistant = QrAuto\<rparr>,
     rq_openvpn_constraints = \<lparr>oq_port = Any, oq_bridge_settings = BridgeAuto\<rparr>\<rparr>"

lemma sample_specialize: "specialize sample_config = SpecNormal sample_normal"
  by (simp add: specialize_def sample_config_def sample_normal_def)

lemma sample_try_from: "query_try_from sample_normal = Inr sample_query"
  by (simp add: query_try_from_def sample_normal_def sample_constraints_def relay_query_new_def validate_def
      core_privacy_feature_enabled_def multihop_def wireguard_constraints_query_def
      openvpn_constraints_query_def obfuscation_query_from_def obfuscation_settings_default_def
      bridge_settings_default_def sample_query_def)

lemma sample_valid: "query_valid sample_query"
  by (rule query_try_from_ok(1) [OF sample_try_from])

lemma sample_relays [simp]: "relays (sample_list rs) = rs"
  by (simp add: relays_def sample_list_def)

lemma sample_matches: "relay_matches sample_query (sample_list rs) clists (sample_relay host addr)"
  by (simp add: relay_matches_def sample_query_def sample_relay_def sample_data_def stockholm_def
      filter_tunnel_type_def filter_wireguard_def filter_on_location_def resolve_location_def
      resolved_matches_def filter_on_ownership_def filter_on_providers_def filter_on_daita_def
      filter_on_obfuscation_def relay_wireguard_def)

definition sample_endpoint :: "u32 \<Rightarrow> mullvad_wireguard_endpoint" where
  "sample_endpoint addr = \<lparr>me_peer = \<lparr>pc_public_key = [1],
     pc_allowed_ips = resolve_from_constraint Any (Some 1) (Some 1),
     pc_endpoint = SocketAddr (V4 addr) 51820, pc_psk = None, pc_constant_packet_size = False\<rparr>,
     me_exit_peer = None, me_ipv4_gateway = 1, me_ipv6_gateway = 1\<rparr>"

lemma shuffle_single [simp]: "shuffle [x] r = (Inr [x], stl r)"
  by (simp add: shuffle.simps sel_bind_def draw_def ok_def)

lemma sample_matching:
  "filter_matching_relay_list sample_query (sample_list [sample_relay host addr]) [] r =
     (Inr [sample_relay host addr], stl r)"
proof -
  have "filter_matching_relay_list_include_all sample_query (sample_list [sample_relay host addr]) [] =
      [sample_relay host addr]"
    by (simp add: include_all_eq sample_matches)
  then show ?thesis
    by (simp add: filter_matching_relay_list_def filter_on_include_in_country_def resolve_location_def
        sample_query_def split_by_country_def relay_contains_def)
qed

lemma sample_pick:
  "pick_random_relay [sample_relay host addr] r = (Inr (Some (sample_relay host addr)), stl r)"
proof -
  have "unat (word_of_nat (Suc (shd r mod 100)) :: u64) = Suc (shd r mod 100)"
    using mod_less_divisor [of 100 "shd r"]
    by (simp add: unsigned_of_nat take_bit_nat_eq_self del: of_nat_Suc mod_less_divisor)
  then have "word_of_nat (Suc (shd r mod 100)) \<le> (100 :: u64)"
    using mod_less_divisor [of 100 "shd r"] by (simp add: word_le_nat_alt del: of_nat_Suc mod_less_divisor)
  then have "saturating_sub (word_of_nat (Suc (shd r mod 100))) (100 :: u64) = 0"
    by (auto simp: saturating_sub_def)
  then show ?thesis
    by (simp add: pick_random_relay_def pick_random_relay_weighted_def sample_relay_def sel_bind_def draw_def
        expect_some_def ok_def del: of_nat_Suc)
qed

lemma sample_result:
  "get_relay_inner False sample_query (sample_list [sample_relay host addr]) [] r =
     (Inr (GetWireguard (sample_endpoint addr) None (Singlehop (sample_relay host addr))), stl (stl r))"
proof -
  have "get_wireguard_relay_config sample_query [] (sample_list [sample_relay host addr]) r =
      (Inr (Singlehop (sample_relay host addr)), stl (stl r))" for r
    by (simp add: get_wireguard_relay_config_def get_wireguard_singlehop_config_def sel_bind_def
        sample_matching sample_pick singlehop_def multihop_def)
      (simp add: sample_query_def filter_wireguard_def sample_relay_def sel_assert_def ok_def)
  moreover have "get_wireguard_endpoint sample_query (sample_list [sample_relay host addr])
      (Singlehop (sample_relay host addr)) r = (Inr (sample_endpoint addr), r)" for r
    by (simp add: get_wireguard_endpoint_def map_err_def sample_query_def sample_list_def sample_relay_def
        sample_data_def wireguard_singlehop_endpoint_def get_address_for_wireguard_relay_def
        get_port_for_wireguard_relay_def desired_or_random_port_from_range_def port_if_in_range_def
        range_contains_def get_public_key_def sample_endpoint_def sel_bind_def ok_def)
  moreover have "get_wireguard_obfuscator False sample_query (Singlehop (sample_relay host addr)) e parsed =
      ok None" for e parsed
    by (simp add: get_wireguard_obfuscator_def sample_query_def)
  moreover have "rq_tunnel_protocol sample_query = TypeWireguard" by (simp add: sample_query_def)
  ultimately show ?thesis
    by (simp add: get_relay_inner_def get_wireguard_relay_inner_def sel_assert_def)
      (simp add: sel_bind_def ok_def)
qed

lemma sample_ip_availability: "apply_ip_availability Ipv4AndIpv6 sample_query = ok sample_query"
  by (simp add: apply_ip_availability_eq [OF sample_valid] ip_version_constraint_def)
    (simp add: sample_query_def)



section \<open>Selected relays\<close>



text \<open>
  C22. No entry of the retry orders overrides the user: what comes out of merging it with the user's
  query keeps every setting the user has made, the choice of obfuscation, of quantum resistance and
  of bridges among them.
\<close>

theorem retry_order_keeps_preferences:
  assumes "q \<in> set (WIREGUARD_RETRY_ORDER @ OPENVPN_RETRY_ORDER)" and "query_intersection q user = Some m"
  shows "honours user m"
  using assms retry_orders_undemanding by (intro intersection_honours) auto

theorem retry_order_keeps_preferences_witness:
  "query_intersection (WIREGUARD_RETRY_ORDER ! 1) sample_query =
     Some (sample_query\<lparr>rq_wireguard_constraints := (rq_wireguard_constraints sample_query)\<lparr>wq_ip_version := Only IpV6\<rparr>\<rparr>) \<and>
   honours sample_query (sample_query\<lparr>rq_wireguard_constraints :=
     (rq_wireguard_constraints sample_query)\<lparr>wq_ip_version := Only IpV6\<rparr>\<rparr>)"
proof -
  have "query_intersection (WIREGUARD_RETRY_ORDER ! 1) sample_query =
     Some (sample_query\<lparr>rq_wireguard_constraints := (rq_wireguard_constraints sample_query)\<lparr>wq_ip_version := Only IpV6\<rparr>\<rparr>)"
    by (simp add: WIREGUARD_RETRY_ORDER_def builder_defs query_default_defs query_intersection_def
        wireguard_query_intersection_def openvpn_query_intersection_def intersection_partialeq_def
        sample_query_def)
  moreover have "WIREGUARD_RETRY_ORDER ! 1 \<in> set (WIREGUARD_RETRY_ORDER @ OPENVPN_RETRY_ORDER)"
    by (simp add: WIREGUARD_RETRY_ORDER_def)
  ultimately show ?thesis
    using retry_order_keeps_preferences by blast
qed

text \<open>
  C23. If it does not depend on chance which of the merged queries lead to a relay, attempt n
  succeeds with the nth of those that do, starting over after the last: as attempts go on,
  every way of connecting that can work is tried again and again.
\<close>

theorem retry_attempts_cycle:
  assumes "specialize config = SpecNormal c" and "query_try_from c = Inr user"
    and "apply_ip_availability avail user = ok user_query"
    and "\<forall>q \<in> set (merged_queries order user_query).
      outcomes (get_relay_inner staggered q parsed (ns_custom_lists c)) (\<lambda>_. works q) (\<lambda>_. \<not> works q)"
    and "working = filter works (merged_queries order user_query)" and "working \<noteq> []"
  shows "outcomes (get_relay_with_custom_params staggered config parsed retry_attempt order avail)
    (result_ok (working ! (retry_attempt mod length working)) parsed (ns_custom_lists c)) (\<lambda>_. False)"
proof -
  let ?merged = "merged_queries order user_query"
  let ?attempt = "\<lambda>q. forget_err (get_relay_inner staggered q parsed (ns_custom_lists c))"
  have inner: "outcomes (get_relay_inner staggered q parsed (ns_custom_lists c))
      (\<lambda>a. works q \<and> result_ok q parsed (ns_custom_lists c) a) (\<lambda>_. \<not> works q)" if "q \<in> set ?merged" for q
    by (rule outcomes_mono [OF outcomes_conj [OF bspec [OF assms(4) that] outcomes_relay_inner]]) auto
  have "outcomes (nth_cycle ?attempt ?merged ?merged False retry_attempt)
      (\<lambda>x. \<exists>a. x = Some a \<and>
        result_ok (nth_working works ?merged ?merged retry_attempt) parsed (ns_custom_lists c) a) (\<lambda>_. False)"
  proof (rule outcomes_nth_cycle_works)
    show "outcomes (?attempt q) (\<lambda>x. \<exists>a. x = Some a \<and> result_ok q parsed (ns_custom_lists c) a) (\<lambda>_. False)"
      if "q \<in> set ?merged" and "works q" for q
      by (rule outcomes_forget_err, rule outcomes_mono [OF inner [OF that(1)]]) (use that(2) in auto)
    show "outcomes (?attempt q) (\<lambda>x. x = None) (\<lambda>_. False)" if "q \<in> set ?merged" and "\<not> works q" for q
      by (rule outcomes_forget_err, rule outcomes_mono [OF inner [OF that(1)]]) (use that(2) in auto)
  qed (use assms(5,6) in auto)
  moreover have "nth_working works ?merged ?merged retry_attempt = working ! (retry_attempt mod length working)"
    using assms(5,6) by (simp add: nth_working_Nil) (simp add: nth_working_def)
  ultimately show ?thesis
    unfolding get_relay_with_custom_params_def assms(1)
    by (simp add: assms(2,3) Let_def merged_queries_def [symmetric])
      (erule outcomes_bind, auto intro: outcomes_ok)
qed

lemma sample_merged_single: "merged_queries [build builder_wireguard] sample_query = [sample_query]"
  by (simp add: merged_queries_def List.map_filter_simps builder_defs query_default_defs query_intersection_def
      wireguard_query_intersection_def openvpn_query_intersection_def intersection_partialeq_def
      sample_query_def)

theorem retry_attempts_cycle_witness:
  "filter (\<lambda>_. True) (merged_queries [build builder_wireguard] sample_query) = [sample_query] \<and>
   outcomes (get_relay_with_custom_params False sample_config (sample_list [sample_relay ''a'' 7]) 5
       [build builder_wireguard] Ipv4AndIpv6)
     (result_ok sample_query (sample_list [sample_relay ''a'' 7]) []) (\<lambda>_. False)"
proof -
  have clists: "ns_custom_lists sample_normal = []" by (simp add: sample_normal_def)
  have "outcomes (get_relay_inner False sample_query (sample_list [sample_relay ''a'' 7]) []) (\<lambda>_. True) (\<lambda>_. False)"
    by (simp add: outcomes_def sample_result)
  then show ?thesis
    using retry_attempts_cycle [OF sample_specialize sample_try_from sample_ip_availability,
        of "[build builder_wireguard]" False "sample_list [sample_relay ''a'' 7]" "\<lambda>_. True" "[sample_query]" 5]
    unfolding sample_merged_single clists by simp
qed

text \<open>
  C24. What the connectivity of the host does to a valid query: OpenVPN queries are left alone; a
  query with no preference is narrowed to the family the host has; a query that insists on a family
  is kept if the host has it, and otherwise the selection fails with an error that names it. There
  is no panic.
\<close>

theorem ip_availability_applied:
  assumes "query_valid q"
  shows "apply_ip_availability avail q =
    (let narrow = (\<lambda>v. case wq_ip_version (rq_wireguard_constraints q) of
           Any \<Rightarrow> ok (map_wireguard (\<lambda>w. w\<lparr>wq_ip_version := Only v\<rparr>) q)
         | Only v' \<Rightarrow> if v' = v then ok q else err (SelectorIpVersionUnavailable v'))
     in if rq_tunnel_protocol q = TypeOpenVpn then ok q
        else case avail of Ipv4 \<Rightarrow> narrow IpV4 | Ipv6 \<Rightarrow> narrow IpV6 | Ipv4AndIpv6 \<Rightarrow> ok q)"
proof -
  have same: "map_wireguard (\<lambda>w. w\<lparr>wq_ip_version := Any\<rparr>) q = q"
    if "wq_ip_version (rq_wireguard_constraints q) = Any"
    using that [symmetric] by simp
  show ?thesis
    by (cases avail; cases "wq_ip_version (rq_wireguard_constraints q)")
      (auto simp: apply_ip_availability_eq [OF assms] ip_version_constraint_def same)
qed

theorem ip_availability_applied_witness:
  "apply_ip_availability Ipv4 sample_query =
     ok (map_wireguard (\<lambda>w. w\<lparr>wq_ip_version := Only IpV4\<rparr>) sample_query) \<and>
   apply_ip_availability Ipv4 (map_wireguard (\<lambda>w. w\<lparr>wq_ip_version := Only IpV6\<rparr>) sample_query) =
     err (SelectorIpVersionUnavailable IpV6)"
proof
  show "apply_ip_availability Ipv4 sample_query =
      ok (map_wireguard (\<lambda>w. w\<lparr>wq_ip_version := Only IpV4\<rparr>) sample_query)"
    by (subst ip_availability_applied [OF sample_valid]) (simp add: sample_query_def)
  have "query_valid (map_wireguard (\<lambda>w. w\<lparr>wq_ip_version := Only IpV6\<rparr>) sample_query)"
    by (simp add: query_valid_def sample_query_def)
  then show "apply_ip_availability Ipv4 (map_wireguard (\<lambda>w. w\<lparr>wq_ip_version := Only IpV6\<rparr>) sample_query) =
      err (SelectorIpVersionUnavailable IpV6)"
    by (subst ip_availability_applied) (simp_all add: sample_query_def)
qed

section \<open>Queries\<close>

text \<open>The queries that the constructors, the setters, the retry orders and merging give.\<close>

inductive obtainable :: "relay_query \<Rightarrow> bool" where
  Default: "obtainable relay_query_default"
| New: "relay_query_new l p ow t w ov = Inr q \<Longrightarrow> obtainable q"
| Settings: "query_try_from c = Inr q \<Longrightarrow> obtainable q"
| Retry: "q \<in> set (WIREGUARD_RETRY_ORDER @ OPENVPN_RETRY_ORDER) \<Longrightarrow> obtainable q"
| Location: "obtainable q \<Longrightarrow> set_location l q = Inr q' \<Longrightarrow> obtainable q'"
| Protocol: "obtainable q \<Longrightarrow> set_tunnel_protocol t q = Inr q' \<Longrightarrow> obtainable q'"
| OpenVpn: "obtainable q \<Longrightarrow> set_openvpn_constraints ov q = Inr q' \<Longrightarrow> obtainable q'"
| Wireguard: "obtainable q \<Longrightarrow> set_wireguard_constraints w q = Inr q' \<Longrightarrow> obtainable q'"
| Merge: "obtainable a \<Longrightarrow> obtainable b \<Longrightarrow> query_intersection a b = Some q \<Longrightarrow> obtainable q"
| Connectivity: "obtainable q \<Longrightarrow> apply_ip_availability avail q = ok q' \<Longrightarrow> obtainable q'"

lemma only_if_equal_True: "only_if_equal a b = Some (Only True) \<Longrightarrow> a = Only True \<or> b = Only True"
  by (cases a; cases b) (auto simp: intersection_partialeq_def split: if_splits)

lemma quantum_on: "quantum_intersection a b = Some QrOn \<Longrightarrow> a = QrOn \<or> b = QrOn"
  by (cases a; cases b) (auto split: if_splits)

lemma core_privacy_merged:
  assumes "query_intersection a b = Some q" and "core_privacy_feature_enabled q"
  shows "core_privacy_feature_enabled a \<or> core_privacy_feature_enabled b"
  using assms
  by (auto simp: query_intersection_def wireguard_query_intersection_def bind_eq_Some_conv
      core_privacy_feature_enabled_def multihop_def dest!: only_if_equal_True quantum_on)

lemma query_valid_merged:
  assumes "query_intersection a b = Some q" and "query_valid a" and "query_valid b"
  shows "query_valid q"
proof -
  have "rq_tunnel_protocol q = rq_tunnel_protocol a \<and> rq_tunnel_protocol a = rq_tunnel_protocol b"
    using assms(1) by (auto simp: query_intersection_def bind_eq_Some_conv intersection_partialeq_def split: if_splits)
  with assms(2,3) core_privacy_merged [OF assms(1)] show ?thesis
    by (auto simp: query_valid_def)
qed

lemma retry_orders_valid: "\<forall>q \<in> set (WIREGUARD_RETRY_ORDER @ OPENVPN_RETRY_ORDER). query_valid q"
  by (simp add: WIREGUARD_RETRY_ORDER_def OPENVPN_RETRY_ORDER_def builder_defs query_default_defs query_valid_def
      core_privacy_feature_enabled_def multihop_def Let_def)

lemma obfuscation_settings_roundtrip [simp]: "obfuscation_query_from (obfuscation_into_settings q) = q"
  by (cases q) (simp_all add: obfuscation_query_from_def)

lemma ok_outcome: "outcomes m P E \<Longrightarrow> m = ok a \<Longrightarrow> P a"
  by (auto simp: outcomes_def ok_def)

lemma outcome_total:
  assumes "outcomes m P (\<lambda>_. False)"
  obtains a where "fst (m r) = Inr a" and "P a"
  using assms by (cases "fst (m r)") (auto simp: outcomes_def dest!: spec [of _ r] split: failure.splits)

text \<open>
  Every query that can be obtained is well formed: one that asks for multihop, for DAITA or for
  quantum resistance is a WireGuard query. The constructors and setters see to it, and neither
  merging queries nor applying the connectivity of the host breaks it.
\<close>

theorem queries_well_formed:
  assumes "obtainable q" and "core_privacy_feature_enabled q"
  shows "rq_tunnel_protocol q = TypeWireguard"
proof -
  from assms(1) have "query_valid q"
  proof induction
    case Default
    show ?case by (simp add: relay_query_default_def query_valid_def)
  next
    case (Retry q)
    with retry_orders_valid show ?case by blast
  next
    case (Connectivity q avail q')
    then show ?case using ok_outcome [OF outcomes_ip_availability] by blast
  qed (auto simp: set_location_def set_tunnel_protocol_def set_openvpn_constraints_def set_wireguard_constraints_def
      set_if_valid_ok relay_query_new_valid query_try_from_ok(1) intro: query_valid_merged)
  with assms(2) show ?thesis by (simp add: query_valid_def)
qed

theorem queries_well_formed_witness:
  "core_privacy_feature_enabled sample_query \<and> rq_tunnel_protocol sample_query = TypeWireguard"
proof -
  have "core_privacy_feature_enabled sample_query"
    by (simp add: core_privacy_feature_enabled_def sample_query_def)
  with queries_well_formed [OF Settings [OF sample_try_from]] show ?thesis by blast
qed



section \<open>Choosing among relays\<close>

lemma unat_sum_list:
  fixes weight :: "'a \<Rightarrow> u64"
  assumes "sum_list (map (\<lambda>x. unat (weight x)) xs) < 2 ^ 64"
  shows "unat (sum_list (map weight xs)) = sum_list (map (\<lambda>x. unat (weight x)) xs)"
  using assms by (induction xs) (simp_all add: unat_word_ariths(1))

text \<open>
  The weighted choice is fair: as long as the sum of the weights fits into 64 bits, an element
  is chosen for exactly as many of the numbers the generator may draw as its weight says.
\<close>

theorem weighted_choice_fair:
  assumes "distinct xs" and "x \<in> set xs"
    and "all_weights = sum_list (map (\<lambda>x. unat (weight x)) xs)" and "0 < all_weights" and "all_weights < 2 ^ 64"
  shows "card {k. k < all_weights \<and> fst (pick_random_relay_weighted xs weight (k ## rng)) =
      (Inr (Some x) :: ('e failure, 'a option) result)} = unat (weight x)"
proof -
  have sum: "unat (sum_list (map weight xs)) = all_weights"
    using assms(3,5) unat_sum_list [of weight xs] by simp
  then have nonzero: "sum_list (map weight xs) \<noteq> 0"
    using assms(4) by auto
  have found: "fst (pick_random_relay_weighted xs weight (k ## rng)) =
      (Inr (Some x) :: ('e failure, 'a option) result) \<longleftrightarrow>
      find_weighted_nat (\<lambda>x. unat (weight x)) xs (Suc k) = Some x" if "k < all_weights" for k
  proof -
    have "unat (word_of_nat (Suc k) :: u64) = Suc k"
      using that assms(5) by (simp add: unsigned_of_nat take_bit_nat_eq_self del: of_nat_Suc)
    with that nonzero show ?thesis
      by (auto simp: pick_random_relay_weighted_def sum sel_bind_def draw_def find_weighted_unat expect_some_def
          ok_def panic_def simp del: of_nat_Suc split: option.splits)
  qed
  have "{k. 0 < k \<and> k \<le> all_weights \<and> find_weighted_nat (\<lambda>x. unat (weight x)) xs k = Some x} =
      Suc ` {k. k < all_weights \<and> fst (pick_random_relay_weighted xs weight (k ## rng)) =
      (Inr (Some x) :: ('e failure, 'a option) result)}"
    using found by (auto simp: image_iff Suc_le_eq gr0_conv_Suc)
  then show ?thesis
    using card_find_weighted [OF assms(1,2), of "\<lambda>x. unat (weight x)"]
    by (simp add: card_image flip: assms(3))
qed

theorem weighted_choice_fair_witness:
  "card {k. k < 3 \<and> fst (pick_random_relay_weighted [False, True] (\<lambda>b. if b then 2 else 1) (k ## sconst 0)) =
     (Inr (Some True) :: (unit failure, bool option) result)} = 2"
  using weighted_choice_fair [of "[False, True]" True 3 "\<lambda>b. if b then 2 else 1" "sconst 0"]
  by simp

text \<open>
  C26. Given candidates for exit and entry, each without two relays of the same name, a pair of
  different relays is found whenever there is one, and only such pairs are found.
\<close>

theorem multihop_pair_found:
  assumes "hostnames_distinct exits" and "hostnames_distinct entries"
  shows "case fst ((pick_working_entry_exit_combo exits entries :: ('e, (relay \<times> relay) option) sel) rng) of
      Inl _ \<Rightarrow> False
    | Inr None \<Rightarrow> \<not> (\<exists>exit \<in> set exits. \<exists>entry \<in> set entries. rl_hostname entry \<noteq> rl_hostname exit)
    | Inr (Some (exit, entry)) \<Rightarrow>
        exit \<in> set exits \<and> entry \<in> set entries \<and> rl_hostname entry \<noteq> rl_hostname exit"
proof -
  have "outcomes (pick_working_entry_exit_combo exits entries)
      (\<lambda>x. case x of
        Some p \<Rightarrow> working_pair exits entries p
      | None \<Rightarrow> hostnames_distinct exits \<and> hostnames_distinct entries \<longrightarrow> no_working_pair exits entries) (\<lambda>_ :: 'e. False)"
    by (rule outcomes_pick_combo)
  then obtain x where "fst ((pick_working_entry_exit_combo exits entries :: ('e, (relay \<times> relay) option) sel) rng) = Inr x"
    and "case x of
        Some p \<Rightarrow> working_pair exits entries p
      | None \<Rightarrow> hostnames_distinct exits \<and> hostnames_distinct entries \<longrightarrow> no_working_pair exits entries"
    by (rule outcome_total)
  then show ?thesis
    using assms by (cases x) (auto simp: working_pair_def no_working_pair_def relay_eq_def)
qed

theorem multihop_pair_found_witness:
  "hostnames_distinct [sample_relay ''a'' 1, sample_relay ''b'' 2] \<and>
   (case fst ((pick_working_entry_exit_combo [sample_relay ''a'' 1, sample_relay ''b'' 2] [sample_relay ''a'' 1] ::
       (unit, (relay \<times> relay) option) sel) (sconst 0)) of
      Inr (Some (exit, entry)) \<Rightarrow> rl_hostname entry \<noteq> rl_hostname exit
    | _ \<Rightarrow> False)"
proof -
  have host: "rl_hostname (sample_relay host addr) = host" for host addr
    by (simp add: sample_relay_def)
  have distinct: "hostnames_distinct [sample_relay ''a'' 1, sample_relay ''b'' 2]"
    "hostnames_distinct [sample_relay ''a'' 1]"
    by (simp_all add: hostnames_distinct_def host)
  with multihop_pair_found [OF distinct, where 'e = unit, of "sconst 0"] show ?thesis
    by (auto simp: host split: sum.splits option.splits)
qed

section \<open>Custom lists, overrides and countries\<close>

lemma remove_index:
  assumes "find_list_index ls i = Some k" and "distinct (map cl_id ls)"
  shows "take k ls @ drop (Suc k) ls = filter (\<lambda>l. cl_id l \<noteq> i) ls"
  using assms
proof (induction ls arbitrary: k)
  case (Cons l ls)
  have others: "filter (\<lambda>x. cl_id x \<noteq> cl_id l) ls = ls"
    by (rule filter_True) (metis Cons.prems(2) distinct.simps(2) image_eqI list.set_map list.simps(9))
  from Cons others show ?case by (auto split: if_splits)
qed simp

lemma update_index:
  assumes "find_list_index ls i = Some k"
  shows "l \<in> set (ls[k := l])"
  using find_list_index_Some [OF assms] by (simp add: set_update_memI)

lemma custom_lists_add_spec:
  assumes "custom_lists_ok ls"
  shows "case custom_lists_add ls l of
      Inr ls' \<Rightarrow> custom_lists_ok ls' \<and> l \<in> set ls'
    | Inl e \<Rightarrow> \<exists>x \<in> set ls. cl_id x = cl_id l \<or> cl_name x = cl_name l"
  using custom_lists_add_ok [OF assms, of l]
  by (cases "custom_lists_add ls l")
    (auto simp: custom_lists_add_def check_if_id_is_unique_def check_list_name_is_unique_def split: if_splits)

lemma custom_lists_remove_spec:
  assumes "custom_lists_ok ls"
  shows "case custom_lists_remove ls i of
      Inr ls' \<Rightarrow> custom_lists_ok ls' \<and> ls' = filter (\<lambda>x. cl_id x \<noteq> i) ls
    | Inl e \<Rightarrow> i \<notin> cl_id ` set ls"
  using assms find_list_index_None [of ls i]
  by (cases "find_list_index ls i")
    (auto simp: custom_lists_remove_def custom_lists_ok_def remove_index distinct_map_filter)

lemma custom_lists_update_spec:
  assumes "custom_lists_ok ls"
  shows "case custom_lists_update ls l of
      Inr ls' \<Rightarrow> custom_lists_ok ls' \<and> l \<in> set ls'
    | Inl e \<Rightarrow> cl_id l \<notin> cl_id ` set ls \<or> (\<exists>x \<in> set ls. cl_id x \<noteq> cl_id l \<and> cl_name x = cl_name l)"
  using custom_lists_update_ok [OF assms, of l] find_list_index_None [of ls "cl_id l"]
  by (cases "find_list_index ls (cl_id l)")
    (auto simp: custom_lists_update_def check_list_name_is_unique_def update_index split: if_splits)

text \<open>
  Custom lists keep distinct identifiers and distinct names, whichever of adding, removing and
  updating is done. Removing takes away the list with the identifier and nothing else. An operation
  that is refused has a reason: the identifier or the name is taken, or there is no such list.
\<close>

theorem custom_lists_stay_distinct:
  assumes "custom_lists_ok ls"
  shows "(case custom_lists_add ls l of
      Inr ls' \<Rightarrow> custom_lists_ok ls' \<and> l \<in> set ls'
    | Inl e \<Rightarrow> \<exists>x \<in> set ls. cl_id x = cl_id l \<or> cl_name x = cl_name l) \<and>
    (case custom_lists_remove ls i of
      Inr ls' \<Rightarrow> custom_lists_ok ls' \<and> ls' = filter (\<lambda>x. cl_id x \<noteq> i) ls
    | Inl e \<Rightarrow> i \<notin> cl_id ` set ls) \<and>
    (case custom_lists_update ls l of
      Inr ls' \<Rightarrow> custom_lists_ok ls' \<and> l \<in> set ls'
    | Inl e \<Rightarrow> cl_id l \<notin> cl_id ` set ls \<or> (\<exists>x \<in> set ls. cl_id x \<noteq> cl_id l \<and> cl_name x = cl_name l))"
  by (intro conjI custom_lists_add_spec [OF assms] custom_lists_remove_spec [OF assms]
      custom_lists_update_spec [OF assms])

theorem custom_lists_stay_distinct_witness:
  "custom_lists_ok [custom_list_with_id 1] \<and>
   custom_lists_add [custom_list_with_id 1] \<lparr>cl_id = 2, cl_name = ''b'', cl_locations = []\<rparr> =
     Inr [custom_list_with_id 1, \<lparr>cl_id = 2, cl_name = ''b'', cl_locations = []\<rparr>] \<and>
   custom_lists_ok [custom_list_with_id 1, \<lparr>cl_id = 2, cl_name = ''b'', cl_locations = []\<rparr>]"
proof -
  have start: "custom_lists_ok [custom_list_with_id 1]" by (simp add: custom_lists_ok_def)
  have "custom_lists_add [custom_list_with_id 1] \<lparr>cl_id = 2, cl_name = ''b'', cl_locations = []\<rparr> =
      Inr [custom_list_with_id 1, \<lparr>cl_id = 2, cl_name = ''b'', cl_locations = []\<rparr>]"
    by (simp add: custom_lists_add_def check_if_id_is_unique_def check_list_name_is_unique_def custom_list_with_id_def)
  with start custom_lists_stay_distinct [OF start, of "\<lparr>cl_id = 2, cl_name = ''b'', cl_locations = []\<rparr>" 1]
  show ?thesis by simp
qed



text \<open>
  The country that is reported as the nearest one has a relay that no relay of the list is
  nearer than.
\<close>

theorem nearest_country_is_nearest:
  assumes "get_nearest_country_with_relay l origin = Some code" and "r \<in> set (relays l)"
  shows "\<exists>country \<in> set (rs_countries l). cn_code country = code \<and>
    (\<exists>city \<in> set (cn_cities country). \<exists>nearest \<in> set (ci_relays city).
       distance_from (rl_location nearest) origin \<le> distance_from (rl_location r) origin)"
  using nearest_country [OF assms] by (fastforce simp: country_relays_def)

theorem nearest_country_is_nearest_witness:
  "get_nearest_country_with_relay (sample_list [sample_relay ''a'' 7]) (coordinates_of stockholm) = Some ''se'' \<and>
   (\<exists>country \<in> set (rs_countries (sample_list [sample_relay ''a'' 7])). cn_code country = ''se'' \<and>
      (\<exists>city \<in> set (cn_cities country). \<exists>nearest \<in> set (ci_relays city).
         distance_from (rl_location nearest) (coordinates_of stockholm) \<le>
         distance_from (rl_location (sample_relay ''a'' 7)) (coordinates_of stockholm)))"
proof -
  have "get_nearest_country_with_relay (sample_list [sample_relay ''a'' 7]) (coordinates_of stockholm) = Some ''se''"
    by (simp add: get_nearest_country_with_relay_def sample_list_def visit_relay_def nearer_def)
  with nearest_country_is_nearest [OF this, of "sample_relay ''a'' 7"] show ?thesis
    by (simp only: sample_relays list.set insert_iff simp_thms)
qed

section \<open>Merging\<close>

lemma filter_kept_by_merge:
  assumes "only_if_equal a b = Some c"
  shows "constraint_matches f c x \<longleftrightarrow> constraint_matches f a x \<and> constraint_matches f b x"
  using assms by (cases a; cases b) (auto simp: intersection_partialeq_def split: if_splits)

lemma location_kept_by_merge:
  assumes "only_if_equal a b = Some c"
  shows "filter_on_location (resolve_location c clists) r \<longleftrightarrow>
    filter_on_location (resolve_location a clists) r \<and> filter_on_location (resolve_location b clists) r"
  using assms
  by (cases a; cases b) (auto simp: intersection_partialeq_def filter_on_location_def resolve_location_def split: if_splits)

lemma daita_kept_by_merge:
  assumes "only_if_equal a b = Some c"
  shows "filter_on_daita c r \<longleftrightarrow> filter_on_daita a r \<and> filter_on_daita b r"
  using assms
  by (cases a; cases b) (auto simp: intersection_partialeq_def filter_on_daita_def split: if_splits)

text \<open>
  Merging queries is conjunction: apart from obfuscation, the relays that match a merged query
  are those that match both of the queries it is made from.
\<close>

theorem merging_is_conjunction:
  assumes "query_intersection a b = Some m"
    and "wq_obfuscation (rq_wireguard_constraints a) = ObfAuto" and "wq_obfuscation (rq_wireguard_constraints b) = ObfAuto"
  shows "filter_matching_relay_list_include_all m parsed clists =
    filter (\<lambda>r. r \<in> set (filter_matching_relay_list_include_all b parsed clists))
      (filter_matching_relay_list_include_all a parsed clists)"
proof -
  have fields: "only_if_equal (rq_location a) (rq_location b) = Some (rq_location m)"
    "only_if_equal (rq_ownership a) (rq_ownership b) = Some (rq_ownership m)"
    "only_if_equal (rq_providers a) (rq_providers b) = Some (rq_providers m)"
    "only_if_equal (wq_daita (rq_wireguard_constraints a)) (wq_daita (rq_wireguard_constraints b)) =
      Some (wq_daita (rq_wireguard_constraints m))"
    "rq_tunnel_protocol m = rq_tunnel_protocol a" "rq_tunnel_protocol m = rq_tunnel_protocol b"
    "wq_obfuscation (rq_wireguard_constraints m) = ObfAuto"
    using assms
    by (auto simp: query_intersection_def wireguard_query_intersection_def bind_eq_Some_conv
        intersection_partialeq_def split: if_splits)
  have obfuscation: "filter_on_obfuscation w parsed r" if "wq_obfuscation w = ObfAuto" for w r
    using that by (simp add: filter_on_obfuscation_def split: option.splits)
  have "relay_matches m parsed clists r \<longleftrightarrow> relay_matches a parsed clists r \<and> relay_matches b parsed clists r" for r
    using fields(5,6) assms(2,3) fields(7)
    by (auto simp: relay_matches_def obfuscation location_kept_by_merge [OF fields(1)]
        filter_on_ownership_def filter_kept_by_merge [OF fields(2)]
        filter_on_providers_def filter_kept_by_merge [OF fields(3)] daita_kept_by_merge [OF fields(4)])
  then show ?thesis
    by (auto simp: include_all_eq intro!: filter_cong)
qed

theorem merging_is_conjunction_witness:
  "query_intersection (build builder_wireguard) sample_query = Some sample_query \<and>
   filter_matching_relay_list_include_all sample_query (sample_list [sample_relay ''a'' 7]) [] =
     filter (\<lambda>r. r \<in> set (filter_matching_relay_list_include_all sample_query (sample_list [sample_relay ''a'' 7]) []))
       (filter_matching_relay_list_include_all (build builder_wireguard) (sample_list [sample_relay ''a'' 7]) [])"
proof -
  have "query_intersection (build builder_wireguard) sample_query = Some sample_query"
    and "wq_obfuscation (rq_wireguard_constraints (build builder_wireguard)) = ObfAuto"
    and "wq_obfuscation (rq_wireguard_constraints sample_query) = ObfAuto"
    by (simp_all add: builder_defs query_default_defs query_intersection_def wireguard_query_intersection_def
        openvpn_query_intersection_def intersection_partialeq_def sample_query_def)
  with merging_is_conjunction show ?thesis by blast
qed

section \<open>Departures\<close>

text \<open>
  \<^verbatim>\<open>constraints/mod.rs\<close> asks intersections to be idempotent and associative. That of obfuscation
  queries is neither. A user who chose QUIC or LWO therefore never gets the entry of the retry
  order that asks for the same.
\<close>

lemma obfuscation_not_idempotent:
  "obfuscation_intersection q q = None \<longleftrightarrow> q = ObfQuic \<or> q = ObfLwo"
  by (cases q) (auto simp: udp2tcp_settings_intersection_def shadowsocks_settings_intersection_def simple.idem)

lemma obfuscation_not_associative:
  "Option.bind (obfuscation_intersection ObfOff (ObfUdp2tcp s)) (\<lambda>q. obfuscation_intersection q ObfQuic) = Some ObfOff \<and>
   Option.bind (obfuscation_intersection (ObfUdp2tcp s) ObfQuic) (\<lambda>q. obfuscation_intersection ObfOff q) = None"
  by simp

lemma quic_retry_dropped:
  assumes "wq_obfuscation (rq_wireguard_constraints user) = ObfQuic"
  shows "query_intersection (WIREGUARD_RETRY_ORDER ! 3) user = None"
  using assms
  by (cases "query_intersection (WIREGUARD_RETRY_ORDER ! 3) user")
    (auto simp: WIREGUARD_RETRY_ORDER_def builder_defs query_default_defs query_intersection_def
      wireguard_query_intersection_def bind_eq_Some_conv)

text \<open>
  A query for QUIC with no preference for an address family lets a relay through whose QUIC
  addresses are all IPv6; the obfuscator is then looked for among the IPv4 addresses, none is
  found, and the relay is used without obfuscation.
\<close>

lemma quic_silently_dropped:
  assumes "relay_wireguard r = Some data" and "wr_quic data = Some quic" and "quic_in_ipv4 quic = []"
    and "wq_obfuscation w = ObfQuic" and "wq_ip_version w = Any"
  shows "filter_on_obfuscation w parsed r \<and>
    get_wireguard_obfuscator staggered (query\<lparr>rq_wireguard_constraints := w\<rparr>) (Singlehop r) e parsed = ok None"
  using assms
  by (simp add: filter_on_obfuscation_def get_wireguard_obfuscator_def get_quic_obfuscator_def choose_one_def)

text \<open>
  With DAITA and automatic multihop the exit is itself among the candidates for the entry, at
  distance zero. If no other candidate is at the same place, the selection of an entry fails, though
  there may be candidates elsewhere.
\<close>

lemma auto_multihop_lone_exit:
  assumes wg: "rq_tunnel_protocol query = TypeWireguard"
    and exits: "\<forall>r \<in> set (relays parsed). relay_matches (exit_query query) parsed clists r \<longrightarrow> r = x"
    and x: "x \<in> set (relays parsed)" "relay_matches (query\<lparr>rq_location := Any\<rparr>) parsed clists x"
    and others: "\<forall>r \<in> set (relays parsed). relay_matches (query\<lparr>rq_location := Any\<rparr>) parsed clists r \<longrightarrow>
      r = x \<or> 0 < distance_from (rl_location r) (coordinates_of (rl_location x))"
  shows "outcomes (get_wireguard_auto_multihop_config query clists parsed) (\<lambda>_. False) (\<lambda>_. True)"
proof -
  let ?all = "filter (relay_matches (query\<lparr>rq_location := Any\<rparr>) parsed clists) (relays parsed)"
  have candidates: "filter_matching_relay_list (query\<lparr>rq_location := Any\<rparr>) parsed clists = ok ?all"
    by (simp add: filter_matching_relay_list_def filter_on_include_in_country_def resolve_location_def include_all_eq)
  have only_x: "{r \<in> set ?all. nearest (coordinates_of (rl_location x)) ?all r} \<subseteq> {x}"
    using x others by (force simp: nearest_def distance_from_self)
  have entry: "outcomes (sel_bind (closest_relays ?all (coordinates_of (rl_location x))) (\<lambda>entries.
      sel_bind (pick_random_relay_excluding entries x) (\<lambda>picked.
      sel_bind (ok_or picked e) (\<lambda>entry. multihop_new entry x)))) (\<lambda>_. False) (\<lambda>_. True)" for e
    by (rule outcomes_bind [OF outcomes_closest], rule outcomes_bind [where Q = "\<lambda>picked. picked = None"])
      (use only_x in \<open>auto intro!: outcomes_pick_excluding outcomes_err simp: relay_eq_def\<close>)
  show ?thesis
    unfolding get_wireguard_auto_multihop_config_def exit_query_ok [OF wg] lift_result_simps sel_bind_simps
    by (rule outcomes_bind [OF outcomes_matching],
        rule outcomes_bind [where Q = "\<lambda>p. \<forall>r. p = Some r \<longrightarrow> r = x"])
      (use exits in \<open>auto simp: wireguard_valid wg candidates intro!: outcomes_pick outcomes_ok_or entry
        outcomes_bind [where Q = "\<lambda>r. r = x"]\<close>)
qed

end
