(* ===== verification/Connectivity.thy ===== *)
theory Connectivity
  imports Net_Types
begin

text \<open>
  The connectivity monitor of WireGuard tunnels: \<^verbatim>\<open>check.rs\<close>, \<^verbatim>\<open>monitor.rs\<close> and
  \<^verbatim>\<open>constants.rs\<close> of \<^verbatim>\<open>talpid-wireguard/src/connectivity\<close>. What happens outside is an
  argument: a tick holds all that one pass of the monitor's loop reads, the clock for every call
  that reads it, the statistics of the tunnel and the result of sending a ping. Instants and
  durations are counted in nanoseconds. The result \<^const>\<open>None\<close> stands for a panic.
\<close>

section \<open>Constants\<close>

abbreviation from_secs :: "nat \<Rightarrow> nat" where
  "from_secs s \<equiv> s * 1000000000"

definition BYTES_RX_TIMEOUT :: nat where
  "BYTES_RX_TIMEOUT = from_secs 5"

definition TRAFFIC_TIMEOUT :: nat where
  "TRAFFIC_TIMEOUT = from_secs 120"

definition PING_TIMEOUT :: nat where
  "PING_TIMEOUT = from_secs 15"

definition ESTABLISH_TIMEOUT :: nat where
  "ESTABLISH_TIMEOUT = from_secs 4"

definition ESTABLISH_TIMEOUT_MULTIPLIER :: nat where
  "ESTABLISH_TIMEOUT_MULTIPLIER = 2"

definition MAX_ESTABLISH_TIMEOUT :: nat where
  "MAX_ESTABLISH_TIMEOUT = PING_TIMEOUT"

definition SECONDS_PER_PING :: nat where
  "SECONDS_PER_PING = from_secs 3"

definition SUSPEND_TIMEOUT :: nat where
  "SUSPEND_TIMEOUT = from_secs 6"

lemmas timeout_defs = BYTES_RX_TIMEOUT_def TRAFFIC_TIMEOUT_def PING_TIMEOUT_def SECONDS_PER_PING_def
  SUSPEND_TIMEOUT_def

section \<open>Statistics\<close>

record stats =
  st_tx_bytes :: u64
  st_rx_bytes :: u64
  st_last_handshake_time :: "nat option"

text \<open>\<^verbatim>\<open>StatsMap\<close>: what the tunnel has sent to and received from each peer.\<close>

type_synonym stats_map = "(u8 list \<times> stats) list"

definition sum_tx_bytes :: "stats_map \<Rightarrow> u64" where
  "sum_tx_bytes m = sum_list (map (st_tx_bytes \<circ> snd) m)"

section \<open>The state of a connection\<close>

datatype conn_state =
  Connecting (conn_start: nat) (conn_stats: stats_map) "nat option"
| Connected (conn_rx: nat) (conn_tx: nat) (conn_stats: stats_map)

definition conn_state_new :: "nat \<Rightarrow> stats_map \<Rightarrow> conn_state" where
  "conn_state_new start stats = Connecting start stats None"

definition rx_incremented :: "stats_map \<Rightarrow> stats_map \<Rightarrow> bool" where
  "rx_incremented stats new_stats =
     list_all (\<lambda>(key, peer_stats).
       case map_of new_stats key of
         Some new_peer_stats \<Rightarrow> st_rx_bytes peer_stats < st_rx_bytes new_peer_stats
       | None \<Rightarrow> False) stats"

fun conn_state_update :: "nat \<Rightarrow> stats_map \<Rightarrow> conn_state \<Rightarrow> bool \<times> conn_state" where
  "conn_state_update now new_stats (Connecting start stats tx_timestamp) =
     (if new_stats \<noteq> [] \<and> list_all (\<lambda>(key, s). 0 < st_rx_bytes s) new_stats
      then (True, Connected now (case tx_timestamp of Some t \<Rightarrow> t | None \<Rightarrow> start) new_stats)
      else if sum_tx_bytes stats < sum_tx_bytes new_stats
      then (False, Connecting start new_stats (Some now))
      else (False, Connecting start stats tx_timestamp))"
| "conn_state_update now new_stats (Connected rx_timestamp tx_timestamp stats) =
     (rx_incremented stats new_stats,
      Connected (if rx_incremented stats new_stats then now else rx_timestamp)
        (if sum_tx_bytes stats < sum_tx_bytes new_stats then now else tx_timestamp)
        new_stats)"

fun reset_after_suspension :: "nat \<Rightarrow> conn_state \<Rightarrow> conn_state" where
  "reset_after_suspension now (Connected rx_timestamp tx_timestamp stats) = Connected now tx_timestamp stats"
| "reset_after_suspension now conn = conn"

text \<open>\<^verbatim>\<open>Instant::elapsed\<close>, with what the clock shows when it is called.\<close>

definition elapsed :: "nat \<Rightarrow> nat \<Rightarrow> nat" where
  "elapsed clock timestamp = clock - timestamp"

fun rx_timed_out :: "nat \<Rightarrow> conn_state \<Rightarrow> bool" where
  "rx_timed_out clock (Connecting start _ _) = (BYTES_RX_TIMEOUT \<le> elapsed clock start)"
| "rx_timed_out clock (Connected rx_timestamp tx_timestamp _) =
     (rx_timestamp \<le> tx_timestamp \<and> BYTES_RX_TIMEOUT \<le> elapsed clock rx_timestamp)"

fun traffic_timed_out :: "nat \<Rightarrow> nat \<Rightarrow> conn_state \<Rightarrow> bool" where
  "traffic_timed_out clock clock' (Connecting start stats tx_timestamp) =
     rx_timed_out clock (Connecting start stats tx_timestamp)"
| "traffic_timed_out clock clock' (Connected rx_timestamp tx_timestamp _) =
     (TRAFFIC_TIMEOUT \<le> elapsed clock rx_timestamp \<or> TRAFFIC_TIMEOUT \<le> elapsed clock' tx_timestamp)"

definition connected :: "conn_state \<Rightarrow> bool" where
  "connected conn = (case conn of Connected _ _ _ \<Rightarrow> True | Connecting _ _ _ \<Rightarrow> False)"

section \<open>Pings\<close>

record ping_state =
  ps_initial_ping_timestamp :: "nat option"
  ps_num_pings_sent :: u32

definition ping_state_new :: ping_state where
  "ping_state_new = \<lparr>ps_initial_ping_timestamp = None, ps_num_pings_sent = 0\<rparr>"

definition ping_timed_out :: "nat \<Rightarrow> nat \<Rightarrow> ping_state \<Rightarrow> bool" where
  "ping_timed_out clock timeout ping =
     (case ps_initial_ping_timestamp ping of
        Some initial_ping_timestamp \<Rightarrow> timeout < elapsed clock initial_ping_timestamp
      | None \<Rightarrow> False)"

definition ping_state_reset :: "ping_state \<Rightarrow> ping_state" where
  "ping_state_reset ping = ping\<lparr>ps_initial_ping_timestamp := None, ps_num_pings_sent := 0\<rparr>"

record ('e, 'p) tick =
  tk_closed :: bool
  tk_now :: nat
  tk_tunnel :: bool
  tk_check_now :: nat
  tk_stats :: "('e, stats_map) result"
  tk_clock :: "nat \<Rightarrow> nat"
  tk_ping :: "('p, unit) result"

datatype ('e, 'p) conn_error = ConfigReadError 'e | PingError 'p

text \<open>Dividing a duration by zero panics.\<close>

definition ping_due :: "nat \<Rightarrow> ping_state \<Rightarrow> bool option" where
  "ping_due clock ping =
     (case ps_initial_ping_timestamp ping of
        None \<Rightarrow> Some True
      | Some initial_ping_timestamp \<Rightarrow>
          if ps_num_pings_sent ping = 0 then None
          else Some (elapsed clock initial_ping_timestamp div unat (ps_num_pings_sent ping) < SECONDS_PER_PING))"

definition maybe_send_ping ::
  "('e, 'p) tick \<Rightarrow> conn_state \<Rightarrow> nat \<Rightarrow> ping_state \<Rightarrow>
   ((('e, 'p) conn_error, unit) result \<times> ping_state) option" where
  "maybe_send_ping t conn now ping =
     (if rx_timed_out (tk_clock t 0) conn \<or> traffic_timed_out (tk_clock t 1) (tk_clock t 2) conn
      then case ping_due (tk_clock t 3) ping of
             None \<Rightarrow> None
           | Some False \<Rightarrow> Some (Inr (), ping)
           | Some True \<Rightarrow>
               (case tk_ping t of
                  Inl e \<Rightarrow> Some (Inl (PingError e), ping)
                | Inr _ \<Rightarrow>
                    Some (Inr (), ping\<lparr>ps_initial_ping_timestamp :=
                        (case ps_initial_ping_timestamp ping of None \<Rightarrow> Some now | Some p \<Rightarrow> Some p),
                      ps_num_pings_sent := ps_num_pings_sent ping + 1\<rparr>))
      else Some (Inr (), ping))"

section \<open>Checks\<close>

record check =
  ck_conn_state :: conn_state
  ck_ping_state :: ping_state

definition check_reset :: "nat \<Rightarrow> check \<Rightarrow> check" where
  "check_reset current_iteration c =
     \<lparr>ck_conn_state = reset_after_suspension current_iteration (ck_conn_state c),
      ck_ping_state = ping_state_reset (ck_ping_state c)\<rparr>"

text \<open>\<^verbatim>\<open>get_stats\<close>: no statistics mean that the tunnel has been closed.\<close>

definition get_stats :: "('e, 'p) tick \<Rightarrow> ('e, stats_map option) result" where
  "get_stats t =
     (case tk_stats t of
        Inl e \<Rightarrow> Inl e
      | Inr stats \<Rightarrow> Inr (if stats = [] then None else Some stats))"

definition check_connectivity_interval ::
  "('e, 'p) tick \<Rightarrow> nat \<Rightarrow> check \<Rightarrow> ((('e, 'p) conn_error, bool) result \<times> check) option" where
  "check_connectivity_interval t timeout c =
     (case get_stats t of
        Inl e \<Rightarrow> Some (Inl (ConfigReadError e), c)
      | Inr None \<Rightarrow> Some (Inr False, c)
      | Inr (Some new_stats) \<Rightarrow>
          (case conn_state_update (tk_check_now t) new_stats (ck_conn_state c) of
             (True, conn) \<Rightarrow>
               Some (Inr True, \<lparr>ck_conn_state = conn, ck_ping_state = ping_state_reset (ck_ping_state c)\<rparr>)
           | (False, conn) \<Rightarrow>
               (case maybe_send_ping t conn (tk_check_now t) (ck_ping_state c) of
                  None \<Rightarrow> None
                | Some (Inl e, ping) \<Rightarrow> Some (Inl e, \<lparr>ck_conn_state = conn, ck_ping_state = ping\<rparr>)
                | Some (Inr _, ping) \<Rightarrow>
                    Some (Inr (\<not> ping_timed_out (tk_clock t 4) timeout ping \<and> connected conn),
                          \<lparr>ck_conn_state = conn, ck_ping_state = ping\<rparr>))))"

definition check_connectivity ::
  "('e, 'p) tick \<Rightarrow> check \<Rightarrow> ((('e, 'p) conn_error, bool) result \<times> check) option" where
  "check_connectivity t = check_connectivity_interval t PING_TIMEOUT"

text \<open>How long to wait for the first traffic; the arithmetic of durations and of the factor saturates.\<close>

definition establish_check_timeout :: "nat \<Rightarrow> nat \<Rightarrow> nat \<Rightarrow> u32 \<Rightarrow> nat" where
  "establish_check_timeout timeout_initial timeout_multiplier max_timeout retry_attempt =
     min max_timeout (timeout_initial * min (timeout_multiplier ^ unat retry_attempt) (2 ^ 32 - 1))"

text \<open>
  Establishing a connection: the polling, the cancel signal and the timer race, and the first of them
  to finish decides. The events are in the order in which they happen; while they last, the operation
  is still under way.
\<close>

datatype ('e, 'p) establish_event = PollStats "('e, 'p) tick" | CancelSignal | TimeoutHit

datatype ('e, 'p) establish_end =
  Establishing check
| EstablishReturned "(('e, 'p) conn_error, bool) result" check
| EstablishPanicked

fun poll_check :: "nat \<Rightarrow> check \<Rightarrow> ('e, 'p) establish_event list \<Rightarrow> ('e, 'p) establish_end" where
  "poll_check check_timeout c [] = Establishing c"
| "poll_check check_timeout c (PollStats t # es) =
     (case check_connectivity_interval t check_timeout c of
        None \<Rightarrow> EstablishPanicked
      | Some (Inl e, c) \<Rightarrow> EstablishReturned (Inl e) c
      | Some (Inr True, c) \<Rightarrow> EstablishReturned (Inr True) c
      | Some (Inr False, c) \<Rightarrow> poll_check check_timeout c es)"
| "poll_check check_timeout c (CancelSignal # es) = EstablishReturned (Inr False) c"
| "poll_check check_timeout c (TimeoutHit # es) = EstablishReturned (Inr False) c"

definition establish_connectivity_inner ::
  "u32 \<Rightarrow> nat \<Rightarrow> nat \<Rightarrow> nat \<Rightarrow> check \<Rightarrow> ('e, 'p) establish_event list \<Rightarrow> ('e, 'p) establish_end" where
  "establish_connectivity_inner retry_attempt timeout_initial timeout_multiplier max_timeout c es =
     (if connected (ck_conn_state c) then EstablishReturned (Inr True) c
      else poll_check (establish_check_timeout timeout_initial timeout_multiplier max_timeout retry_attempt) c es)"

definition establish_connectivity ::
  "('p, unit) result \<Rightarrow> u32 \<Rightarrow> check \<Rightarrow> ('e, 'p) establish_event list \<Rightarrow> ('e, 'p) establish_end" where
  "establish_connectivity send_icmp retry_attempt c es =
     (case send_icmp of
        Inl e \<Rightarrow> EstablishReturned (Inl (PingError e)) c
      | Inr _ \<Rightarrow>
          establish_connectivity_inner retry_attempt ESTABLISH_TIMEOUT ESTABLISH_TIMEOUT_MULTIPLIER
            MAX_ESTABLISH_TIMEOUT c es)"

definition check_new :: "nat \<Rightarrow> check" where
  "check_new now = \<lparr>ck_conn_state = conn_state_new now [], ck_ping_state = ping_state_new\<rparr>"

section \<open>The monitor\<close>

definition tunnel_exists_and_is_connected ::
  "('e, 'p) tick \<Rightarrow> check \<Rightarrow> ((('e, 'p) conn_error, bool) result \<times> check) option" where
  "tunnel_exists_and_is_connected t c =
     (if \<not> tk_tunnel t then Some (Inr False, c) else check_connectivity t c)"

datatype ('e, 'p) monitor_end =
  Running check nat
| Returned "(('e, 'p) conn_error, unit) result"
| Panicked

fun monitor_run :: "check \<Rightarrow> nat \<Rightarrow> ('e, 'p) tick list \<Rightarrow> ('e, 'p) monitor_end" where
  "monitor_run c last_check [] = Running c last_check"
| "monitor_run c last_check (t # ts) =
     (if tk_closed t then Returned (Inr ())
      else if SUSPEND_TIMEOUT \<le> tk_now t - last_check
      then monitor_run (check_reset (tk_now t) c) (tk_now t) ts
      else case tunnel_exists_and_is_connected t c of
             None \<Rightarrow> Panicked
           | Some (Inl e, _) \<Rightarrow> Returned (Inl e)
           | Some (Inr False, _) \<Rightarrow> Returned (Inr ())
           | Some (Inr True, c) \<Rightarrow> monitor_run c (tk_now t) ts)"

section \<open>Runs of the monitor\<close>

text \<open>
  The assumptions on a run: the clock does not go back, the passes are not so far apart that the
  host seems to have been suspended, and the tunnel is there, gives statistics and takes pings.
\<close>

fun clock_ordered :: "nat \<Rightarrow> ('e, 'p) tick list \<Rightarrow> bool" where
  "clock_ordered clock [] \<longleftrightarrow> True"
| "clock_ordered clock (t # ts) \<longleftrightarrow>
     clock \<le> tk_now t \<and> tk_now t \<le> tk_check_now t \<and> tk_check_now t \<le> tk_clock t 0 \<and>
     tk_clock t 0 \<le> tk_clock t 1 \<and> tk_clock t 1 \<le> tk_clock t 2 \<and> tk_clock t 2 \<le> tk_clock t 3 \<and>
     tk_clock t 3 \<le> tk_clock t 4 \<and> clock_ordered (tk_clock t 4) ts"

fun awake :: "nat \<Rightarrow> ('e, 'p) tick list \<Rightarrow> bool" where
  "awake last_check [] \<longleftrightarrow> True"
| "awake last_check (t # ts) \<longleftrightarrow> tk_now t - last_check < SUSPEND_TIMEOUT \<and> awake (tk_now t) ts"

definition stats_of :: "('e, 'p) tick \<Rightarrow> stats_map" where
  "stats_of t = (case tk_stats t of Inr s \<Rightarrow> s | Inl _ \<Rightarrow> [])"

definition healthy :: "('e, 'p) tick \<Rightarrow> bool" where
  "healthy t \<longleftrightarrow> \<not> tk_closed t \<and> tk_tunnel t \<and> tk_stats t = Inr (stats_of t) \<and> stats_of t \<noteq> [] \<and> tk_ping t = Inr ()"

text \<open>In pass \<open>i\<close> every peer has received more than in the one before.\<close>

definition traffic_seen :: "stats_map \<Rightarrow> ('e, 'p) tick list \<Rightarrow> nat \<Rightarrow> bool" where
  "traffic_seen st ts i \<longleftrightarrow>
     rx_incremented (if i = 0 then st else stats_of (ts ! (i - 1))) (stats_of (ts ! i))"

lemma traffic_seen_Cons:
  "traffic_seen st (t # ts) 0 = rx_incremented st (stats_of t)"
  "traffic_seen st (t # ts) (Suc i) = traffic_seen (stats_of t) ts i"
  by (auto simp: traffic_seen_def nth_Cons')

text \<open>
  A check of an established connection: pings are counted from the first one on, and it was sent
  after the last traffic.
\<close>

definition check_inv :: "nat \<Rightarrow> nat \<Rightarrow> stats_map \<Rightarrow> nat \<Rightarrow> check \<Rightarrow> bool" where
  "check_inv clock rx st pings c \<longleftrightarrow>
     (\<exists>tx. ck_conn_state c = Connected rx tx st) \<and> rx \<le> clock \<and>
     unat (ps_num_pings_sent (ck_ping_state c)) \<le> pings \<and>
     (\<forall>p. ps_initial_ping_timestamp (ck_ping_state c) = Some p \<longrightarrow>
        rx \<le> p \<and> p \<le> clock \<and> 0 < unat (ps_num_pings_sent (ck_ping_state c)))"

lemma check_inv_later: "check_inv clock rx st pings c \<Longrightarrow> clock \<le> clock' \<Longrightarrow> pings \<le> pings' \<Longrightarrow> check_inv clock' rx st pings' c"
  by (fastforce simp: check_inv_def)

lemma unat_Suc: "unat n < 2 ^ 32 - 1 \<Longrightarrow> unat (n + 1) = Suc (unat n)" for n :: u32
  by (simp add: unat_word_ariths)

lemma ping_due_Some:
  "check_inv clock rx st pings c \<Longrightarrow> \<exists>b. ping_due clock' (ck_ping_state c) = Some b"
  by (auto simp: check_inv_def ping_due_def split: option.splits)

text \<open>One check without traffic: it does not fail, and its verdict is that of the time since the first ping.\<close>

lemma quiet_ping:
  assumes "check_inv clock rx st pings c" and "pings < 2 ^ 32 - 1" and "healthy t"
    and "clock \<le> tk_check_now t"
  shows "\<exists>ping. maybe_send_ping t conn (tk_check_now t) (ck_ping_state c) = Some (Inr (), ping) \<and>
    check_inv (tk_check_now t) rx st (Suc pings) (c\<lparr>ck_ping_state := ping\<rparr>)"
proof -
  obtain b where b: "ping_due (tk_clock t 3) (ck_ping_state c) = Some b"
    using ping_due_Some [OF assms(1)] by blast
  have n: "unat (ps_num_pings_sent (ck_ping_state c)) < 2 ^ 32 - 1"
    using assms(1,2) by (auto simp: check_inv_def)
  have same: "check_inv (tk_check_now t) rx st (Suc pings) c"
    by (rule check_inv_later [OF assms(1,4)]) simp
  show ?thesis
  proof (cases "b \<and> (rx_timed_out (tk_clock t 0) conn \<or> traffic_timed_out (tk_clock t 1) (tk_clock t 2) conn)")
    case True
    have "check_inv (tk_check_now t) rx st (Suc pings) (c\<lparr>ck_ping_state := (ck_ping_state c)\<lparr>
        ps_initial_ping_timestamp := (case ps_initial_ping_timestamp (ck_ping_state c) of
          None \<Rightarrow> Some (tk_check_now t) | Some p \<Rightarrow> Some p),
        ps_num_pings_sent := ps_num_pings_sent (ck_ping_state c) + 1\<rparr>\<rparr>)"
      using assms(1,4) unat_Suc [OF n]
      by (auto simp: check_inv_def split: option.splits)
    with True b assms(3) show ?thesis
      by (auto simp: maybe_send_ping_def healthy_def)
  next
    case False
    with b same show ?thesis
      by (auto simp: maybe_send_ping_def intro!: exI [of _ "ck_ping_state c"])
  qed
qed

lemma get_stats_healthy: "healthy t \<Longrightarrow> get_stats t = Inr (Some (stats_of t))"
  by (simp add: healthy_def get_stats_def)

lemma quiet_check:
  assumes "check_inv clock rx st pings c" and "pings < 2 ^ 32 - 1" and "healthy t"
    and "clock \<le> tk_check_now t" and "\<not> rx_incremented st (stats_of t)"
  shows "\<exists>c'. check_connectivity t c =
      Some (Inr (\<not> ping_timed_out (tk_clock t 4) PING_TIMEOUT (ck_ping_state c')), c') \<and>
    check_inv (tk_check_now t) rx (stats_of t) (Suc pings) c'"
proof -
  obtain tx where conn: "ck_conn_state c = Connected rx tx st"
    using assms(1) by (auto simp: check_inv_def)
  define conn' where
    "conn' = Connected rx (if sum_tx_bytes st < sum_tx_bytes (stats_of t) then tk_check_now t else tx) (stats_of t)"
  have upd: "conn_state_update (tk_check_now t) (stats_of t) (ck_conn_state c) = (False, conn')"
    and is_conn: "connected conn'"
    using assms(5) by (simp_all add: conn conn'_def connected_def)
  obtain ping where ping: "maybe_send_ping t conn' (tk_check_now t) (ck_ping_state c) = Some (Inr (), ping)"
    and inv: "check_inv (tk_check_now t) rx st (Suc pings) (c\<lparr>ck_ping_state := ping\<rparr>)"
    using quiet_ping [OF assms(1-4)] by blast
  have "check_connectivity t c = Some (Inr (\<not> ping_timed_out (tk_clock t 4) PING_TIMEOUT ping),
      \<lparr>ck_conn_state = conn', ck_ping_state = ping\<rparr>)"
    by (simp add: check_connectivity_def check_connectivity_interval_def get_stats_healthy [OF assms(3)] upd ping is_conn)
  moreover have "check_inv (tk_check_now t) rx (stats_of t) (Suc pings) \<lparr>ck_conn_state = conn', ck_ping_state = ping\<rparr>"
    using inv by (auto simp: check_inv_def conn'_def)
  ultimately show ?thesis by auto
qed

lemma traffic_check:
  assumes "check_inv clock rx st pings c" and "healthy t" and "rx_incremented st (stats_of t)"
  shows "\<exists>c'. check_connectivity t c = Some (Inr True, c') \<and>
    check_inv (tk_check_now t) (tk_check_now t) (stats_of t) 0 c'"
  using assms
  by (auto simp: check_connectivity_def check_connectivity_interval_def get_stats_healthy check_inv_def
      ping_state_reset_def)

lemma timed_out_after_silence:
  assumes "check_inv clock rx st pings c" and "ping_timed_out clock' timeout (ck_ping_state c)"
  shows "rx + timeout < clock'"
  using assms by (auto simp: check_inv_def ping_timed_out_def elapsed_def split: option.splits)

text \<open>
  The monitor gives up in pass \<open>k\<close>: \<^const>\<open>PING_TIMEOUT\<close> has gone by since \<open>rx\<close> and since every pass
  that saw traffic.
\<close>

definition silent_since :: "nat \<Rightarrow> stats_map \<Rightarrow> ('e, 'p) tick list \<Rightarrow> nat \<Rightarrow> bool" where
  "silent_since rx st ts k \<longleftrightarrow> k < length ts \<and> rx + PING_TIMEOUT < tk_clock (ts ! k) 4 \<and>
     (\<forall>i \<le> k. traffic_seen st ts i \<longrightarrow> tk_check_now (ts ! i) + PING_TIMEOUT < tk_clock (ts ! k) 4)"

lemma silent_since_Cons:
  assumes "silent_since rx' (stats_of t) ts k" and "rx \<le> rx'"
    and "rx_incremented st (stats_of t) \<Longrightarrow> rx' = tk_check_now t"
  shows "silent_since rx st (t # ts) (Suc k)"
  unfolding silent_since_def
proof (intro conjI allI impI)
  fix i
  assume "i \<le> Suc k" and "traffic_seen st (t # ts) i"
  then show "tk_check_now ((t # ts) ! i) + PING_TIMEOUT < tk_clock ((t # ts) ! Suc k) 4"
    using assms by (cases i) (auto simp: traffic_seen_Cons silent_since_def)
qed (use assms in \<open>auto simp: silent_since_def\<close>)

lemma silent_since_first:
  "rx + PING_TIMEOUT < tk_clock t 4 \<Longrightarrow> \<not> rx_incremented st (stats_of t) \<Longrightarrow> silent_since rx st (t # ts) 0"
  by (simp add: silent_since_def traffic_seen_Cons)

lemma monitor_run_awake:
  assumes "healthy t" and "tk_now t - last_check < SUSPEND_TIMEOUT"
  shows "monitor_run c last_check (t # ts) = (case check_connectivity t c of
      None \<Rightarrow> Panicked | Some (Inl e, _) \<Rightarrow> Returned (Inl e) | Some (Inr False, _) \<Rightarrow> Returned (Inr ())
    | Some (Inr True, c) \<Rightarrow> monitor_run c (tk_now t) ts)"
  using assms by (simp add: healthy_def tunnel_exists_and_is_connected_def)

lemma monitor_silence:
  assumes "check_inv clock rx st pings c" and "pings + length ts < 2 ^ 32 - 1"
    and "\<forall>t \<in> set ts. healthy t" and "clock_ordered clock ts" and "awake last_check ts"
  shows "(\<exists>c' last_check'. monitor_run c last_check ts = Running c' last_check') \<or>
    monitor_run c last_check ts = Returned (Inr ()) \<and> (\<exists>k. silent_since rx st ts k)"
  using assms
proof (induction ts arbitrary: clock rx st pings c last_check)
  case Nil
  then show ?case by simp
next
  case (Cons t ts)
  have t: "healthy t" "clock \<le> tk_check_now t" "tk_check_now t \<le> tk_clock t 4" "tk_now t - last_check < SUSPEND_TIMEOUT"
    using Cons.prems(3-5) by auto
  note step = monitor_run_awake [OF t(1,4), of c ts]
  have goes_on: "?case" if c': "check_connectivity t c = Some (Inr True, c')"
    and inv: "check_inv (tk_check_now t) rx' (stats_of t) pings' c'" and "pings' \<le> Suc pings" and "rx \<le> rx'"
    and "rx_incremented st (stats_of t) \<Longrightarrow> rx' = tk_check_now t" for c' rx' pings'
  proof -
    have "check_inv (tk_clock t 4) rx' (stats_of t) pings' c'"
      using check_inv_later [OF inv t(3)] by simp
    then have "(\<exists>c'' last_check'. monitor_run c' (tk_now t) ts = Running c'' last_check') \<or>
        monitor_run c' (tk_now t) ts = Returned (Inr ()) \<and> (\<exists>k. silent_since rx' (stats_of t) ts k)"
      by (rule Cons.IH) (use Cons.prems that(3) in auto)
    then show ?thesis
      unfolding step c' using silent_since_Cons [OF _ that(4,5)] by auto
  qed
  show ?case
  proof (cases "rx_incremented st (stats_of t)")
    case True
    then obtain c' where "check_connectivity t c = Some (Inr True, c')"
      and "check_inv (tk_check_now t) (tk_check_now t) (stats_of t) 0 c'"
      using traffic_check [OF Cons.prems(1) t(1)] by blast
    moreover have "rx \<le> tk_check_now t"
      using Cons.prems(1) t(2) by (auto simp: check_inv_def)
    ultimately show ?thesis by (intro goes_on) auto
  next
    case False
    then obtain c' where c': "check_connectivity t c =
        Some (Inr (\<not> ping_timed_out (tk_clock t 4) PING_TIMEOUT (ck_ping_state c')), c')"
      and inv: "check_inv (tk_check_now t) rx (stats_of t) (Suc pings) c'"
      using quiet_check [OF Cons.prems(1) _ t(1,2)] Cons.prems(2) by auto
    show ?thesis
    proof (cases "ping_timed_out (tk_clock t 4) PING_TIMEOUT (ck_ping_state c')")
      case True
      with silent_since_first [OF timed_out_after_silence [OF inv True] False] show ?thesis
        unfolding step c' by auto
    next
      case running: False
      with c' inv False show ?thesis by (intro goes_on) auto
    qed
  qed
qed

section \<open>How long a dead tunnel goes unnoticed\<close>

lemma ping_initial:
  assumes "maybe_send_ping t conn now ping = Some (Inr (), ping')"
  shows "case ps_initial_ping_timestamp ping of
      Some p \<Rightarrow> ps_initial_ping_timestamp ping' = Some p
    | None \<Rightarrow> ps_initial_ping_timestamp ping' =
        (if rx_timed_out (tk_clock t 0) conn \<or> traffic_timed_out (tk_clock t 1) (tk_clock t 2) conn
         then Some now else None)"
  using assms
  by (auto simp: maybe_send_ping_def ping_due_def split: if_splits option.splits bool.splits sum.splits)

text \<open>Pinging starts \<open>quiet\<close> after the last traffic, at the latest.\<close>

definition patience :: "nat \<Rightarrow> nat \<Rightarrow> nat" where
  "patience rx tx = (if rx \<le> tx then BYTES_RX_TIMEOUT else TRAFFIC_TIMEOUT)"

lemma patience_le: "patience rx tx \<le> TRAFFIC_TIMEOUT"
  by (simp add: patience_def timeout_defs)

lemma patience_mono: "rx \<le> tx \<Longrightarrow> patience rx tx \<le> patience rx tx'"
  by (simp add: patience_def timeout_defs)

lemma pings_after_patience:
  assumes "rx + patience rx tx \<le> tk_clock t 0" and "tk_clock t 0 \<le> tk_clock t 1"
  shows "rx_timed_out (tk_clock t 0) (Connected rx tx st) \<or>
    traffic_timed_out (tk_clock t 1) (tk_clock t 2) (Connected rx tx st)"
  using assms by (auto simp: patience_def elapsed_def split: if_splits)

text \<open>
  What is known of a run without traffic: before the first ping, the clock showed less than
  \<open>quiet\<close> after the last traffic in the latest pass; the first ping came at most a pass later.
\<close>

definition quiet_inv :: "nat \<Rightarrow> nat \<Rightarrow> nat \<Rightarrow> nat \<Rightarrow> check \<Rightarrow> bool" where
  "quiet_inv clock rx quiet gap c \<longleftrightarrow>
     (\<exists>tx st. ck_conn_state c = Connected rx tx st \<and> patience rx tx \<le> quiet) \<and>
     (case ps_initial_ping_timestamp (ck_ping_state c) of
        None \<Rightarrow> clock < rx + quiet
      | Some p \<Rightarrow> p < rx + quiet + gap)"

fun spaced :: "nat \<Rightarrow> nat \<Rightarrow> ('e, 'p) tick list \<Rightarrow> bool" where
  "spaced gap clock [] \<longleftrightarrow> True"
| "spaced gap clock (t # ts) \<longleftrightarrow> tk_clock t 4 \<le> clock + gap \<and> spaced gap (tk_clock t 0) ts"

lemma quiet_inv_check:
  assumes "check_inv clock rx st pings c" and "pings < 2 ^ 32 - 1" and "healthy t"
    and "clock \<le> tk_check_now t" and "\<not> rx_incremented st (stats_of t)"
    and "quiet_inv reading rx quiet gap c" and "tk_clock t 4 \<le> reading + gap"
    and "tk_check_now t \<le> tk_clock t 0" "tk_clock t 0 \<le> tk_clock t 1" "tk_clock t 0 \<le> tk_clock t 4"
  shows "\<exists>c'. check_connectivity t c =
      Some (Inr (\<not> ping_timed_out (tk_clock t 4) PING_TIMEOUT (ck_ping_state c')), c') \<and>
    check_inv (tk_check_now t) rx (stats_of t) (Suc pings) c' \<and> quiet_inv (tk_clock t 0) rx quiet gap c'"
proof -
  obtain tx where conn: "ck_conn_state c = Connected rx tx st" and tx: "patience rx tx \<le> quiet"
    using assms(1,6) by (auto simp: check_inv_def quiet_inv_def)
  define tx' where "tx' = (if sum_tx_bytes st < sum_tx_bytes (stats_of t) then tk_check_now t else tx)"
  have "rx \<le> tk_check_now t" using assms(1,4) by (auto simp: check_inv_def)
  then have tx': "patience rx tx' \<le> quiet"
    using tx patience_mono [of rx "tk_check_now t" tx] by (auto simp: tx'_def intro: order_trans)
  have upd: "conn_state_update (tk_check_now t) (stats_of t) (ck_conn_state c) = (False, Connected rx tx' (stats_of t))"
    using assms(5) by (simp add: conn tx'_def)
  obtain ping where ping: "maybe_send_ping t (Connected rx tx' (stats_of t)) (tk_check_now t) (ck_ping_state c) = Some (Inr (), ping)"
    and inv: "check_inv (tk_check_now t) rx st (Suc pings) (c\<lparr>ck_ping_state := ping\<rparr>)"
    using quiet_ping [OF assms(1-4)] by blast
  let ?c = "\<lparr>ck_conn_state = Connected rx tx' (stats_of t), ck_ping_state = ping\<rparr>"
  have "check_connectivity t c = Some (Inr (\<not> ping_timed_out (tk_clock t 4) PING_TIMEOUT ping), ?c)"
    by (simp add: check_connectivity_def check_connectivity_interval_def get_stats_healthy [OF assms(3)] upd ping
        connected_def)
  moreover have "check_inv (tk_check_now t) rx (stats_of t) (Suc pings) ?c"
    using inv by (auto simp: check_inv_def)
  moreover have "quiet_inv (tk_clock t 0) rx quiet gap ?c"
  proof (cases "ps_initial_ping_timestamp (ck_ping_state c)")
    case None
    then have "reading < rx + quiet" using assms(6) by (simp add: quiet_inv_def)
    then have "tk_check_now t < rx + quiet + gap" using assms(7,8,10) by linarith
    moreover have "tk_clock t 0 < rx + quiet" if "ps_initial_ping_timestamp ping = None"
    proof (rule ccontr)
      assume "\<not> tk_clock t 0 < rx + quiet"
      then have "rx + patience rx tx' \<le> tk_clock t 0" using tx' by linarith
      from pings_after_patience [OF this assms(9)] ping_initial [OF ping] None that show False by simp
    qed
    ultimately show ?thesis
      using ping_initial [OF ping] None tx' by (auto simp: quiet_inv_def split: if_splits)
  next
    case (Some p)
    then show ?thesis
      using ping_initial [OF ping] assms(6) tx' by (simp add: quiet_inv_def)
  qed
  ultimately show ?thesis by auto
qed

lemma monitor_notices:
  assumes "check_inv clock rx st pings c" and "pings + length ts < 2 ^ 32 - 1"
    and "\<forall>t \<in> set ts. healthy t" and "clock_ordered clock ts" and "awake last_check ts"
    and "quiet_inv reading rx quiet gap c" and "spaced gap reading ts"
    and "\<forall>i < length ts. \<not> traffic_seen st ts i" and "monitor_run c last_check ts = Running c' last_check'" and "ts \<noteq> []"
    and "reading \<le> clock"
  shows "tk_clock (last ts) 4 \<le> rx + quiet + gap + PING_TIMEOUT"
  using assms
proof (induction ts arbitrary: clock st pings c last_check reading)
  case (Cons t ts)
  have t: "healthy t" "clock \<le> tk_check_now t" "tk_now t - last_check < SUSPEND_TIMEOUT"
    "tk_check_now t \<le> tk_clock t 0" "tk_clock t 0 \<le> tk_clock t 1" "tk_clock t 0 \<le> tk_clock t 4"
    "tk_clock t 4 \<le> reading + gap"
    using Cons.prems(3-5,7) by auto
  have quiet: "\<not> rx_incremented st (stats_of t)"
    using Cons.prems(8) traffic_seen_Cons(1) [of st t ts] by auto
  have pings: "pings < 2 ^ 32 - 1" using Cons.prems(2) by simp
  obtain c1 where c1: "check_connectivity t c =
      Some (Inr (\<not> ping_timed_out (tk_clock t 4) PING_TIMEOUT (ck_ping_state c1)), c1)"
    and inv: "check_inv (tk_check_now t) rx (stats_of t) (Suc pings) c1"
    and quiet_inv: "quiet_inv (tk_clock t 0) rx quiet gap c1"
    using quiet_inv_check [OF Cons.prems(1) pings t(1,2) quiet Cons.prems(6) t(7,4,5,6)] by blast
  have running: "\<not> ping_timed_out (tk_clock t 4) PING_TIMEOUT (ck_ping_state c1)"
    and rest: "monitor_run c1 (tk_now t) ts = Running c' last_check'"
    using Cons.prems(9) unfolding monitor_run_awake [OF t(1,3)] c1 by (auto split: bool.splits)
  show ?case
  proof (cases "ts = []")
    case True
    show ?thesis
    proof (cases "ps_initial_ping_timestamp (ck_ping_state c1)")
      case None
      have "tk_clock t 0 < rx + quiet" using quiet_inv None by (simp add: quiet_inv_def)
      with Cons.prems(11) t(2,4,7) True show ?thesis by simp
    next
      case (Some p)
      then show ?thesis
        using running quiet_inv True by (auto simp: quiet_inv_def ping_timed_out_def elapsed_def)
    qed
  next
    case False
    have "tk_clock (last ts) 4 \<le> rx + quiet + gap + PING_TIMEOUT"
    proof (rule Cons.IH [OF check_inv_later [OF inv, of "tk_clock t 4"] _ _ _ _ quiet_inv _ _ rest False])
      show "\<forall>i < length ts. \<not> traffic_seen (stats_of t) ts i"
        using Cons.prems(8) traffic_seen_Cons(2) [of st t ts] by auto
    qed (use Cons.prems in auto)
    with False show ?thesis by simp
  qed
qed simp

section \<open>Establishing a connection\<close>

lemma polled_connected:
  assumes "check_connectivity_interval t timeout c = Some (Inr True, c')" and "\<not> connected (ck_conn_state c)"
  shows "\<exists>tx. ck_conn_state c' = Connected (tk_check_now t) tx (stats_of t) \<and> ck_ping_state c' = ping_state_reset (ck_ping_state c) \<and>
    stats_of t \<noteq> [] \<and> list_all (\<lambda>(key, s). 0 < st_rx_bytes s) (stats_of t)"
  using assms
  by (cases "ck_conn_state c")
    (auto simp: check_connectivity_interval_def connected_def get_stats_def stats_of_def
      split: sum.splits option.splits prod.splits if_splits bool.splits)

lemma polled_connecting:
  assumes "check_connectivity_interval t timeout c = Some (Inr False, c')" and "\<not> connected (ck_conn_state c)"
  shows "\<not> connected (ck_conn_state c')"
  using assms
  by (cases "ck_conn_state c")
    (auto simp: check_connectivity_interval_def connected_def
      split: sum.splits option.splits prod.splits if_splits bool.splits)

lemma poll_check_established:
  assumes "poll_check timeout c es = EstablishReturned (Inr True) c'" and "\<not> connected (ck_conn_state c)"
  shows "\<exists>t tx. PollStats t \<in> set es \<and> ck_conn_state c' = Connected (tk_check_now t) tx (stats_of t) \<and>
    ps_initial_ping_timestamp (ck_ping_state c') = None \<and> ps_num_pings_sent (ck_ping_state c') = 0 \<and>
    stats_of t \<noteq> [] \<and> list_all (\<lambda>(key, s). 0 < st_rx_bytes s) (stats_of t)"
  using assms
proof (induction timeout c es rule: poll_check.induct)
  case (2 timeout c t es)
  show ?case
  proof (cases "check_connectivity_interval t timeout c = Some (Inr True, c')")
    case True
    from polled_connected [OF this 2(3)] show ?thesis
      by (fastforce simp: ping_state_reset_def)
  next
    case False
    with 2(2) obtain c1 where c1: "check_connectivity_interval t timeout c = Some (Inr False, c1)"
      and rest: "poll_check timeout c1 es = EstablishReturned (Inr True) c'"
      by (auto split: option.splits sum.splits bool.splits)
    from 2(1) [OF c1 refl refl _ rest polled_connecting [OF c1 2(3)]] show ?thesis by auto
  qed
qed simp_all

section \<open>Properties\<close>

text \<open>An established connection that no ping has been sent for yet.\<close>

definition established :: "nat \<Rightarrow> nat \<Rightarrow> stats_map \<Rightarrow> check" where
  "established rx tx st = \<lparr>ck_conn_state = Connected rx tx st, ck_ping_state = ping_state_new\<rparr>"

lemma established_inv: "rx \<le> clock \<Longrightarrow> check_inv clock rx st 0 (established rx tx st)"
  by (simp add: check_inv_def established_def ping_state_new_def)


text \<open>A tunnel that answers and on which nothing is received.\<close>

definition sample_stats :: stats_map where
  "sample_stats = [([1], \<lparr>st_tx_bytes = 1, st_rx_bytes = 1, st_last_handshake_time = None\<rparr>)]"

definition sample_tick :: "nat \<Rightarrow> (unit, unit) tick" where
  "sample_tick s = \<lparr>tk_closed = False, tk_now = from_secs s, tk_tunnel = True, tk_check_now = from_secs s,
     tk_stats = Inr sample_stats, tk_clock = (\<lambda>_. from_secs s), tk_ping = Inr ()\<rparr>"

lemma sample_tick_simps:
  "healthy (sample_tick s)" "tk_now (sample_tick s) = from_secs s" "tk_check_now (sample_tick s) = from_secs s"
  "tk_clock (sample_tick s) i = from_secs s" "stats_of (sample_tick s) = sample_stats"
  by (simp_all add: healthy_def sample_tick_def stats_of_def sample_stats_def)


text \<open>
  C29. A dead tunnel is noticed: if no incoming traffic is seen any more and the passes are at most
  a gap apart, the monitor has returned once the clock shows the ping timeout and a gap more than
  when pinging is due, 5 seconds after the last traffic if something was sent since, and 2 minutes
  after it otherwise.
\<close>

theorem dead_tunnel_is_noticed:
  assumes "rx \<le> start" and "length ts < 2 ^ 32 - 1" and "\<forall>t \<in> set ts. healthy t"
    and "clock_ordered start ts" and "awake start ts" and "spaced gap start ts"
    and "start < rx + (if rx \<le> tx then BYTES_RX_TIMEOUT else TRAFFIC_TIMEOUT)"
    and "\<forall>i < length ts. \<not> traffic_seen st ts i" and "ts \<noteq> []"
    and "rx + (if rx \<le> tx then BYTES_RX_TIMEOUT else TRAFFIC_TIMEOUT) + gap + PING_TIMEOUT < tk_clock (last ts) 4"
  shows "monitor_run (established rx tx st) start ts = Returned (Inr ())"
proof -
  have inv: "check_inv start rx st 0 (established rx tx st)"
    using assms(1) by (rule established_inv)
  have "(\<exists>c' last_check'. monitor_run (established rx tx st) start ts = Running c' last_check') \<or>
      monitor_run (established rx tx st) start ts = Returned (Inr ()) \<and> (\<exists>k. silent_since rx st ts k)"
    using assms by (intro monitor_silence [OF inv]) auto
  moreover have "quiet_inv start rx (patience rx tx) gap (established rx tx st)"
    using assms(7) by (auto simp: quiet_inv_def established_def ping_state_new_def patience_def)
  then have "tk_clock (last ts) 4 \<le> rx + patience rx tx + gap + PING_TIMEOUT"
    if "monitor_run (established rx tx st) start ts = Running c' last_check'" for c' last_check'
    by (intro monitor_notices [where reading = start, OF inv _ _ _ _ _ _ _ that]) (use assms in auto)
  ultimately show ?thesis
    using assms(10) by (fastforce simp: patience_def)
qed

lemma sample_quiet: "i < length ss \<Longrightarrow> \<not> traffic_seen sample_stats (map sample_tick ss) i"
  by (cases i) (simp_all add: traffic_seen_def sample_tick_simps rx_incremented_def sample_stats_def)

theorem dead_tunnel_is_noticed_witness:
  "monitor_run (established 0 0 sample_stats) 0 (map sample_tick [5, 10, 15, 20, 25, 30]) = Returned (Inr ())"
proof (rule dead_tunnel_is_noticed [where gap = "from_secs 5"])
  show "\<forall>i < length (map sample_tick [5, 10, 15, 20, 25, 30]).
      \<not> traffic_seen sample_stats (map sample_tick [5, 10, 15, 20, 25, 30]) i"
    using sample_quiet [of _ "[5, 10, 15, 20, 25, 30]"] by (simp only: length_map) blast
qed (simp_all add: sample_tick_simps timeout_defs)

text \<open>
  The comment on \<^verbatim>\<open>maybe_send_ping\<close> and the constants speak of one ping every three seconds. The
  condition is the other way round: a ping is due as long as there have been more of them than one
  in three seconds.
\<close>

lemma ping_due_if_frequent:
  assumes "ps_initial_ping_timestamp ping = Some p" and "ps_num_pings_sent ping \<noteq> 0"
  shows "ping_due clock ping = Some (elapsed clock p < unat (ps_num_pings_sent ping) * SECONDS_PER_PING)"
  using assms by (simp add: ping_due_def div_less_iff_less_mult unat_gt_0 mult.commute)

end
