(* ===== verification/Fragments.thy ===== *)
theory Fragments
  imports Prelude "HOL-Library.Multiset"
begin

text \<open>
  Fragmentation of packets for the QUIC proxy, \<^verbatim>\<open>mullvad-masque-proxy/src/fragment.rs\<close>: cutting a
  packet into fragments with headers, and the buffer that puts fragments together again. Variable
  length integers are those of the HTTP/3 library; how they are written and read are the arguments
  \<open>encode\<close> and \<open>decode\<close>; the latter also gives what is left of the buffer. Sums and differences of machine integers wrap, as they do in release
  builds; the result \<^const>\<open>None\<close> stands for a panic.
\<close>

section \<open>Constants\<close>

definition HTTP_MASQUE_DATAGRAM_CONTEXT_ID :: nat where
  "HTTP_MASQUE_DATAGRAM_CONTEXT_ID = 0"

definition HTTP_MASQUE_FRAGMENTED_DATAGRAM_CONTEXT_ID :: nat where
  "HTTP_MASQUE_FRAGMENTED_DATAGRAM_CONTEXT_ID = 1"

definition FRAGMENT_HEADER_SIZE_FRAGMENTED :: u16 where
  "FRAGMENT_HEADER_SIZE_FRAGMENTED = 5"

definition FRAGMENT_INDEX_START :: nat where
  "FRAGMENT_INDEX_START = 1"

definition FRAGMENT_BUFFER_CAP :: nat where
  "FRAGMENT_BUFFER_CAP = 255"

lemmas context_id_defs = HTTP_MASQUE_DATAGRAM_CONTEXT_ID_def HTTP_MASQUE_FRAGMENTED_DATAGRAM_CONTEXT_ID_def

section \<open>Reading and writing integers, and searching\<close>

text \<open>\<^verbatim>\<open>Buf\<close> and \<^verbatim>\<open>BufMut\<close>: big-endian integers at the front and at the back of a buffer.\<close>

fun try_get_u8 :: "u8 list \<Rightarrow> (u8 \<times> u8 list) option" where
  "try_get_u8 (a # bs) = Some (a, bs)"
| "try_get_u8 [] = None"

fun try_get_u16 :: "u8 list \<Rightarrow> (u16 \<times> u8 list) option" where
  "try_get_u16 (a # b # bs) = Some (word_cat a b, bs)"
| "try_get_u16 bs = None"

definition put_u16 :: "u16 \<Rightarrow> u8 list" where
  "put_u16 n = [ucast (drop_bit 8 n), ucast n]"

lemma try_get_put_u16 [simp]: "try_get_u16 (put_u16 n @ bs) = Some (n, bs)"
proof -
  have "word_cat (ucast (drop_bit 8 n) :: u8) (ucast n :: u8) = n"
    by (rule bit_word_eqI) (auto simp: bit_word_cat_iff bit_ucast_iff bit_drop_bit_eq)
  then show ?thesis by (simp add: put_u16_def)
qed

lemma length_put_u16 [simp]: "length (put_u16 n) = 2"
  by (simp add: put_u16_def)

text \<open>\<^verbatim>\<open>slice::chunks\<close>, for chunks that are not empty.\<close>

fun chunks :: "nat \<Rightarrow> 'a list \<Rightarrow> 'a list list" where
  "chunks n [] = []"
| "chunks n (x # xs) = (x # take (n - 1) xs) # chunks n (drop (n - 1) xs)"

lemma concat_chunks [simp]: "concat (chunks n xs) = xs"
  by (induction n xs rule: chunks.induct) simp_all

lemma length_chunks_le: "c \<in> set (chunks n xs) \<Longrightarrow> 0 < n \<Longrightarrow> length c \<le> n"
  by (induction n xs rule: chunks.induct) auto

lemma chunks_two: "0 < n \<Longrightarrow> n < length xs \<Longrightarrow> 2 \<le> length (chunks n xs)"
  by (cases xs; cases "drop (n - 1) (tl xs)") auto

text \<open>\<^verbatim>\<open>slice::binary_search_by_key\<close>: \<open>Inr\<close> is where the key is, \<open>Inl\<close> where it should be.\<close>

function binary_search_base :: "(nat \<Rightarrow> 'k :: linorder) \<Rightarrow> 'k \<Rightarrow> nat \<Rightarrow> nat \<Rightarrow> nat" where
  "binary_search_base key b base len =
     (if 1 < len
      then let half = len div 2; mid = base + half
           in binary_search_base key b (if b < key mid then base else mid) (len - half)
      else base)"
  by pat_completeness auto
termination
  by (relation "measure (\<lambda>(_, _, _, len). len)") auto

declare binary_search_base.simps [simp del]

definition binary_search_by_key :: "'k :: linorder \<Rightarrow> ('a \<Rightarrow> 'k) \<Rightarrow> 'a list \<Rightarrow> (nat, nat) result" where
  "binary_search_by_key b f xs =
     (if xs = [] then Inl 0
      else let base = binary_search_base (\<lambda>i. f (xs ! i)) b 0 (length xs)
           in if f (xs ! base) = b then Inr base
              else Inl (base + (if f (xs ! base) < b then 1 else 0)))"

lemma binary_search_base_spec:
  assumes "0 < len" and "base + len \<le> n" and "\<And>i j. i \<le> j \<Longrightarrow> j < n \<Longrightarrow> key i \<le> key j"
    and "0 < base \<Longrightarrow> key base \<le> b" and "\<And>i. base + len \<le> i \<Longrightarrow> i < n \<Longrightarrow> b < key i"
  shows "binary_search_base key b base len < n \<and>
    (0 < binary_search_base key b base len \<longrightarrow> key (binary_search_base key b base len) \<le> b) \<and>
    (\<forall>i. binary_search_base key b base len < i \<longrightarrow> i < n \<longrightarrow> b < key i)"
  using assms
proof (induction key b base len rule: binary_search_base.induct)
  case (1 key b base len)
  show ?case
  proof (cases "1 < len")
    case True
    define mid where "mid = base + len div 2"
    define base' where "base' = (if b < key mid then base else mid)"
    have mid: "mid < n" "base' + (len - len div 2) \<le> n" "0 < len - len div 2"
      using True 1(3) by (auto simp: mid_def base'_def)
    have eq: "binary_search_base key b base len = binary_search_base key b base' (len - len div 2)"
      using True by (simp add: binary_search_base.simps [of key b base len] Let_def mid_def base'_def)
    have low: "0 < base' \<Longrightarrow> key base' \<le> b"
      using 1(5) by (auto simp: base'_def)
    have high: "b < key i" if "base' + (len - len div 2) \<le> i" and "i < n" for i
    proof (cases "b < key mid")
      case True
      then have "mid \<le> i" using that(1) by (simp add: base'_def mid_def)
      then show ?thesis using True 1(4) [of mid i] that(2) by simp
    next
      case False
      then show ?thesis using that 1(6) [of i] by (simp add: base'_def mid_def)
    qed
    show ?thesis
      unfolding eq
      by (rule 1(1) [OF True refl mid_def, folded base'_def]) (use mid low high 1(4) in auto)
  next
    case False
    then have "binary_search_base key b base len = base" "len = 1"
      using 1(2) by (simp_all add: binary_search_base.simps [of key b base len])
    then show ?thesis using 1(3,5,6) by simp
  qed
qed

lemma insort_key_between:
  "\<forall>y \<in> set as. f y < f x \<Longrightarrow> \<forall>y \<in> set bs. f x < f y \<Longrightarrow> insort_key f x (as @ bs) = as @ x # bs"
  by (induction as) (auto simp: insort_is_Cons less_imp_le)

text \<open>In a list that is strictly sorted by key, the search finds the key or where to insert it.\<close>

lemma binary_search_insert:
  assumes "sorted_wrt (<) (map f xs)"
  shows "case binary_search_by_key (f x) f xs of
      Inr i \<Rightarrow> f x \<in> f ` set xs
    | Inl i \<Rightarrow> f x \<notin> f ` set xs \<and> i \<le> length xs \<and> take i xs @ x # drop i xs = insort_key f x xs"
proof (cases "xs = []")
  case True
  then show ?thesis by (simp add: binary_search_by_key_def)
next
  case False
  define base where "base = binary_search_base (\<lambda>i. f (xs ! i)) (f x) 0 (length xs)"
  have mono: "f (xs ! i) < f (xs ! j)" if "i < j" and "j < length xs" for i j
    using sorted_wrt_nth_less [OF assms, of i j] that by simp
  have base: "base < length xs" "0 < base \<Longrightarrow> f (xs ! base) \<le> f x" "\<And>i. base < i \<Longrightarrow> i < length xs \<Longrightarrow> f x < f (xs ! i)"
    using binary_search_base_spec [of "length xs" 0 "length xs" "\<lambda>i. f (xs ! i)" "f x"] False mono
    by (auto simp: base_def order.order_iff_strict)
  have eq: "binary_search_by_key (f x) f xs =
      (if f (xs ! base) = f x then Inr base else Inl (base + (if f (xs ! base) < f x then 1 else 0)))"
    using False by (simp add: binary_search_by_key_def base_def Let_def)
  show ?thesis
  proof (cases "f (xs ! base) = f x")
    case True
    moreover have "f (xs ! base) \<in> f ` set xs" using base(1) by simp
    ultimately show ?thesis by (simp add: eq)
  next
    case neq: False
    define i where "i = base + (if f (xs ! base) < f x then 1 else 0)"
    have i: "i \<le> length xs" using base(1) by (simp add: i_def)
    have low: "f y < f x" if y: "y \<in> set (take i xs)" for y
    proof -
      obtain j where j: "j < i" "j < length xs" "y = xs ! j"
        using y by (auto simp: in_set_conv_nth)
      then have "j < base \<or> j = base \<and> f (xs ! base) < f x" by (auto simp: i_def split: if_splits)
      then show ?thesis
      proof
        assume "j < base"
        with mono [OF this base(1)] base(2) j(3) show ?thesis by simp
      qed (simp add: j(3))
    qed
    have high: "f x < f y" if y: "y \<in> set (drop i xs)" for y
    proof -
      obtain k where k: "k < length xs - i" "y = xs ! (i + k)"
        using y i by (auto simp: in_set_conv_nth)
      define j where "j = i + k"
      have j: "i \<le> j" "j < length xs" "y = xs ! j"
        using k by (simp_all add: j_def)
      then have "base < j \<or> j = base \<and> f x < f (xs ! base)"
        using neq by (auto simp: i_def split: if_splits)
      then show ?thesis using base(3) [of j] j by auto
    qed
    have "insort_key f x (take i xs @ drop i xs) = take i xs @ x # drop i xs"
      using low high by (intro insort_key_between) auto
    moreover have "f x \<notin> f ` set xs"
    proof
      assume "f x \<in> f ` set xs"
      then obtain y where "y \<in> set xs" and eq: "f x = f y" by auto
      then have "y \<in> set (take i xs) \<union> set (drop i xs)"
        by (simp flip: set_append)
      with low [of y] high [of y] eq show False by auto
    qed
    ultimately show ?thesis using neq i low high by (simp add: eq i_def [symmetric])
  qed
qed

section \<open>Putting fragments together\<close>

record fragment =
  fr_index :: u8
  fr_payload :: "u8 list"

record fragments =
  fragment_index_fifo :: "u16 list"
  fragment_map :: "u16 \<Rightarrow> fragment list option"

definition fragments_default :: fragments where
  "fragments_default = \<lparr>fragment_index_fifo = [], fragment_map = Map.empty\<rparr>"

datatype 'u defrag_error =
  BadContextId "('u, nat) result"
| PayloadTooSmall
| TooFewFragments
| DuplicateFragment

datatype defrag_received =
  Nonfragmented "u8 list"
| Fragment
| Reassembled "u8 list"

text \<open>The header of a packet: a whole packet, or a fragment with its packet's number and the number of fragments.\<close>

datatype parsed =
  WholePacket "u8 list"
| FragmentOf u16 u8 fragment

definition parse_header ::
  "(u8 list \<Rightarrow> ('u, nat) result \<times> u8 list) \<Rightarrow> u8 list \<Rightarrow> ('u defrag_error, parsed) result" where
  "parse_header decode payload =
     (case decode payload of
        (context_id, payload) \<Rightarrow>
          if context_id = Inr HTTP_MASQUE_DATAGRAM_CONTEXT_ID then Inr (WholePacket payload)
          else if context_id \<noteq> Inr HTTP_MASQUE_FRAGMENTED_DATAGRAM_CONTEXT_ID
          then Inl (BadContextId context_id)
          else case try_get_u16 payload of
                 None \<Rightarrow> Inl PayloadTooSmall
               | Some (packet_id, payload) \<Rightarrow>
          case try_get_u8 payload of
            None \<Rightarrow> Inl PayloadTooSmall
          | Some (index, payload) \<Rightarrow>
          case try_get_u8 payload of
            None \<Rightarrow> Inl PayloadTooSmall
          | Some (fragment_count, payload) \<Rightarrow>
              if fragment_count < 2 then Inl TooFewFragments
              else Inr (FragmentOf packet_id fragment_count \<lparr>fr_index = index, fr_payload = payload\<rparr>))"

text \<open>Room is made by forgetting the packet that the oldest fragment belongs to.\<close>

definition push_fragment_id :: "u16 \<Rightarrow> fragments \<Rightarrow> fragments" where
  "push_fragment_id packet_id s =
     (let s = (if FRAGMENT_BUFFER_CAP \<le> length (fragment_index_fifo s)
               then s\<lparr>fragment_index_fifo := tl (fragment_index_fifo s),
                      fragment_map := (fragment_map s)(hd (fragment_index_fifo s) := None)\<rparr>
               else s)
      in s\<lparr>fragment_index_fifo := fragment_index_fifo s @ [packet_id]\<rparr>)"

definition insert_fragment ::
  "u16 \<Rightarrow> u8 \<Rightarrow> fragment \<Rightarrow> fragments \<Rightarrow> ('u defrag_error, defrag_received) result \<times> fragments" where
  "insert_fragment packet_id fragment_count fragment s =
     (case fragment_map s packet_id of
        None \<Rightarrow> (Inr Fragment, s\<lparr>fragment_map := (fragment_map s)(packet_id \<mapsto> [fragment])\<rparr>)
      | Some fragments \<Rightarrow>
          case binary_search_by_key (fr_index fragment) fr_index fragments of
            Inr _ \<Rightarrow> (Inl DuplicateFragment, s)
          | Inl insert_here \<Rightarrow>
              let fragments = take insert_here fragments @ fragment # drop insert_here fragments
              in if length fragments \<noteq> unat fragment_count
                 then (Inr Fragment, s\<lparr>fragment_map := (fragment_map s)(packet_id \<mapsto> fragments)\<rparr>)
                 else (Inr (Reassembled (concat (map fr_payload fragments))),
                       s\<lparr>fragment_map := (fragment_map s)(packet_id := None)\<rparr>))"

definition handle_incoming_packet ::
  "(u8 list \<Rightarrow> ('u, nat) result \<times> u8 list) \<Rightarrow> u8 list \<Rightarrow> fragments \<Rightarrow>
   ('u defrag_error, defrag_received) result \<times> fragments" where
  "handle_incoming_packet decode payload s =
     (case parse_header decode payload of
        Inl e \<Rightarrow> (Inl e, s)
      | Inr (WholePacket payload) \<Rightarrow> (Inr (Nonfragmented payload), s)
      | Inr (FragmentOf packet_id fragment_count fragment) \<Rightarrow>
          insert_fragment packet_id fragment_count fragment (push_fragment_id packet_id s))"

section \<open>Cutting packets into fragments\<close>

datatype packet_too_large = PacketTooLarge nat

text \<open>\<^verbatim>\<open>u8::try_from\<close> of a \<^verbatim>\<open>usize\<close>.\<close>

definition u8_try_from :: "nat \<Rightarrow> u8 option" where
  "u8_try_from n = (if n < 256 then Some (of_nat n) else None)"

definition make_fragment ::
  "(nat \<Rightarrow> u8 list) \<Rightarrow> u16 \<Rightarrow> u8 \<Rightarrow> nat \<times> u8 list \<Rightarrow> u8 list option" where
  "make_fragment encode packet_id fragment_count = (\<lambda>(fragment_index, fragment_payload).
     case u8_try_from (fragment_index + FRAGMENT_INDEX_START) of
       None \<Rightarrow> None
     | Some index \<Rightarrow>
         Some (encode HTTP_MASQUE_FRAGMENTED_DATAGRAM_CONTEXT_ID @ put_u16 packet_id @
           [index] @ [fragment_count] @ fragment_payload))"

definition fragment_packet ::
  "(nat \<Rightarrow> u8 list) \<Rightarrow> u16 \<Rightarrow> u8 list \<Rightarrow> u16 \<Rightarrow> (packet_too_large, u8 list list) result option" where
  "fragment_packet encode maximum_packet_size payload packet_id =
     (let fragment_payload_size = maximum_packet_size - FRAGMENT_HEADER_SIZE_FRAGMENTED
      in if fragment_payload_size = 0 then None
         else let parts = chunks (unat fragment_payload_size) payload
              in case u8_try_from (length parts) of
                   None \<Rightarrow> Some (Inl (PacketTooLarge (length payload)))
                 | Some fragment_count \<Rightarrow>
                     map_option Inr (those (map (make_fragment encode packet_id fragment_count)
                       (enumerate 0 parts))))"

section \<open>The buffer is bounded and sorted\<close>

definition entry_ok :: "u16 list \<Rightarrow> u16 \<Rightarrow> fragment list \<Rightarrow> bool" where
  "entry_ok fifo packet_id fs \<longleftrightarrow>
     fs \<noteq> [] \<and> sorted_wrt (<) (map fr_index fs) \<and> length fs \<le> count_list fifo packet_id"

definition buffer_ok :: "fragments \<Rightarrow> bool" where
  "buffer_ok s \<longleftrightarrow> length (fragment_index_fifo s) \<le> FRAGMENT_BUFFER_CAP \<and>
     (\<forall>packet_id fs. fragment_map s packet_id = Some fs \<longrightarrow> entry_ok (fragment_index_fifo s) packet_id fs)"

lemma buffer_ok_default: "buffer_ok fragments_default"
  by (simp add: buffer_ok_def fragments_default_def)

lemma buffer_ok_entry:
  "buffer_ok s \<Longrightarrow> fragment_map s packet_id = Some fs \<Longrightarrow> entry_ok (fragment_index_fifo s) packet_id fs"
  by (simp add: buffer_ok_def)

lemma push_fragment_id_ok:
  assumes "buffer_ok s"
  shows "buffer_ok (push_fragment_id packet_id s) \<and>
    (\<forall>fs. fragment_map (push_fragment_id packet_id s) packet_id = Some fs \<longrightarrow>
       length fs < count_list (fragment_index_fifo (push_fragment_id packet_id s)) packet_id)"
proof (cases "FRAGMENT_BUFFER_CAP \<le> length (fragment_index_fifo s)")
  case True
  then obtain h t where "fragment_index_fifo s = h # t"
    by (cases "fragment_index_fifo s") (auto simp: FRAGMENT_BUFFER_CAP_def)
  with True assms show ?thesis
    by (fastforce simp: push_fragment_id_def Let_def buffer_ok_def entry_ok_def less_Suc_eq_le split: if_splits)
next
  case False
  with assms show ?thesis
    by (auto simp: push_fragment_id_def Let_def buffer_ok_def entry_ok_def less_Suc_eq_le trans_le_add1)
qed

lemma pushed_id: "packet_id \<in> set (fragment_index_fifo (push_fragment_id packet_id s))"
  by (simp add: push_fragment_id_def Let_def)

lemma strictly_sorted_insort_key:
  assumes "sorted_wrt (<) (map f xs)" and "f x \<notin> f ` set xs"
  shows "sorted_wrt (<) (map f (insort_key f x xs))"
proof -
  have "mset (map f (insort_key f x xs)) = mset (f x # map f xs)" by simp
  then have "distinct (map f (insort_key f x xs)) = distinct (f x # map f xs)"
    by (rule mset_eq_imp_distinct_iff)
  with assms show ?thesis by (simp add: strict_sorted_iff sorted_insort_key)
qed

lemma insert_fragment_sorted:
  assumes "fragment_map s packet_id = Some fs" and "sorted_wrt (<) (map fr_index fs)"
  shows "insert_fragment packet_id fragment_count f s =
    (if fr_index f \<in> fr_index ` set fs then (Inl DuplicateFragment, s)
     else if Suc (length fs) \<noteq> unat fragment_count
     then (Inr Fragment, s\<lparr>fragment_map := (fragment_map s)(packet_id \<mapsto> insort_key fr_index f fs)\<rparr>)
     else (Inr (Reassembled (concat (map fr_payload (insort_key fr_index f fs)))),
           s\<lparr>fragment_map := (fragment_map s)(packet_id := None)\<rparr>))"
proof (cases "binary_search_by_key (fr_index f) fr_index fs")
  case (Inl i)
  have "length (take i fs @ f # drop i fs) = Suc (length fs)"
    using binary_search_insert [OF assms(2), of f] Inl by simp
  then show ?thesis
    using binary_search_insert [OF assms(2), of f] Inl assms(1) by (simp add: insert_fragment_def Let_def)
next
  case (Inr i)
  then show ?thesis
    using binary_search_insert [OF assms(2), of f] assms(1) by (simp add: insert_fragment_def)
qed

lemma insert_fragment_ok:
  assumes "buffer_ok s" and "packet_id \<in> set (fragment_index_fifo s)"
    and "\<And>fs. fragment_map s packet_id = Some fs \<Longrightarrow> length fs < count_list (fragment_index_fifo s) packet_id"
  shows "buffer_ok (snd (insert_fragment packet_id fragment_count f s))"
proof (cases "fragment_map s packet_id")
  case None
  moreover have "0 < count_list (fragment_index_fifo s) packet_id"
    using assms(2) by (simp add: count_list_0_iff flip: neq0_conv)
  ultimately show ?thesis
    using assms(1) by (auto simp: insert_fragment_def buffer_ok_def entry_ok_def Suc_le_eq)
next
  case (Some fs)
  have fs: "entry_ok (fragment_index_fifo s) packet_id fs"
    using assms(1) Some by (rule buffer_ok_entry)
  have "entry_ok (fragment_index_fifo s) packet_id (insort_key fr_index f fs)" if "fr_index f \<notin> fr_index ` set fs"
    using fs strictly_sorted_insort_key [OF _ that] assms(3) [OF Some] by (auto simp: entry_ok_def)
  with fs show ?thesis
    using assms(1) by (auto simp: insert_fragment_sorted [OF Some] entry_ok_def buffer_ok_def)
qed

lemma handle_incoming_packet_ok:
  "buffer_ok s \<Longrightarrow> buffer_ok (snd (handle_incoming_packet decode payload s))"
  using push_fragment_id_ok pushed_id insert_fragment_ok
  by (fastforce simp: handle_incoming_packet_def split: sum.splits parsed.splits)

lemma receive_ok:
  "buffer_ok s \<Longrightarrow> buffer_ok (snd (map_state (handle_incoming_packet decode) ps s))"
  by (induction ps arbitrary: s) (simp_all add: case_prod_beta Let_def handle_incoming_packet_ok)

lemma buffer_ok_size:
  assumes "buffer_ok s"
  shows "finite (dom (fragment_map s)) \<and>
    (\<Sum>packet_id \<in> dom (fragment_map s). length (the (fragment_map s packet_id))) \<le> FRAGMENT_BUFFER_CAP"
proof -
  have sub: "dom (fragment_map s) \<subseteq> set (fragment_index_fifo s)"
  proof
    fix packet_id
    assume "packet_id \<in> dom (fragment_map s)"
    then obtain fs where "entry_ok (fragment_index_fifo s) packet_id fs"
      using assms buffer_ok_entry by blast
    then have "count_list (fragment_index_fifo s) packet_id \<noteq> 0"
      by (cases fs) (auto simp: entry_ok_def)
    then show "packet_id \<in> set (fragment_index_fifo s)" by (simp add: count_list_0_iff)
  qed
  then have fin: "finite (dom (fragment_map s))" by (rule finite_subset) simp
  have "(\<Sum>packet_id \<in> dom (fragment_map s). length (the (fragment_map s packet_id))) \<le>
      (\<Sum>packet_id \<in> dom (fragment_map s). count_list (fragment_index_fifo s) packet_id)"
    using buffer_ok_entry [OF assms] by (intro sum_mono) (auto simp: entry_ok_def)
  also have "\<dots> \<le> (\<Sum>packet_id \<in> set (fragment_index_fifo s). count_list (fragment_index_fifo s) packet_id)"
    using sub by (intro sum_mono2) auto
  also have "\<dots> = length (fragment_index_fifo s)"
    by (rule sum_count_set) auto
  finally show ?thesis using fin assms by (simp add: buffer_ok_def)
qed

section \<open>Fragments that arrive give the packet\<close>

definition fragment_id :: "(u8 list \<Rightarrow> ('u, nat) result \<times> u8 list) \<Rightarrow> u8 list \<Rightarrow> u16 option" where
  "fragment_id decode payload =
     (case parse_header decode payload of Inr (FragmentOf packet_id _ _) \<Rightarrow> Some packet_id | _ \<Rightarrow> None)"

definition fragment_part :: "(u8 list \<Rightarrow> ('u, nat) result \<times> u8 list) \<Rightarrow> u8 list \<Rightarrow> fragment" where
  "fragment_part decode payload =
     (case parse_header decode payload of Inr (FragmentOf _ _ f) \<Rightarrow> f | _ \<Rightarrow> \<lparr>fr_index = 0, fr_payload = []\<rparr>)"

definition fragments_of :: "(u8 list \<Rightarrow> ('u, nat) result \<times> u8 list) \<Rightarrow> u16 \<Rightarrow> u8 list list \<Rightarrow> u8 list list" where
  "fragments_of decode packet_id = filter (\<lambda>p. fragment_id decode p = Some packet_id)"

text \<open>What the buffer answers to the fragments of one packet, among everything that arrives.\<close>

fun answers ::
  "(u8 list \<Rightarrow> ('u, nat) result \<times> u8 list) \<Rightarrow> u16 \<Rightarrow> u8 list list \<Rightarrow> fragments \<Rightarrow>
   ('u defrag_error, defrag_received) result list" where
  "answers decode packet_id [] s = []"
| "answers decode packet_id (p # ps) s =
     (let (r, s') = handle_incoming_packet decode p s
      in if fragment_id decode p = Some packet_id then r # answers decode packet_id ps s'
         else answers decode packet_id ps s')"

lemma answers_none: "fragments_of decode packet_id ps = [] \<Longrightarrow> answers decode packet_id ps s = []"
  by (induction ps arbitrary: s) (auto simp: fragments_of_def case_prod_beta Let_def split: if_splits)

text \<open>
  A packet's fragments are safe for a while: in the queue its number is only among the last \<open>k\<close>.
\<close>

definition safe :: "u16 \<Rightarrow> nat \<Rightarrow> fragments \<Rightarrow> bool" where
  "safe packet_id k s \<longleftrightarrow> length (fragment_index_fifo s) \<le> FRAGMENT_BUFFER_CAP \<and>
     packet_id \<notin> set (take (length (fragment_index_fifo s) - k) (fragment_index_fifo s))"

lemma push_safe:
  assumes "safe packet_id k s" and "k < FRAGMENT_BUFFER_CAP"
  shows "safe packet_id (Suc k) (push_fragment_id other s) \<and>
    fragment_map (push_fragment_id other s) packet_id = fragment_map s packet_id"
proof (cases "FRAGMENT_BUFFER_CAP \<le> length (fragment_index_fifo s)")
  case True
  then obtain h t where ht: "fragment_index_fifo s = h # t"
    by (cases "fragment_index_fifo s") (auto simp: FRAGMENT_BUFFER_CAP_def)
  have len: "Suc (length t) = FRAGMENT_BUFFER_CAP" using assms(1) True by (simp add: safe_def ht)
  then have "Suc (length t) - k = Suc (length t - k)" using assms(2) by simp
  with assms(1) have "packet_id \<noteq> h" "packet_id \<notin> set (take (length t - k) t)"
    by (auto simp: safe_def ht)
  with True len show ?thesis
    by (simp add: push_fragment_id_def Let_def safe_def ht FRAGMENT_BUFFER_CAP_def)
next
  case False
  with assms show ?thesis by (simp add: push_fragment_id_def Let_def safe_def)
qed

lemma insert_fragment_fifo [simp]:
  "fragment_index_fifo (snd (insert_fragment packet_id fragment_count f s)) = fragment_index_fifo s"
  by (simp add: insert_fragment_def Let_def split: option.split sum.split)

lemma insert_fragment_other:
  "other \<noteq> packet_id \<Longrightarrow> fragment_map (snd (insert_fragment other fragment_count f s)) packet_id = fragment_map s packet_id"
  by (simp add: insert_fragment_def Let_def split: option.split sum.split)

lemma handle_other:
  assumes "safe packet_id k s" and "fragment_id decode p \<noteq> Some packet_id"
    and "fragment_id decode p \<noteq> None \<Longrightarrow> k < FRAGMENT_BUFFER_CAP"
  shows "safe packet_id (k + (if fragment_id decode p = None then 0 else 1)) (snd (handle_incoming_packet decode p s)) \<and>
    fragment_map (snd (handle_incoming_packet decode p s)) packet_id = fragment_map s packet_id"
proof (cases "parse_header decode p")
  case (Inr h)
  then show ?thesis
  proof (cases h)
    case (FragmentOf other c f)
    with Inr assms push_safe [OF assms(1), of other] show ?thesis
      by (simp add: handle_incoming_packet_def fragment_id_def insert_fragment_other) (simp add: safe_def)
  qed (use assms in \<open>simp add: handle_incoming_packet_def fragment_id_def\<close>)
qed (use assms in \<open>simp add: handle_incoming_packet_def fragment_id_def\<close>)

definition collected :: "fragment list \<Rightarrow> fragment list option" where
  "collected got = (if got = [] then None else Some (sort_key fr_index got))"

lemma sorted_sort_key_distinct:
  "distinct (map f xs) \<Longrightarrow> sorted_wrt (<) (map f (sort_key f xs))"
proof -
  assume "distinct (map f xs)"
  moreover have "mset (map f (sort_key f xs)) = mset (map f xs)" by simp
  ultimately have "distinct (map f (sort_key f xs))" by (metis mset_eq_imp_distinct_iff)
  then show ?thesis by (simp add: strict_sorted_iff)
qed

lemma sort_key_mset:
  assumes "distinct (map f xs)" and "mset xs = mset ys"
  shows "sort_key f xs = sort_key f ys"
proof -
  have "distinct (map f ys)"
    using assms by (metis mset_eq_imp_distinct_iff mset_map)
  with assms(1) have "sorted_wrt (<) (map f (sort_key f xs))" "sorted_wrt (<) (map f (sort_key f ys))"
    by (simp_all add: sorted_sort_key_distinct)
  moreover have "set (sort_key f xs) = set (sort_key f ys)"
    using assms(2) by (metis set_mset_mset set_sort)
  moreover have "inj_on f (set (sort_key f xs) \<union> set (sort_key f ys))"
    using assms by (metis distinct_map set_mset_mset set_sort sup.idem)
  ultimately show ?thesis
    by (intro map_sorted_distinct_set_unique) (auto simp: strict_sorted_iff)
qed

lemma handle_ours:
  assumes "fragment_map s packet_id = collected got" and "safe packet_id k s" and "k < FRAGMENT_BUFFER_CAP"
    and "parse_header decode p = Inr (FragmentOf packet_id fragment_count f)"
    and "distinct (map fr_index (f # got))" and "length got < unat fragment_count" and "2 \<le> unat fragment_count"
  shows "fst (handle_incoming_packet decode p s) =
      (if Suc (length got) = unat fragment_count
       then Inr (Reassembled (concat (map fr_payload (sort_key fr_index (f # got))))) else Inr Fragment) \<and>
    safe packet_id (Suc k) (snd (handle_incoming_packet decode p s)) \<and>
    fragment_map (snd (handle_incoming_packet decode p s)) packet_id =
      (if Suc (length got) = unat fragment_count then None else collected (f # got))"
proof -
  define s' where "s' = push_fragment_id packet_id s"
  have s': "safe packet_id (Suc k) s'" "fragment_map s' packet_id = collected got"
    using push_safe [OF assms(2,3), of packet_id] assms(1) by (simp_all add: s'_def)
  have handle: "handle_incoming_packet decode p s = insert_fragment packet_id fragment_count f s'"
    by (simp add: handle_incoming_packet_def assms(4) s'_def)
  have safe: "safe packet_id (Suc k) (snd (insert_fragment packet_id fragment_count f s'))"
    using s'(1) by (simp add: safe_def)
  show ?thesis
  proof (cases "got = []")
    case True
    then show ?thesis
      using s' assms(7) safe unfolding handle by (simp add: insert_fragment_def collected_def)
  next
    case False
    have "sorted_wrt (<) (map fr_index (sort_key fr_index got))"
      using assms(5) by (simp add: sorted_sort_key_distinct)
    moreover have "fragment_map s' packet_id = Some (sort_key fr_index got)"
      using s'(2) False by (simp add: collected_def)
    ultimately show ?thesis
      using safe assms(5) unfolding handle by (auto simp: insert_fragment_sorted collected_def split: if_splits)
  qed
qed

lemma fragment_id_Some:
  assumes "fragment_id decode p = Some packet_id"
  obtains c where "parse_header decode p = Inr (FragmentOf packet_id c (fragment_part decode p))"
  using assms by (auto simp: fragment_id_def fragment_part_def split: sum.splits parsed.splits)

lemma answers_collected:
  assumes "fragment_map s packet_id = collected got" and "safe packet_id k s"
    and "k + length (filter (\<lambda>p. fragment_id decode p \<noteq> None) ps) \<le> FRAGMENT_BUFFER_CAP"
    and "\<forall>p \<in> set (fragments_of decode packet_id ps).
      parse_header decode p = Inr (FragmentOf packet_id fragment_count (fragment_part decode p))"
    and "distinct (map fr_index (map (fragment_part decode) (fragments_of decode packet_id ps) @ got))"
    and "length (fragments_of decode packet_id ps) + length got = unat fragment_count"
    and "2 \<le> unat fragment_count" and "fragments_of decode packet_id ps \<noteq> []"
  shows "answers decode packet_id ps s =
    replicate (length (fragments_of decode packet_id ps) - 1) (Inr Fragment) @
    [Inr (Reassembled (concat (map fr_payload
      (sort_key fr_index (map (fragment_part decode) (fragments_of decode packet_id ps) @ got)))))]"
  using assms
proof (induction ps arbitrary: s k got)
  case (Cons p ps)
  define s' where "s' = snd (handle_incoming_packet decode p s)"
  define f where "f = fragment_part decode p"
  define rest where "rest = map (fragment_part decode) (fragments_of decode packet_id ps)"
  show ?case
  proof (cases "fragment_id decode p = Some packet_id")
    case True
    have parse: "parse_header decode p = Inr (FragmentOf packet_id fragment_count f)"
      using Cons.prems(4) True by (simp add: fragments_of_def f_def)
    have ours: "fragments_of decode packet_id (p # ps) = p # fragments_of decode packet_id ps"
      using True by (simp add: fragments_of_def)
    have "k < FRAGMENT_BUFFER_CAP" "distinct (map fr_index (f # got))" "length got < unat fragment_count"
      using Cons.prems(3,5,6) True by (auto simp: ours f_def)
    note step = handle_ours [OF Cons.prems(1,2) this(1) parse this(2,3) Cons.prems(7), folded s'_def]
    have answers: "answers decode packet_id (p # ps) s = fst (handle_incoming_packet decode p s) # answers decode packet_id ps s'"
      using True by (simp add: case_prod_beta Let_def s'_def)
    show ?thesis
    proof (cases "fragments_of decode packet_id ps = []")
      case True
      then show ?thesis
        using step Cons.prems(6) unfolding answers ours by (simp add: answers_none f_def)
    next
      case False
      have more: "Suc (length got) \<noteq> unat fragment_count"
        using Cons.prems(6) False by (cases "fragments_of decode packet_id ps") (auto simp: ours)
      have "answers decode packet_id ps s' = replicate (length (fragments_of decode packet_id ps) - 1) (Inr Fragment) @
          [Inr (Reassembled (concat (map fr_payload (sort_key fr_index (rest @ f # got)))))]"
        unfolding rest_def
        by (rule Cons.IH [where k = "Suc k"]) (use Cons.prems step more False True in \<open>auto simp: ours f_def\<close>)
      moreover have "sort_key fr_index (rest @ f # got) = sort_key fr_index (f # rest @ got)"
        by (rule sort_key_mset) (use Cons.prems(5) in \<open>auto simp: ours rest_def f_def\<close>)
      moreover have "length (fragments_of decode packet_id ps) = Suc (length (fragments_of decode packet_id ps) - 1)"
        using False by (cases "fragments_of decode packet_id ps") auto
      ultimately show ?thesis
        using step more unfolding answers ours
        by (metis (no_types, lifting) append_Cons diff_Suc_1 f_def length_Cons list.simps(9) replicate_Suc rest_def)
    qed
  next
    case False
    have ours: "fragments_of decode packet_id (p # ps) = fragments_of decode packet_id ps"
      using False by (simp add: fragments_of_def)
    define k' where "k' = k + (if fragment_id decode p = None then 0 else 1)"
    have "fragment_id decode p \<noteq> None \<Longrightarrow> k < FRAGMENT_BUFFER_CAP"
      using Cons.prems(3) by (simp split: if_splits)
    from handle_other [OF Cons.prems(2) False this]
    have s': "safe packet_id k' s'" "fragment_map s' packet_id = fragment_map s packet_id"
      by (simp_all add: s'_def k'_def)
    have "answers decode packet_id ps s' = replicate (length (fragments_of decode packet_id ps) - 1) (Inr Fragment) @
        [Inr (Reassembled (concat (map fr_payload (sort_key fr_index (rest @ got)))))]"
      unfolding rest_def
      by (rule Cons.IH [OF _ s'(1)]) (use Cons.prems s'(2) in \<open>auto simp: ours k'_def\<close>)
    with False show ?thesis unfolding ours by (simp add: case_prod_beta Let_def s'_def rest_def)
  qed
qed (simp add: fragments_of_def)

section \<open>What a packet is cut into\<close>

definition fragment_bytes :: "(nat \<Rightarrow> u8 list) \<Rightarrow> u16 \<Rightarrow> nat \<Rightarrow> nat \<times> u8 list \<Rightarrow> u8 list" where
  "fragment_bytes encode packet_id n = (\<lambda>(i, part).
     encode HTTP_MASQUE_FRAGMENTED_DATAGRAM_CONTEXT_ID @ put_u16 packet_id @ [of_nat (Suc i), of_nat n] @ part)"

lemma those_map_Some: "\<forall>x \<in> set xs. f x = Some (g x) \<Longrightarrow> those (map f xs) = Some (map g xs)"
  by (induction xs) auto

lemma fragment_packet_eq:
  "fragment_packet encode maximum_packet_size payload packet_id =
     (let n = maximum_packet_size - FRAGMENT_HEADER_SIZE_FRAGMENTED; parts = chunks (unat n) payload
      in if n = 0 then None
         else if 255 < length parts then Some (Inl (PacketTooLarge (length payload)))
         else Some (Inr (map (fragment_bytes encode packet_id (length parts)) (enumerate 0 parts))))"
proof -
  have "those (map (make_fragment encode packet_id (of_nat (length parts))) (enumerate 0 parts)) =
      Some (map (fragment_bytes encode packet_id (length parts)) (enumerate 0 parts))"
    if "length parts < 256" for parts :: "u8 list list"
    using that
    by (intro those_map_Some)
      (auto simp: make_fragment_def fragment_bytes_def u8_try_from_def FRAGMENT_INDEX_START_def in_set_enumerate_eq)
  then show ?thesis
    by (simp add: fragment_packet_def Let_def u8_try_from_def)
qed

lemma parse_fragment_bytes:
  assumes "\<And>bs. decode (encode HTTP_MASQUE_FRAGMENTED_DATAGRAM_CONTEXT_ID @ bs) =
      (Inr HTTP_MASQUE_FRAGMENTED_DATAGRAM_CONTEXT_ID, bs)" and "2 \<le> n" and "n < 256"
  shows "parse_header decode (fragment_bytes encode packet_id n (i, part)) =
    Inr (FragmentOf packet_id (of_nat n) \<lparr>fr_index = of_nat (Suc i), fr_payload = part\<rparr>)"
proof -
  have "\<not> (of_nat n :: u8) < 2"
    using assms(2,3) by (simp add: word_less_nat_alt unat_of_nat)
  then show ?thesis
    by (simp add: parse_header_def fragment_bytes_def assms(1)) (simp add: context_id_defs)
qed

lemma length_fragment_bytes:
  "length (fragment_bytes encode packet_id n (i, part)) =
     length (encode HTTP_MASQUE_FRAGMENTED_DATAGRAM_CONTEXT_ID) + 4 + length part"
  by (simp add: fragment_bytes_def)

lemma enumerate_indices:
  assumes "length parts < 256"
  shows "sorted_wrt (<) (map (\<lambda>(i, part). of_nat (Suc i) :: u8) (enumerate 0 parts))"
proof -
  have "sorted_wrt (<) (map (\<lambda>i. of_nat (Suc i) :: u8) [0..<length parts])"
    unfolding sorted_wrt_map
  proof (rule sorted_wrt_mono_rel [of _ "(<)"])
    fix i j
    assume "i \<in> set [0..<length parts]" and "j \<in> set [0..<length parts]" and "i < j"
    then have "Suc i < Suc j" "Suc j < 256" using assms by auto
    then show "(of_nat (Suc i) :: u8) < of_nat (Suc j)"
      unfolding word_less_nat_alt by (simp only: unat_of_nat) simp
  qed simp
  moreover have "map (\<lambda>(i, part). of_nat (Suc i) :: u8) (enumerate 0 parts) =
      map (\<lambda>i. of_nat (Suc i)) (map fst (enumerate 0 parts))"
    by (simp only: map_map comp_def) (simp add: case_prod_beta)
  ultimately show ?thesis by simp
qed

lemma reassembly:
  assumes codec: "\<And>bs. decode (encode HTTP_MASQUE_FRAGMENTED_DATAGRAM_CONTEXT_ID @ bs) =
      (Inr HTTP_MASQUE_FRAGMENTED_DATAGRAM_CONTEXT_ID, bs)"
    and cut: "fragment_packet encode maximum_packet_size payload packet_id = Some (Inr fs)" "2 \<le> length fs"
    and arrive: "mset (fragments_of decode packet_id ps) = mset fs"
    and room: "length (filter (\<lambda>p. fragment_id decode p \<noteq> None) ps) \<le> FRAGMENT_BUFFER_CAP"
    and s: "buffer_ok s" "packet_id \<notin> set (fragment_index_fifo s)"
  shows "answers decode packet_id ps s = replicate (length fs - 1) (Inr Fragment) @ [Inr (Reassembled payload)]"
proof -
  obtain parts where fs: "fs = map (fragment_bytes encode packet_id (length parts)) (enumerate 0 parts)"
    and n: "length parts < 256" and payload: "concat parts = payload"
    using cut(1) by (auto simp: fragment_packet_eq Let_def split: if_splits)
  define ours where "ours = fragments_of decode packet_id ps"
  define all where "all = map (\<lambda>(i, part). \<lparr>fr_index = of_nat (Suc i) :: u8, fr_payload = part\<rparr>) (enumerate 0 parts)"
  have parse: "parse_header decode (fragment_bytes encode packet_id (length parts) (i, part)) =
      Inr (FragmentOf packet_id (of_nat (length parts)) \<lparr>fr_index = of_nat (Suc i), fr_payload = part\<rparr>)" for i part
    using parse_fragment_bytes [where encode = encode, OF codec] cut(2) n by (simp add: fs)
  have "map (fragment_part decode) fs = all"
    by (auto simp: fs all_def fragment_part_def parse)
  then have all: "mset (map (fragment_part decode) ours) = mset all"
    using arrive by (metis mset_map ours_def)
  have "map fr_index all = map (\<lambda>(i, part). of_nat (Suc i)) (enumerate 0 parts)"
    by (simp add: all_def case_prod_beta comp_def)
  with enumerate_indices [OF n] have sorted: "sorted_wrt (<) (map fr_index all)" by simp
  then have distinct: "distinct (map fr_index all)" and id: "sort_key fr_index all = all"
    by (simp_all add: strict_sorted_iff sort_key_id_if_sorted)
  have ours_distinct: "distinct (map fr_index (map (fragment_part decode) ours))"
    using distinct all by (metis mset_eq_imp_distinct_iff mset_map)
  have ours_sorted: "sort_key fr_index (map (fragment_part decode) ours) = all"
    by (rule trans [OF sort_key_mset [OF ours_distinct all] id])
  have len: "length ours = length fs" using arrive by (metis ours_def size_mset)
  have "ours \<noteq> []" using len cut(2) by auto
  have none: "fragment_map s packet_id = collected []"
  proof (cases "fragment_map s packet_id")
    case (Some fs)
    from buffer_ok_entry [OF s(1) this] s(2) show ?thesis
      by (cases fs) (auto simp: entry_ok_def count_list_0_iff [symmetric])
  qed (simp add: collected_def)
  have safe: "safe packet_id 0 s" using s by (simp add: safe_def buffer_ok_def)
  have parse_ours: "\<forall>p \<in> set ours. parse_header decode p =
      Inr (FragmentOf packet_id (of_nat (length parts)) (fragment_part decode p))"
    using arrive [folded ours_def, THEN mset_eq_setD]
    by (auto simp: fs fragment_part_def parse)
  have "answers decode packet_id ps s = replicate (length ours - 1) (Inr Fragment) @
      [Inr (Reassembled (concat (map fr_payload (sort_key fr_index (map (fragment_part decode) ours @ [])))))]"
    unfolding ours_def
    by (rule answers_collected [OF none safe _ parse_ours [unfolded ours_def]])
      (use room cut(2) n len \<open>ours \<noteq> []\<close> ours_distinct
        in \<open>simp_all add: fs ours_def unat_of_nat\<close>)
  moreover have "map fr_payload all = parts"
    by (simp add: all_def case_prod_beta comp_def)
  ultimately show ?thesis using ours_sorted len payload by simp
qed

section \<open>Properties\<close>

text \<open>
  C30. Cutting a packet up and putting it together again: whatever the buffer has received before,
  if the fragments of a packet arrive in any order, among other packets and fragments of other
  packets, all but the last of them are kept and the last one gives back the packet. The packet's
  number must not be in the queue yet, and no more fragments than the buffer's capacity of 255 may
  arrive meanwhile. Of the encoding of context numbers only that it is read back as written is used.
\<close>

theorem fragments_give_packet:
  assumes "\<And>bs. decode (encode HTTP_MASQUE_FRAGMENTED_DATAGRAM_CONTEXT_ID @ bs) =
      (Inr HTTP_MASQUE_FRAGMENTED_DATAGRAM_CONTEXT_ID, bs)"
    and "fragment_packet encode maximum_packet_size payload packet_id = Some (Inr fs)" and "2 \<le> length fs"
    and "mset (fragments_of decode packet_id ps) = mset fs"
    and "length (filter (\<lambda>p. fragment_id decode p \<noteq> None) ps) \<le> FRAGMENT_BUFFER_CAP"
    and "s = snd (map_state (handle_incoming_packet decode) earlier fragments_default)"
    and "packet_id \<notin> set (fragment_index_fifo s)"
  shows "answers decode packet_id ps s = replicate (length fs - 1) (Inr Fragment) @ [Inr (Reassembled payload)]"
  using assms(7) receive_ok [OF buffer_ok_default]
  by (intro reassembly [OF assms(1-5)]) (simp_all add: assms(6))

text \<open>Context numbers below 64 are written as one byte.\<close>

definition sample_encode :: "nat \<Rightarrow> u8 list" where
  "sample_encode v = [of_nat v]"

definition sample_decode :: "u8 list \<Rightarrow> (unit, nat) result \<times> u8 list" where
  "sample_decode bs = (case bs of [] \<Rightarrow> (Inl (), []) | b # bs \<Rightarrow> (Inr (unat b), bs))"

lemma sample_codec:
  "sample_decode (sample_encode HTTP_MASQUE_FRAGMENTED_DATAGRAM_CONTEXT_ID @ bs) =
     (Inr HTTP_MASQUE_FRAGMENTED_DATAGRAM_CONTEXT_ID, bs)"
  "sample_decode (sample_encode HTTP_MASQUE_DATAGRAM_CONTEXT_ID @ bs) = (Inr HTTP_MASQUE_DATAGRAM_CONTEXT_ID, bs)"
  by (simp_all add: sample_encode_def sample_decode_def context_id_defs)

definition sample_fragments :: "u8 list list" where
  "sample_fragments = [[1, 0, 7, 1, 3, 10, 11], [1, 0, 7, 2, 3, 12, 13], [1, 0, 7, 3, 3, 14]]"

lemma sample_cut: "fragment_packet sample_encode 7 [10, 11, 12, 13, 14] 7 = Some (Inr sample_fragments)"
  by (simp add: fragment_packet_eq Let_def FRAGMENT_HEADER_SIZE_FRAGMENTED_def fragment_bytes_def enumerate_eq_zip
      sample_encode_def sample_fragments_def context_id_defs put_u16_def upt_rec numeral_3_eq_3)

text \<open>They arrive in reverse order, with a whole packet and a fragment of another packet in between.\<close>

definition sample_arrivals :: "u8 list list" where
  "sample_arrivals = [[1, 0, 7, 3, 3, 14], [0, 5], [1, 0, 7, 2, 3, 12, 13], [1, 0, 8, 1, 2, 9], [1, 0, 7, 1, 3, 10, 11]]"

theorem fragments_give_packet_witness:
  "answers sample_decode 7 sample_arrivals fragments_default =
     [Inr Fragment, Inr Fragment, Inr (Reassembled [10, 11, 12, 13, 14])]"
proof -
  have ids: "map (fragment_id sample_decode) sample_arrivals = [Some 7, None, Some 7, Some 8, Some 7]"
    by (simp add: sample_arrivals_def fragment_id_def parse_header_def sample_decode_def context_id_defs)
  have "answers sample_decode 7 sample_arrivals fragments_default =
      replicate (length sample_fragments - 1) (Inr Fragment) @ [Inr (Reassembled [10, 11, 12, 13, 14])]"
    by (rule fragments_give_packet [OF sample_codec(1) sample_cut, where earlier = "[]"])
      (use ids in \<open>simp_all add: sample_fragments_def sample_arrivals_def fragments_of_def FRAGMENT_BUFFER_CAP_def
        fragments_default_def add_mset_commute\<close>)
  then show ?thesis by (simp add: sample_fragments_def numeral_2_eq_2)
qed

text \<open>
  The memory of the buffer is bounded: whatever packets arrive, it never holds more than 255
  fragments, its queue is never longer than that, and the fragments of each packet are kept in
  order of their index with no index twice.
\<close>

theorem fragment_buffer_bounded:
  "let s = snd (map_state (handle_incoming_packet decode) ps fragments_default)
   in length (fragment_index_fifo s) \<le> 255 \<and> finite (dom (fragment_map s)) \<and>
      (\<Sum>packet_id \<in> dom (fragment_map s). length (the (fragment_map s packet_id))) \<le> 255 \<and>
      (\<forall>packet_id. case fragment_map s packet_id of
         None \<Rightarrow> True
       | Some fs \<Rightarrow> fs \<noteq> [] \<and> sorted_wrt (<) (map fr_index fs))"
proof -
  define s where "s = snd (map_state (handle_incoming_packet decode) ps fragments_default)"
  have s: "buffer_ok s" unfolding s_def by (rule receive_ok [OF buffer_ok_default])
  then show ?thesis
    using buffer_ok_size [OF s] buffer_ok_entry [OF s]
    by (auto simp: s_def [symmetric] buffer_ok_def entry_ok_def FRAGMENT_BUFFER_CAP_def Let_def split: option.split)
qed

end
