(* ===== verification/Masque.thy ===== *)
theory Masque
  imports Fragments Net_Types
begin

text \<open>
  The two ends of the QUIC proxy, \<^verbatim>\<open>client/mod.rs\<close> and \<^verbatim>\<open>server/mod.rs\<close> of
  \<^verbatim>\<open>mullvad-masque-proxy/src\<close>: the tasks that carry packets between a UDP socket and the datagrams
  of a QUIC connection, and the server's decision on a proxy request. A task is a function of the
  events it waits for, in the order in which they happen; when they end, it is still running. The
  QUIC connection is a parameter: sending a datagram changes a state of its own and may fail.
\<close>

section \<open>Packet sizes\<close>

definition UDP_HEADER_SIZE :: u16 where
  "UDP_HEADER_SIZE = 8"

definition QUIC_HEADER_SIZE :: u16 where
  "QUIC_HEADER_SIZE = 41"

definition MIN_MAX_UDP_PAYLOAD_SIZE :: u16 where
  "MIN_MAX_UDP_PAYLOAD_SIZE = 1200"

definition MIN_IPV4_MTU :: u16 where
  "MIN_IPV4_MTU = 20 + UDP_HEADER_SIZE + 1200"

definition MIN_IPV6_MTU :: u16 where
  "MIN_IPV6_MTU = 40 + UDP_HEADER_SIZE + 1200"

definition compute_udp_payload_size :: "u16 \<Rightarrow> socket_addr \<Rightarrow> u16" where
  "compute_udp_payload_size mtu target_addr =
     (let ip_overhead = (if is_ipv4 (sa_ip target_addr) then 20 else 40);
          desired_max = mtu - ip_overhead - UDP_HEADER_SIZE
      in if desired_max < MIN_MAX_UDP_PAYLOAD_SIZE then MIN_MAX_UDP_PAYLOAD_SIZE else desired_max)"

datatype invalid_mtu = InvalidMtu u16

definition validate_mtu :: "u16 \<Rightarrow> socket_addr \<Rightarrow> (invalid_mtu, unit) result" where
  "validate_mtu mtu addr =
     (let min_mtu = (if is_ipv4 (sa_ip addr) then MIN_IPV4_MTU else MIN_IPV6_MTU)
      in if min_mtu \<le> mtu then Inr () else Inl (InvalidMtu min_mtu))"

text \<open>The largest datagram, given what the QUIC connection takes at the moment.\<close>

definition maximum_packet_size :: "nat option \<Rightarrow> u16 \<Rightarrow> u16 \<Rightarrow> u16" where
  "maximum_packet_size max_datagram_size max_udp_payload_size stream_id_size =
     (case max_datagram_size of
        Some n \<Rightarrow> of_nat n - stream_id_size
      | None \<Rightarrow> max_udp_payload_size - QUIC_HEADER_SIZE - stream_id_size)"

section \<open>Statistics\<close>

record masque_stats =
  ms_rx_packets :: u64
  ms_tx_packets :: u64
  ms_rx_bytes :: u64
  ms_tx_bytes :: u64
  ms_fragmented_tx_bytes :: u64
  ms_fragmented_rx_bytes :: u64
  ms_fragmented_tx_packets :: u64
  ms_fragmented_rx_packets :: u64

definition stats_tx :: "nat \<Rightarrow> bool \<Rightarrow> masque_stats \<Rightarrow> masque_stats" where
  "stats_tx packet_len is_fragment st =
     (let st = st\<lparr>ms_tx_packets := ms_tx_packets st + 1, ms_tx_bytes := ms_tx_bytes st + of_nat packet_len\<rparr>
      in if is_fragment
         then st\<lparr>ms_fragmented_tx_packets := ms_fragmented_tx_packets st + 1,
                 ms_fragmented_tx_bytes := ms_fragmented_tx_bytes st + of_nat packet_len\<rparr>
         else st)"


section \<open>The client\<close>

datatype ('e, 's) task_end =
  TaskRunning 's
| TaskReturned "('e, unit) result" 's
| TaskPanicked

datatype ('h, 'i) client_error =
  ProxyResponse 'h
| SendDatagram 'h
| PacketTooLargeError packet_too_large
| ClientRead 'i

text \<open>
  \<^verbatim>\<open>server_socket_task\<close>: what the server sent, and whether the other task still takes it, or a
  packet of the client, with the size that the connection allows at that moment.
\<close>

datatype ('h, 'd) socket_event =
  ReadDatagram "('h, 'd option) result" bool
| ClientPacket "u8 list option" "nat option"

record ('w, 'd) server_socket =
  so_fragment_id :: u16
  so_stats :: masque_stats
  so_connection :: 'w
  so_received :: "'d list"

fun send_fragments ::
  "(u8 list \<Rightarrow> 'w \<Rightarrow> ('h, unit) result \<times> 'w) \<Rightarrow> u8 list list \<Rightarrow> ('w, 'd) server_socket \<Rightarrow>
   (('h, 'i) client_error, unit) result \<times> ('w, 'd) server_socket" where
  "send_fragments send_datagram [] s = (Inr (), s)"
| "send_fragments send_datagram (f # fs) s =
     (let s = s\<lparr>so_stats := stats_tx (length f) True (so_stats s)\<rparr>
      in case send_datagram f (so_connection s) of
           (Inl e, w) \<Rightarrow> (Inl (SendDatagram e), s\<lparr>so_connection := w\<rparr>)
         | (Inr _, w) \<Rightarrow> send_fragments send_datagram fs (s\<lparr>so_connection := w\<rparr>))"

definition send_client_packet ::
  "(nat \<Rightarrow> u8 list) \<Rightarrow> (u8 list \<Rightarrow> ('u, nat) result \<times> u8 list) \<Rightarrow> (u8 list \<Rightarrow> 'w \<Rightarrow> ('h, unit) result \<times> 'w) \<Rightarrow>
   u16 \<Rightarrow> u8 list \<Rightarrow> ('w, 'd) server_socket \<Rightarrow>
   ((('h, 'i) client_error, unit) result \<times> ('w, 'd) server_socket) option" where
  "send_client_packet encode decode send_datagram max_size packet s =
     (if length packet \<le> unat max_size
      then let s = s\<lparr>so_stats := stats_tx (length packet) False (so_stats s)\<rparr>
           in case send_datagram packet (so_connection s) of
                (Inl e, w) \<Rightarrow> Some (Inl (SendDatagram e), s\<lparr>so_connection := w\<rparr>)
              | (Inr _, w) \<Rightarrow> Some (Inr (), s\<lparr>so_connection := w\<rparr>)
      else let packet = snd (decode packet)
           in case fragment_packet encode max_size packet (so_fragment_id s) of
                None \<Rightarrow> None
              | Some (Inl e) \<Rightarrow> Some (Inl (PacketTooLargeError e), s)
              | Some (Inr fs) \<Rightarrow>
                  (case send_fragments send_datagram fs s of
                     (Inl e, s) \<Rightarrow> Some (Inl e, s)
                   | (Inr _, s) \<Rightarrow> Some (Inr (), s\<lparr>so_fragment_id := so_fragment_id s + 1\<rparr>)))"

fun server_socket_task ::
  "(nat \<Rightarrow> u8 list) \<Rightarrow> (u8 list \<Rightarrow> ('u, nat) result \<times> u8 list) \<Rightarrow> (u8 list \<Rightarrow> 'w \<Rightarrow> ('h, unit) result \<times> 'w) \<Rightarrow>
   u16 \<Rightarrow> u16 \<Rightarrow> ('h, 'd) socket_event list \<Rightarrow> ('w, 'd) server_socket \<Rightarrow>
   (('h, 'i) client_error, ('w, 'd) server_socket) task_end" where
  "server_socket_task encode decode send_datagram max_udp_payload_size stream_id_size [] s = TaskRunning s"
| "server_socket_task encode decode send_datagram max_udp_payload_size stream_id_size (ReadDatagram datagram taken # es) s =
     (case datagram of
        Inr (Some response) \<Rightarrow>
          if taken
          then server_socket_task encode decode send_datagram max_udp_payload_size stream_id_size es
                 (s\<lparr>so_received := so_received s @ [response]\<rparr>)
          else TaskReturned (Inr ()) s
      | Inr None \<Rightarrow> TaskReturned (Inr ()) s
      | Inl err \<Rightarrow> TaskReturned (Inl (ProxyResponse err)) s)"
| "server_socket_task encode decode send_datagram max_udp_payload_size stream_id_size (ClientPacket packet max_datagram_size # es) s =
     (case packet of
        None \<Rightarrow> TaskReturned (Inr ()) s
      | Some packet \<Rightarrow>
          (case send_client_packet encode decode send_datagram
                  (maximum_packet_size max_datagram_size max_udp_payload_size stream_id_size) packet s of
             None \<Rightarrow> TaskPanicked
           | Some (Inl e, s) \<Rightarrow> TaskReturned (Inl e) s
           | Some (Inr _, s) \<Rightarrow>
               server_socket_task encode decode send_datagram max_udp_payload_size stream_id_size es s))"

text \<open>
  \<^verbatim>\<open>client_socket_rx_task\<close>: reading from the client's socket, with whether the other tasks still
  take the address and the packet.
\<close>

datatype 'i client_recv = ClientRecv "('i, u8 list \<times> socket_addr) result" bool bool

record client_socket_rx =
  cx_read_buf :: "u8 list"
  cx_return_addr :: socket_addr
  cx_return_addrs :: "socket_addr list"
  cx_packets :: "u8 list list"

fun client_socket_rx_task ::
  "(nat \<Rightarrow> u8 list) \<Rightarrow> 'i client_recv list \<Rightarrow> client_socket_rx \<Rightarrow> (('h, 'i) client_error, client_socket_rx) task_end" where
  "client_socket_rx_task encode [] s = TaskRunning s"
| "client_socket_rx_task encode (ClientRecv received addr_taken packet_taken # es) s =
     (let s = s\<lparr>cx_read_buf := cx_read_buf s @ encode HTTP_MASQUE_DATAGRAM_CONTEXT_ID\<rparr>
      in case received of
           Inl e \<Rightarrow> TaskReturned (Inl (ClientRead e)) s
         | Inr (bytes, recv_addr) \<Rightarrow>
             let s = s\<lparr>cx_read_buf := cx_read_buf s @ bytes\<rparr>;
                 new = recv_addr \<noteq> cx_return_addr s;
                 s = (if new then s\<lparr>cx_return_addr := recv_addr\<rparr> else s)
             in if new \<and> \<not> addr_taken then TaskReturned (Inr ()) s
                else let s = (if new then s\<lparr>cx_return_addrs := cx_return_addrs s @ [recv_addr]\<rparr> else s);
                         packet = cx_read_buf s;
                         s = s\<lparr>cx_read_buf := []\<rparr>
                     in if packet_taken
                        then client_socket_rx_task encode es (s\<lparr>cx_packets := cx_packets s @ [packet]\<rparr>)
                        else TaskReturned (Inr ()) s)"





section \<open>The server\<close>


text \<open>
  \<^verbatim>\<open>proxy_rx_task\<close>: an error or a packet from the socket, the size that the connection allows, and
  whether the other task still takes datagrams. \<^const>\<open>None\<close> stands for a panic; the flag of the result
  says whether the task goes on.
\<close>

datatype proxy_recv = RecvError | RecvFrom "u8 list" socket_addr "nat option" bool

record proxy_rx =
  px_recv_buf :: "u8 list"
  px_fragment_id :: u16
  px_sent :: "u8 list list"

definition proxy_rx_step ::
  "(nat \<Rightarrow> u8 list) \<Rightarrow> (u8 list \<Rightarrow> ('u, nat) result \<times> u8 list) \<Rightarrow> u16 \<Rightarrow> socket_addr \<Rightarrow> u16 \<Rightarrow>
   proxy_recv \<Rightarrow> proxy_rx \<Rightarrow> (bool \<times> proxy_rx) option" where
  "proxy_rx_step encode decode stream_id_size target_addr mtu ev s =
     (let s = s\<lparr>px_recv_buf := px_recv_buf s @ encode HTTP_MASQUE_DATAGRAM_CONTEXT_ID\<rparr>
      in case ev of
           RecvError \<Rightarrow> Some (True, s)
         | RecvFrom bytes sender_addr max_datagram_size taken \<Rightarrow>
             let s = s\<lparr>px_recv_buf := px_recv_buf s @ bytes\<rparr>
             in if sender_addr \<noteq> target_addr then Some (True, s)
                else let received_packet = px_recv_buf s;
                         s = s\<lparr>px_recv_buf := []\<rparr>;
                         max_size = maximum_packet_size max_datagram_size
                           (compute_udp_payload_size mtu target_addr) stream_id_size
                     in if length received_packet < unat max_size
                        then Some (if taken then (True, s\<lparr>px_sent := px_sent s @ [received_packet]\<rparr>) else (False, s))
                        else case fragment_packet encode max_size (snd (decode received_packet)) (px_fragment_id s) of
                               None \<Rightarrow> None
                             | Some (Inl e) \<Rightarrow> Some (True, s)
                             | Some (Inr fs) \<Rightarrow>
                                 let s = s\<lparr>px_fragment_id := px_fragment_id s + 1\<rparr>
                                 in Some (True, if taken then s\<lparr>px_sent := px_sent s @ fs\<rparr> else s))"

fun proxy_rx_task ::
  "(nat \<Rightarrow> u8 list) \<Rightarrow> (u8 list \<Rightarrow> ('u, nat) result \<times> u8 list) \<Rightarrow> u16 \<Rightarrow> socket_addr \<Rightarrow> u16 \<Rightarrow>
   proxy_recv list \<Rightarrow> proxy_rx \<Rightarrow> (unit, proxy_rx) task_end" where
  "proxy_rx_task encode decode stream_id_size target_addr mtu [] s = TaskRunning s"
| "proxy_rx_task encode decode stream_id_size target_addr mtu (ev # es) s =
     (case proxy_rx_step encode decode stream_id_size target_addr mtu ev s of
        None \<Rightarrow> TaskPanicked
      | Some (False, s) \<Rightarrow> TaskReturned (Inr ()) s
      | Some (True, s) \<Rightarrow> proxy_rx_task encode decode stream_id_size target_addr mtu es s)"

text \<open>\<^verbatim>\<open>accept_proxy_request\<close>: the requests on a connection, each with what its address says.\<close>

record proxy_uri =
  pu_hostname :: string
  pu_target_addr :: socket_addr

record server_params =
  sp_allowed_hosts :: "ip_addr list"
  sp_hostname :: "string option"
  sp_mtu :: u16
  sp_auth_header :: "string option"

record http_request =
  hr_uri :: "proxy_uri option"
  hr_authorization :: "string option"
  hr_bind_ok :: bool
  hr_connect_ok :: bool
  hr_respond_ok :: bool

datatype proxy_decision =
  NoRequest
| BadProxyUri
| InvalidAuth
| DisallowedIp
| FailedSocket
| ResponseFailed
| Proxying socket_addr

definition ip_allowed :: "ip_addr list \<Rightarrow> ip_addr \<Rightarrow> bool" where
  "ip_allowed hosts ip \<longleftrightarrow> hosts = [] \<or> ip \<in> set hosts"

fun accept_proxy_request :: "server_params \<Rightarrow> http_request list \<Rightarrow> proxy_decision" where
  "accept_proxy_request params [] = NoRequest"
| "accept_proxy_request params (request # rest) =
     (case hr_uri request of
        None \<Rightarrow> BadProxyUri
      | Some uri \<Rightarrow>
          if (case sp_auth_header params of
                None \<Rightarrow> False
              | Some required_auth \<Rightarrow> hr_authorization request \<noteq> Some required_auth)
          then InvalidAuth
          else if (case sp_hostname params of None \<Rightarrow> False | Some hostname \<Rightarrow> pu_hostname uri \<noteq> hostname)
          then accept_proxy_request params rest
          else if \<not> ip_allowed (sp_allowed_hosts params) (sa_ip (pu_target_addr uri)) then DisallowedIp
          else if \<not> hr_bind_ok request \<or> \<not> hr_connect_ok request then FailedSocket
          else if \<not> hr_respond_ok request then ResponseFailed
          else Proxying (pu_target_addr uri))"

section \<open>Sizes that fit\<close>

lemma payload_size_at_least: "MIN_MAX_UDP_PAYLOAD_SIZE \<le> compute_udp_payload_size mtu addr"
  by (simp add: compute_udp_payload_size_def Let_def not_less)

lemma payload_fits_mtu:
  assumes "validate_mtu mtu addr = Inr ()"
  shows "unat (compute_udp_payload_size mtu addr) + (if is_ipv4 (sa_ip addr) then 20 else 40) +
    unat UDP_HEADER_SIZE = unat mtu"
proof -
  define overhead :: u16 where "overhead = (if is_ipv4 (sa_ip addr) then 20 else 40)"
  have mtu: "overhead + 8 + 1200 \<le> mtu"
    using assms by (auto simp: validate_mtu_def Let_def MIN_IPV4_MTU_def MIN_IPV6_MTU_def UDP_HEADER_SIZE_def
        overhead_def split: if_splits)
  have o: "unat overhead = (if is_ipv4 (sa_ip addr) then 20 else 40)" by (simp add: overhead_def)
  have "unat (overhead + 8 + 1200) = unat overhead + 1208"
    using o by (auto simp: overhead_def)
  with mtu have le: "unat overhead + 1208 \<le> unat mtu" by (simp add: word_le_nat_alt)
  then have diff: "unat (mtu - overhead - 8) = unat mtu - unat overhead - 8"
    using o by (simp add: unat_sub word_le_nat_alt split: if_splits)
  then have "\<not> mtu - overhead - 8 < 1200"
    using le by (simp add: word_less_nat_alt)
  then have "compute_udp_payload_size mtu addr = mtu - overhead - 8"
    by (simp add: compute_udp_payload_size_def Let_def overhead_def UDP_HEADER_SIZE_def MIN_MAX_UDP_PAYLOAD_SIZE_def)
  with diff le o show ?thesis by (simp add: UDP_HEADER_SIZE_def)
qed

text \<open>
  The client validates its MTU for the family of the target and computes the size for the family of
  the server; if the target has an IPv4 and the server an IPv6 address, packets may be too large.
\<close>

lemma mixed_families_exceed_mtu:
  "validate_mtu 1228 (SocketAddr (V4 a) port) = Inr () \<and>
   1228 < unat (compute_udp_payload_size 1228 (SocketAddr (V6 b) port')) + 40 + unat UDP_HEADER_SIZE"
  by (simp add: validate_mtu_def compute_udp_payload_size_def MIN_IPV4_MTU_def UDP_HEADER_SIZE_def
      MIN_MAX_UDP_PAYLOAD_SIZE_def Let_def)

section \<open>Packets arrive as they were sent\<close>

definition delivered :: "('u defrag_error, defrag_received) result \<Rightarrow> u8 list option" where
  "delivered r = (case r of
     Inr (Reassembled p) \<Rightarrow> Some p | Inr (Nonfragmented p) \<Rightarrow> Some p | Inr Fragment \<Rightarrow> None | Inl _ \<Rightarrow> None)"

lemma delivered_simps [simp]:
  "delivered (Inr (Reassembled p)) = Some p" "delivered (Inr (Nonfragmented p)) = Some p"
  "delivered (Inr Fragment) = None" "delivered (Inl e) = None"
  by (simp_all add: delivered_def)













section \<open>What the server lets through\<close>

lemma proxying_is_authorized:
  assumes "accept_proxy_request params requests = Proxying target"
  shows "\<exists>request \<in> set requests. \<exists>uri. hr_uri request = Some uri \<and> pu_target_addr uri = target \<and>
    (\<forall>auth. sp_auth_header params = Some auth \<longrightarrow> hr_authorization request = Some auth) \<and>
    (\<forall>host. sp_hostname params = Some host \<longrightarrow> pu_hostname uri = host) \<and>
    ip_allowed (sp_allowed_hosts params) (sa_ip target)"
  using assms
  by (induction params requests rule: accept_proxy_request.induct) (auto split: option.splits if_splits)

text \<open>
  The receive buffer of the server is not emptied when reading from the socket fails: the next
  packet then has a second context number in front, and the client delivers it with an extra byte.
\<close>

lemma receive_error_corrupts_next:
  assumes codec: "\<And>bs. decode (encode HTTP_MASQUE_DATAGRAM_CONTEXT_ID @ bs) = (Inr HTTP_MASQUE_DATAGRAM_CONTEXT_ID, bs)"
    and "px_recv_buf s = []"
    and "length (encode HTTP_MASQUE_DATAGRAM_CONTEXT_ID @ encode HTTP_MASQUE_DATAGRAM_CONTEXT_ID @ packet) <
      unat (maximum_packet_size m (compute_udp_payload_size mtu target_addr) stream_id_size)"
  shows "\<exists>d s'. proxy_rx_task encode decode stream_id_size target_addr mtu
      [RecvError, RecvFrom packet target_addr m True] s = TaskRunning s' \<and> px_sent s' = px_sent s @ [d] \<and>
    (\<forall>fs. fst (handle_incoming_packet decode d fs) = Inr (Nonfragmented (encode HTTP_MASQUE_DATAGRAM_CONTEXT_ID @ packet)))"
  using assms(2,3)
  by (auto simp: proxy_rx_step_def Let_def handle_incoming_packet_def parse_header_def codec)

section \<open>Properties\<close>







end
