(* ===== verification/App_Versions.thy ===== *)
theory App_Versions
  imports Prelude "HOL-Library.Product_Lexorder" Complex_Main
begin

text \<open>
  Versions of the app, \<^verbatim>\<open>mullvad-version/src/lib.rs\<close>: their order, their text form and the parser,
  and the choice of an update from the list of releases that \<^verbatim>\<open>mullvad-update\<close> downloads:
  \<^verbatim>\<open>src/version.rs\<close>, the verification of signed metadata in \<^verbatim>\<open>src/format/deserializer.rs\<close>, and the
  query of \<^verbatim>\<open>src/client/api.rs\<close>. JSON, canonical JSON, signatures and hexadecimal numbers are those
  of libraries and come as arguments. Rollout fractions are only compared and are real numbers.
\<close>

section \<open>Versions\<close>

datatype pre_stable_type = Alpha u32 | Beta u32

record version =
  ver_year :: u32
  ver_incremental :: u32
  ver_pre_stable :: "pre_stable_type option"
  ver_dev :: "string option"

datatype ordering = Less | Equal | Greater

definition ord_cmp :: "'a :: linorder \<Rightarrow> 'a \<Rightarrow> ordering" where
  "ord_cmp a b = (if a < b then Less else if a = b then Equal else Greater)"

definition ordering_then :: "ordering \<Rightarrow> ordering \<Rightarrow> ordering" where
  "ordering_then a b = (if a = Equal then b else a)"

fun pre_stable_cmp :: "pre_stable_type \<Rightarrow> pre_stable_type \<Rightarrow> ordering" where
  "pre_stable_cmp (Alpha a) (Alpha b) = ord_cmp a b"
| "pre_stable_cmp (Beta a) (Beta b) = ord_cmp a b"
| "pre_stable_cmp (Alpha _) (Beta _) = Less"
| "pre_stable_cmp (Beta _) (Alpha _) = Greater"

definition is_dev :: "version \<Rightarrow> bool" where
  "is_dev v \<longleftrightarrow> ver_dev v \<noteq> None"

definition version_partial_cmp :: "version \<Rightarrow> version \<Rightarrow> ordering option" where
  "version_partial_cmp self other =
     (let type_ordering = (case (ver_pre_stable self, ver_pre_stable other) of
            (None, None) \<Rightarrow> Equal
          | (Some _, None) \<Rightarrow> Less
          | (None, Some _) \<Rightarrow> Greater
          | (Some self_pre_stable, Some other_pre_stable) \<Rightarrow> pre_stable_cmp self_pre_stable other_pre_stable);
          dev_ordering = (case (ver_dev self, ver_dev other) of
            (Some _, None) \<Rightarrow> Some Greater
          | (None, Some _) \<Rightarrow> Some Less
          | (Some a, Some b) \<Rightarrow> if a \<noteq> b then None else Some Equal
          | (None, None) \<Rightarrow> Some Equal);
          release_ordering = ordering_then
            (ordering_then (ord_cmp (ver_year self) (ver_year other)) (ord_cmp (ver_incremental self) (ver_incremental other)))
            type_ordering
      in case release_ordering of Equal \<Rightarrow> dev_ordering | _ \<Rightarrow> Some release_ordering)"

text \<open>Decimal numbers, as \<^verbatim>\<open>u32\<close> prints and parses them.\<close>

definition digit_char :: "nat \<Rightarrow> char" where
  "digit_char n = char_of (48 + n)"

fun dec_string :: "nat \<Rightarrow> string" where
  "dec_string n = (if n < 10 then [digit_char n] else dec_string (n div 10) @ [digit_char (n mod 10)])"

declare dec_string.simps [simp del]

definition is_digit :: "char \<Rightarrow> bool" where
  "is_digit c \<longleftrightarrow> 48 \<le> (of_char c :: nat) \<and> (of_char c :: nat) \<le> 57"

definition dec_value :: "string \<Rightarrow> nat" where
  "dec_value cs = foldl (\<lambda>n c. 10 * n + (of_char c - 48)) 0 cs"

definition version_to_string :: "version \<Rightarrow> string" where
  "version_to_string v =
     dec_string (unat (ver_year v)) @ ''.'' @ dec_string (unat (ver_incremental v)) @
     (case ver_pre_stable v of
        Some (Alpha n) \<Rightarrow> ''-alpha'' @ dec_string (unat n)
      | Some (Beta n) \<Rightarrow> ''-beta'' @ dec_string (unat n)
      | None \<Rightarrow> '''') @
     (case ver_dev v of Some commit_hash \<Rightarrow> ''-dev-'' @ commit_hash | None \<Rightarrow> '''')"

section \<open>Parsing versions\<close>

text \<open>
  \<^verbatim>\<open>VERSION_REGEX\<close>. After each repetition of the expression comes something that it cannot match
  itself, so that taking as much as possible is the only way to match. The expression is anchored
  at the end of the text, and not at its beginning.
\<close>

definition strip_prefix :: "string \<Rightarrow> string \<Rightarrow> string option" where
  "strip_prefix p cs = (if take (length p) cs = p then Some (drop (length p) cs) else None)"

definition match_year :: "string \<Rightarrow> (string \<times> string) option" where
  "match_year cs = (if 4 \<le> length cs \<and> list_all is_digit (take 4 cs) then Some (take 4 cs, drop 4 cs) else None)"

text \<open>A digit other than zero, and at most \<open>k\<close> digits more.\<close>

definition match_number :: "nat \<Rightarrow> string \<Rightarrow> (string \<times> string) option" where
  "match_number k cs =
     (case cs of
        [] \<Rightarrow> None
      | c # cs \<Rightarrow>
          if is_digit c \<and> c \<noteq> CHR ''0''
          then let ds = takeWhile is_digit (take k cs) in Some (c # ds, drop (length ds) cs)
          else None)"

definition is_hex :: "char \<Rightarrow> bool" where
  "is_hex c \<longleftrightarrow> is_digit c \<or> 97 \<le> (of_char c :: nat) \<and> (of_char c :: nat) \<le> 102"

definition match_pre_stable :: "string \<Rightarrow> pre_stable_type option \<times> string" where
  "match_pre_stable cs =
     (case Option.bind (strip_prefix ''-alpha'' cs) (match_number 2) of
        Some (n, rest) \<Rightarrow> (Some (Alpha (of_nat (dec_value n))), rest)
      | None \<Rightarrow>
          case Option.bind (strip_prefix ''-beta'' cs) (match_number 2) of
            Some (n, rest) \<Rightarrow> (Some (Beta (of_nat (dec_value n))), rest)
          | None \<Rightarrow> (None, cs))"

definition match_dev :: "string \<Rightarrow> string option \<times> string" where
  "match_dev cs =
     (case strip_prefix ''-dev-'' cs of
        None \<Rightarrow> (None, cs)
      | Some rest \<Rightarrow>
          if takeWhile is_hex rest = [] then (None, cs)
          else (Some (takeWhile is_hex rest), dropWhile is_hex rest))"

definition match_version :: "string \<Rightarrow> version option" where
  "match_version cs =
     (case match_year cs of
        None \<Rightarrow> None
      | Some (year, cs) \<Rightarrow>
          case Option.bind (strip_prefix ''.'' cs) (match_number 1) of
            None \<Rightarrow> None
          | Some (incremental, cs) \<Rightarrow>
              let (pre_stable, cs) = match_pre_stable cs; (dev, cs) = match_dev cs
              in if cs = []
                 then Some \<lparr>ver_year = of_nat (dec_value year), ver_incremental = of_nat (dec_value incremental),
                            ver_pre_stable = pre_stable, ver_dev = dev\<rparr>
                 else None)"

text \<open>The expression matches at the first place where it can.\<close>

fun version_from_str :: "string \<Rightarrow> version option" where
  "version_from_str [] = None"
| "version_from_str (c # cs) =
     (case match_version (c # cs) of Some v \<Rightarrow> Some v | None \<Rightarrow> version_from_str cs)"

section \<open>The order of versions\<close>

definition version_key :: "version \<Rightarrow> u32 \<times> u32 \<times> nat \<times> u32" where
  "version_key v = (ver_year v, ver_incremental v,
     (case ver_pre_stable v of Some (Alpha n) \<Rightarrow> (0, n) | Some (Beta n) \<Rightarrow> (1, n) | None \<Rightarrow> (2, 0)))"

lemma version_cmp_key:
  assumes "\<not> is_dev a" and "\<not> is_dev b"
  shows "version_partial_cmp a b = Some (ord_cmp (version_key a) (version_key b))"
  using assms
  by (auto simp: version_partial_cmp_def Let_def version_key_def ordering_then_def ord_cmp_def is_dev_def less_prod_simp
      split: option.splits pre_stable_type.splits ordering.splits)

lemma version_key_inject:
  assumes "\<not> is_dev a" and "\<not> is_dev b" and "version_key a = version_key b"
  shows "a = b"
  using assms
  by (cases a, cases b) (auto simp: version_key_def is_dev_def split: option.splits pre_stable_type.splits)

section \<open>Printing and parsing\<close>

lemma of_char_digit: "n < 10 \<Longrightarrow> (of_char (digit_char n) :: nat) = 48 + n"
  by (simp add: digit_char_def of_char_of)

lemma is_digit_char [simp]: "n < 10 \<Longrightarrow> is_digit (digit_char n)"
  by (simp add: is_digit_def of_char_digit)

lemma digits_dec_string: "list_all is_digit (dec_string n)"
proof (induction n rule: dec_string.induct)
  case (1 n)
  then show ?case by (cases "n < 10") (simp_all add: dec_string.simps [of n])
qed

lemma dec_value_append: "dec_value (cs @ [c]) = 10 * dec_value cs + (of_char c - 48)"
  by (simp add: dec_value_def)

lemma dec_value_string: "dec_value (dec_string n) = n"
proof (induction n rule: dec_string.induct)
  case (1 n)
  show ?case
  proof (cases "n < 10")
    case True
    then show ?thesis by (simp add: dec_string.simps [of n] dec_value_def of_char_digit)
  next
    case False
    with 1 show ?thesis by (simp add: dec_string.simps [of n] dec_value_append of_char_digit)
  qed
qed

lemma length_dec_string: "length (dec_string n) \<le> Suc k \<longleftrightarrow> n < 10 ^ Suc k"
proof (induction k arbitrary: n)
  case 0
  show ?case by (cases "n < 10"; cases "n div 10 < 10") (simp_all add: dec_string.simps [of n] dec_string.simps [of "n div 10"])
next
  case (Suc k)
  have "n div 10 < 10 ^ Suc k \<longleftrightarrow> n < 10 ^ Suc (Suc k)"
    by (simp add: div_less_iff_less_mult mult.commute)
  with Suc [of "n div 10"] show ?case
    by (cases "n < 10") (simp_all add: dec_string.simps [of n] order.strict_trans2 [of n 10])
qed

lemma dec_string_first:
  "0 < n \<Longrightarrow> \<exists>c cs. dec_string n = c # cs \<and> is_digit c \<and> c \<noteq> CHR ''0'' \<and> list_all is_digit cs"
proof (induction n rule: dec_string.induct)
  case (1 n)
  show ?case
  proof (cases "n < 10")
    case True
    have "(of_char (digit_char n) :: nat) \<noteq> of_char (CHR ''0'')"
      using True 1(2) by (simp add: of_char_digit)
    then have "digit_char n \<noteq> CHR ''0''" by metis
    with True show ?thesis by (simp add: dec_string.simps [of n])
  next
    case False
    then obtain c cs where "dec_string (n div 10) = c # cs" "is_digit c" "c \<noteq> CHR ''0''" "list_all is_digit cs"
      using 1(1) by (auto simp: div_greater_zero_iff)
    with False show ?thesis by (simp add: dec_string.simps [of n])
  qed
qed

text \<open>What the expression can match, with a year that is written with four digits.\<close>

definition version_wf :: "version \<Rightarrow> bool" where
  "version_wf v \<longleftrightarrow>
     unat (ver_year v) \<in> {1000..9999} \<and> unat (ver_incremental v) \<in> {1..99} \<and>
     (case ver_pre_stable v of
        None \<Rightarrow> True | Some (Alpha n) \<Rightarrow> unat n \<in> {1..999} | Some (Beta n) \<Rightarrow> unat n \<in> {1..999}) \<and>
     (case ver_dev v of None \<Rightarrow> True | Some h \<Rightarrow> h \<noteq> [] \<and> list_all is_hex h)"

definition no_digit :: "string \<Rightarrow> bool" where
  "no_digit cs \<longleftrightarrow> (case cs of [] \<Rightarrow> True | c # _ \<Rightarrow> \<not> is_digit c)"

lemma no_digit_simps [simp]: "no_digit []" "no_digit (CHR ''-'' # cs)"
  by (simp_all add: no_digit_def is_digit_def)

lemma strip_prefix_append [simp]: "strip_prefix p (p @ cs) = Some cs"
  by (simp add: strip_prefix_def)

lemma takeWhile_digits:
  assumes "list_all is_digit ds" and "length ds \<le> k" and "no_digit cs"
  shows "takeWhile is_digit (take k (ds @ cs)) = ds"
proof -
  have "takeWhile is_digit (take (k - length ds) cs) = []"
    using assms(3) by (cases cs; cases "k - length ds") (auto simp: no_digit_def)
  with assms(1,2) show ?thesis by (simp add: list_all_iff)
qed

lemma match_number_dec:
  assumes "0 < n" and "n < 10 ^ Suc k" and "no_digit cs"
  shows "match_number k (dec_string n @ cs) = Some (dec_string n, cs)"
proof -
  obtain d ds where ds: "dec_string n = d # ds" "is_digit d" "d \<noteq> CHR ''0''" "list_all is_digit ds"
    using dec_string_first [OF assms(1)] by blast
  have "length ds \<le> k" using length_dec_string [of n k] assms(2) by (simp add: ds(1))
  with ds assms(3) show ?thesis by (simp add: match_number_def takeWhile_digits del: take_append)
qed

lemma match_year_dec:
  assumes "1000 \<le> n" and "n \<le> 9999"
  shows "match_year (dec_string n @ cs) = Some (dec_string n, cs)"
proof -
  have "length (dec_string n) = 4"
    using length_dec_string [of n 3] length_dec_string [of n 2] assms by simp
  then show ?thesis using digits_dec_string [of n] by (simp add: match_year_def)
qed

lemma match_dev_text:
  assumes "case dev of None \<Rightarrow> True | Some h \<Rightarrow> h \<noteq> [] \<and> list_all is_hex h"
  shows "match_dev (case dev of Some h \<Rightarrow> ''-dev-'' @ h | None \<Rightarrow> []) = (dev, [])"
proof (cases dev)
  case None
  then show ?thesis by (simp add: match_dev_def strip_prefix_def)
next
  case (Some h)
  have "strip_prefix ''-dev-'' (''-dev-'' @ h) = Some h" by (rule strip_prefix_append)
  moreover have "takeWhile is_hex h = h" "dropWhile is_hex h = []" "h \<noteq> []"
    using assms Some by (simp_all add: list_all_iff)
  ultimately show ?thesis by (simp only: Some match_dev_def option.case if_False)
qed

lemma match_pre_stable_text:
  assumes "case pre of None \<Rightarrow> True | Some (Alpha n) \<Rightarrow> unat n \<in> {1..999} | Some (Beta n) \<Rightarrow> unat n \<in> {1..999}"
    and "cs = [] \<or> (\<exists>h. cs = ''-dev-'' @ h)"
  shows "match_pre_stable ((case pre of Some (Alpha n) \<Rightarrow> ''-alpha'' @ dec_string (unat n)
      | Some (Beta n) \<Rightarrow> ''-beta'' @ dec_string (unat n) | None \<Rightarrow> []) @ cs) = (pre, cs)"
proof -
  have digit: "no_digit cs" using assms(2) by auto
  have number: "match_number 2 (dec_string (unat n) @ cs) = Some (dec_string (unat n), cs)"
    if "unat n \<in> {1..999}" for n :: u32
    using that digit by (intro match_number_dec) auto
  consider "pre = None" | n where "pre = Some (Alpha n)" | n where "pre = Some (Beta n)"
    by (metis option.exhaust pre_stable_type.exhaust)
  then show ?thesis
  proof cases
    case 1
    then show ?thesis using assms(2) by (auto simp: match_pre_stable_def strip_prefix_def)
  next
    case (2 n)
    have "strip_prefix ''-alpha'' (''-alpha'' @ dec_string (unat n) @ cs) = Some (dec_string (unat n) @ cs)"
      by (rule strip_prefix_append)
    with 2 number [of n] assms(1) show ?thesis
      by (simp add: match_pre_stable_def dec_value_string del: append.simps)
  next
    case (3 n)
    have "strip_prefix ''-beta'' (''-beta'' @ dec_string (unat n) @ cs) = Some (dec_string (unat n) @ cs)"
      by (rule strip_prefix_append)
    moreover have "strip_prefix ''-alpha'' (''-beta'' @ dec_string (unat n) @ cs) = None"
      by (simp add: strip_prefix_def)
    ultimately show ?thesis
      using 3 number [of n] assms(1) by (simp add: match_pre_stable_def dec_value_string del: append.simps)
  qed
qed

lemma match_version_text:
  assumes "version_wf v"
  shows "match_version (version_to_string v) = Some v"
proof -
  define dev where "dev = (case ver_dev v of Some h \<Rightarrow> ''-dev-'' @ h | None \<Rightarrow> [])"
  define pre where "pre = (case ver_pre_stable v of Some (Alpha n) \<Rightarrow> ''-alpha'' @ dec_string (unat n)
      | Some (Beta n) \<Rightarrow> ''-beta'' @ dec_string (unat n) | None \<Rightarrow> [])"
  note wf = assms [unfolded version_wf_def]
  have year: "match_year (dec_string (unat (ver_year v)) @ cs) = Some (dec_string (unat (ver_year v)), cs)" for cs
    using wf by (intro match_year_dec) auto
  have "no_digit (pre @ dev)"
    by (auto simp: pre_def dev_def split: option.split pre_stable_type.split)
  then have inc: "match_number 1 (dec_string (unat (ver_incremental v)) @ pre @ dev) =
      Some (dec_string (unat (ver_incremental v)), pre @ dev)"
    using wf by (intro match_number_dec) auto
  have m_pre: "match_pre_stable (pre @ dev) = (ver_pre_stable v, dev)"
    unfolding pre_def by (rule match_pre_stable_text) (use wf in \<open>auto simp: dev_def split: option.split\<close>)
  have m_dev: "match_dev dev = (ver_dev v, [])"
    unfolding dev_def by (rule match_dev_text) (use wf in auto)
  have printed: "version_to_string v = dec_string (unat (ver_year v)) @ ''.'' @ dec_string (unat (ver_incremental v)) @ pre @ dev"
    by (simp add: version_to_string_def pre_def dev_def)
  have dot: "strip_prefix ''.'' (''.'' @ cs) = Some cs" for cs by (rule strip_prefix_append)
  show ?thesis
    unfolding printed match_version_def year by (simp add: dot inc m_pre m_dev dec_value_string del: append.simps One_nat_def)
qed

lemma version_to_string_parses:
  assumes "version_wf v"
  shows "version_from_str (version_to_string v) = Some v"
proof -
  have "version_to_string v \<noteq> []" by (simp add: version_to_string_def)
  then show ?thesis
    using match_version_text [OF assms] by (cases "version_to_string v") auto
qed

text \<open>The parser accepts text in front of a version, and years that are not printed as they were read.\<close>

lemma version_after_garbage:
  "version_from_str ''not-a-version-2025.1'' =
     Some \<lparr>ver_year = 2025, ver_incremental = 1, ver_pre_stable = None, ver_dev = None\<rparr>"
  by code_simp

lemma version_year_with_zeros:
  "map_option version_to_string (version_from_str ''0025.1'') = Some ''25.1'' \<and> version_from_str ''25.1'' = None"
  by code_simp

section \<open>Releases\<close>

datatype architecture = X86 | Arm64

record installer =
  in_architecture :: architecture
  in_urls :: "string list"
  in_size :: nat
  in_sha256 :: string

record release =
  rel_version :: version
  rel_changelog :: string
  rel_installers :: "installer list"
  rel_rollout :: real

record response =
  rsp_metadata_version :: nat
  rsp_metadata_expiry :: int
  rsp_releases :: "release list"

record version_parameters =
  vp_architecture :: architecture
  vp_rollout :: real
  vp_allow_empty :: bool
  vp_lowest_metadata_version :: nat

record app_version =
  av_version :: version
  av_urls :: "string list"
  av_size :: nat
  av_changelog :: string
  av_sha256 :: "u8 list"

record version_info =
  vi_stable :: app_version
  vi_beta :: "app_version option"

datatype update_error =
  InvalidVersionJson
| UnrecognizedKey
| CanonicalJsonFailed
| SignatureVerificationFailed
| CanonicalJsonInvalid
| ResponseInvalid
| MetadataExpired int
| MetadataTooOld nat nat
| DuplicateVersions
| InvalidChecksumHex
| InvalidChecksumLength
| NoStableVersion

text \<open>A rollout fraction from the metadata; infinities and other special values do not occur here.\<close>

definition rollout_try_from :: "real \<Rightarrow> real option" where
  "rollout_try_from r = (if 0 \<le> r \<and> r \<le> 1 then Some r else None)"

text \<open>\<^verbatim>\<open>Iterator::max_by\<close>: of several greatest elements the last one.\<close>

definition max_by :: "('a \<Rightarrow> 'a \<Rightarrow> ordering) \<Rightarrow> 'a list \<Rightarrow> 'a option" where
  "max_by cmp xs = (case xs of [] \<Rightarrow> None | x # xs \<Rightarrow> Some (foldl (\<lambda>m y. if cmp m y = Greater then m else y) x xs))"

definition version_order :: "app_version \<Rightarrow> app_version \<Rightarrow> ordering" where
  "version_order a b = (case version_partial_cmp (av_version a) (av_version b) of Some c \<Rightarrow> c | None \<Rightarrow> Equal)"

definition release_version ::
  "(string \<Rightarrow> u8 list option) \<Rightarrow> version_parameters \<Rightarrow> release \<Rightarrow> (update_error, app_version) result option" where
  "release_version hex_decode params release =
     (if rel_installers release = [] \<and> vp_allow_empty params
      then Some (Inr \<lparr>av_version = rel_version release, av_urls = [], av_size = 0,
             av_changelog = rel_changelog release, av_sha256 = replicate 32 0\<rparr>)
      else map_option (\<lambda>installer.
             case hex_decode (in_sha256 installer) of
               None \<Rightarrow> Inl InvalidChecksumHex
             | Some sha256 \<Rightarrow>
                 if length sha256 \<noteq> 32 then Inl InvalidChecksumLength
                 else Inr \<lparr>av_version = rel_version release, av_urls = in_urls installer, av_size = in_size installer,
                            av_changelog = rel_changelog release, av_sha256 = sha256\<rparr>)
             (find (\<lambda>installer. vp_architecture params = in_architecture installer) (rel_installers release)))"

text \<open>\<^verbatim>\<open>Itertools::try_collect\<close>: the first error ends it.\<close>

fun try_collect :: "('e, 'a) result list \<Rightarrow> ('e, 'a list) result" where
  "try_collect [] = Inr []"
| "try_collect (r # rs) = and_then r (\<lambda>a. and_then (try_collect rs) (\<lambda>as. Inr (a # as)))"

definition try_from_response ::
  "(string \<Rightarrow> u8 list option) \<Rightarrow> version_parameters \<Rightarrow> response \<Rightarrow> (update_error, version_info) result" where
  "try_from_response hex_decode params response =
     (if \<not> distinct (map rel_version (rsp_releases response)) then Inl DuplicateVersions
      else and_then
        (try_collect (List.map_filter (release_version hex_decode params)
          (filter (\<lambda>release. \<not> is_dev (rel_version release))
            (filter (\<lambda>release. vp_rollout params \<le> rel_rollout release) (rsp_releases response)))))
        (\<lambda>available_versions.
           case max_by version_order (filter (\<lambda>v. ver_pre_stable (av_version v) = None) available_versions) of
             None \<Rightarrow> Inl NoStableVersion
           | Some latest \<Rightarrow>
               Inr \<lparr>vi_stable = latest,
                    vi_beta = max_by version_order
                      (filter (\<lambda>v. version_partial_cmp (av_version v) (av_version latest) = Some Greater)
                        (filter (\<lambda>v. case ver_pre_stable (av_version v) of Some (Beta _) \<Rightarrow> True | _ \<Rightarrow> False)
                          available_versions))\<rparr>))"

definition is_version_supported :: "version \<Rightarrow> response \<Rightarrow> bool" where
  "is_version_supported current_version response =
     list_ex (\<lambda>release. rel_version release = current_version) (rsp_releases response)"

section \<open>Signed metadata\<close>

datatype ('k, 'g) response_signature = Ed25519 'k 'g | OtherSignature string string

text \<open>
  What the libraries do: reading JSON with the signatures apart, writing a JSON value in canonical
  form, reading it again, turning it into a response, and checking a signature.
\<close>

record ('j, 'k, 'g) metadata_library =
  ml_from_slice :: "u8 list \<Rightarrow> (('k, 'g) response_signature list \<times> 'j) option"
  ml_to_canon :: "'j \<Rightarrow> u8 list option"
  ml_value_from_slice :: "u8 list \<Rightarrow> 'j option"
  ml_from_value :: "'j \<Rightarrow> response option"
  ml_verify_strict :: "'k \<Rightarrow> u8 list \<Rightarrow> 'g \<Rightarrow> bool"

definition verify_signatures ::
  "('j, 'k, 'g) metadata_library \<Rightarrow> 'k list \<Rightarrow> u8 list \<Rightarrow>
   (update_error, ('k, 'g) response_signature list \<times> 'j) result" where
  "verify_signatures lib keys bytes =
     (case ml_from_slice lib bytes of
        None \<Rightarrow> Inl InvalidVersionJson
      | Some (signatures, signed_data) \<Rightarrow>
          case find_map (\<lambda>s. case s of Ed25519 keyid sig \<Rightarrow> if keyid \<in> set keys then Some (keyid, sig) else None
                             | OtherSignature _ _ \<Rightarrow> None) signatures of
            None \<Rightarrow> Inl UnrecognizedKey
          | Some (key, sig) \<Rightarrow>
              case ml_to_canon lib signed_data of
                None \<Rightarrow> Inl CanonicalJsonFailed
              | Some canon_data \<Rightarrow>
                  if \<not> ml_verify_strict lib key canon_data sig then Inl SignatureVerificationFailed
                  else case ml_value_from_slice lib canon_data of
                         None \<Rightarrow> Inl CanonicalJsonInvalid
                       | Some signed_data \<Rightarrow> Inr (signatures, signed_data))"

record ('k, 'g) signed_response =
  sr_signatures :: "('k, 'g) response_signature list"
  sr_signed :: response

definition deserialize_and_verify_at_time ::
  "('j, 'k, 'g) metadata_library \<Rightarrow> 'k list \<Rightarrow> u8 list \<Rightarrow> int \<Rightarrow> nat \<Rightarrow>
   (update_error, ('k, 'g) signed_response) result" where
  "deserialize_and_verify_at_time lib keys bytes current_time min_metadata_version =
     and_then (verify_signatures lib keys bytes) (\<lambda>(signatures, signed_data).
       case ml_from_value lib signed_data of
         None \<Rightarrow> Inl ResponseInvalid
       | Some response \<Rightarrow>
           if rsp_metadata_expiry response \<le> current_time then Inl (MetadataExpired (rsp_metadata_expiry response))
           else if rsp_metadata_version response < min_metadata_version
           then Inl (MetadataTooOld (rsp_metadata_version response) min_metadata_version)
           else Inr \<lparr>sr_signatures = signatures, sr_signed = response\<rparr>)"

text \<open>\<^verbatim>\<open>get_version_info\<close>, on the bytes that were downloaded.\<close>

definition get_version_info ::
  "('j, 'k, 'g) metadata_library \<Rightarrow> (string \<Rightarrow> u8 list option) \<Rightarrow> 'k list \<Rightarrow> int \<Rightarrow> version_parameters \<Rightarrow> u8 list \<Rightarrow>
   (update_error, version_info) result" where
  "get_version_info lib hex_decode keys current_time params raw_json =
     and_then (deserialize_and_verify_at_time lib keys raw_json current_time (vp_lowest_metadata_version params))
       (\<lambda>response. try_from_response hex_decode params (sr_signed response))"

section \<open>The update that is offered\<close>

lemma ord_cmp_simps [simp]:
  "ord_cmp a b = Greater \<longleftrightarrow> b < a" "ord_cmp a b = Less \<longleftrightarrow> a < b" "ord_cmp a b = Equal \<longleftrightarrow> a = b"
  by (auto simp: ord_cmp_def)

abbreviation app_key :: "app_version \<Rightarrow> u32 \<times> u32 \<times> nat \<times> u32" where
  "app_key v \<equiv> version_key (av_version v)"

lemma version_order_key:
  "\<not> is_dev (av_version a) \<Longrightarrow> \<not> is_dev (av_version b) \<Longrightarrow> version_order a b = ord_cmp (app_key a) (app_key b)"
  by (simp add: version_order_def version_cmp_key)

lemma foldl_max:
  assumes "\<forall>y \<in> set (x # xs). \<not> is_dev (av_version y)"
  shows "foldl (\<lambda>m y. if version_order m y = Greater then m else y) x xs \<in> set (x # xs) \<and>
    (\<forall>y \<in> set (x # xs). app_key y \<le> app_key (foldl (\<lambda>m y. if version_order m y = Greater then m else y) x xs))"
  using assms
proof (induction xs arbitrary: x)
  case (Cons y ys)
  define m where "m = (if version_order x y = Greater then x else y)"
  have "app_key x \<le> app_key m" "app_key y \<le> app_key m" "m \<in> {x, y}"
    using Cons.prems by (auto simp: m_def version_order_key not_less)
  moreover have "foldl (\<lambda>m y. if version_order m y = Greater then m else y) m ys \<in> set (m # ys) \<and>
    (\<forall>z \<in> set (m # ys). app_key z \<le> app_key (foldl (\<lambda>m y. if version_order m y = Greater then m else y) m ys))"
    by (rule Cons.IH) (use Cons.prems in \<open>auto simp: m_def\<close>)
  ultimately show ?case by (auto simp: m_def [symmetric] intro: order_trans)
qed simp

lemma max_by_version:
  assumes "\<forall>x \<in> set xs. \<not> is_dev (av_version x)"
  shows "case max_by version_order xs of
      None \<Rightarrow> xs = [] | Some m \<Rightarrow> m \<in> set xs \<and> (\<forall>x \<in> set xs. app_key x \<le> app_key m)"
  using foldl_max [of "hd xs" "tl xs"] assms by (cases xs) (auto simp: max_by_def)

lemma try_collect_Inr: "try_collect rs = Inr as \<Longrightarrow> rs = map Inr as"
  by (induction rs arbitrary: as) (auto simp: and_then_eq_Inr)

lemma set_map_filter: "y \<in> set (List.map_filter f xs) \<longleftrightarrow> (\<exists>x \<in> set xs. f x = Some y)"
  by (auto simp: List.map_filter_def image_iff)

text \<open>The releases that may be offered: rolled out to this client, not of developers, with an installer.\<close>

definition eligible :: "version_parameters \<Rightarrow> release \<Rightarrow> bool" where
  "eligible params r \<longleftrightarrow> vp_rollout params \<le> rel_rollout r \<and> \<not> is_dev (rel_version r) \<and>
     (rel_installers r = [] \<and> vp_allow_empty params \<or>
      (\<exists>i \<in> set (rel_installers r). in_architecture i = vp_architecture params))"

definition is_beta :: "version \<Rightarrow> bool" where
  "is_beta v \<longleftrightarrow> (case ver_pre_stable v of Some (Beta _) \<Rightarrow> True | _ \<Rightarrow> False)"

lemma release_version_None:
  "release_version hex_decode params r = None \<longleftrightarrow>
     \<not> (rel_installers r = [] \<and> vp_allow_empty params \<or>
        (\<exists>i \<in> set (rel_installers r). in_architecture i = vp_architecture params))"
  by (auto simp: release_version_def find_None_iff)

lemma release_version_version: "release_version hex_decode params r = Some (Inr v) \<Longrightarrow> av_version v = rel_version r"
  by (auto simp: release_version_def split: if_splits option.splits)

text \<open>An offered version is that of an eligible release, with the checksum of its installer.\<close>

definition offered :: "(string \<Rightarrow> u8 list option) \<Rightarrow> version_parameters \<Rightarrow> release list \<Rightarrow> app_version \<Rightarrow> bool" where
  "offered hex_decode params releases v \<longleftrightarrow>
     (\<exists>r \<in> set releases. eligible params r \<and> av_version v = rel_version r \<and> av_changelog v = rel_changelog r \<and>
        (if rel_installers r = [] then av_urls v = [] \<and> av_size v = 0
         else \<exists>i \<in> set (rel_installers r). in_architecture i = vp_architecture params \<and>
           av_urls v = in_urls i \<and> av_size v = in_size i \<and> hex_decode (in_sha256 i) = Some (av_sha256 v) \<and>
           length (av_sha256 v) = 32))"

lemma release_version_offered:
  assumes "release_version hex_decode params r = Some (Inr v)" and "r \<in> set releases"
    and "vp_rollout params \<le> rel_rollout r" and "\<not> is_dev (rel_version r)"
  shows "offered hex_decode params releases v"
proof -
  have "eligible params r"
    using assms(1,3,4) release_version_None [of hex_decode params r] by (auto simp: eligible_def)
  then show ?thesis
    using assms(1,2) unfolding offered_def release_version_def
    by (fastforce split: if_splits option.splits simp: find_Some_iff)
qed

text \<open>What a version is the newest of.\<close>

definition newest :: "version_parameters \<Rightarrow> release list \<Rightarrow> (version \<Rightarrow> bool) \<Rightarrow> app_version \<Rightarrow> bool" where
  "newest params releases P v \<longleftrightarrow>
     P (av_version v) \<and>
     (\<forall>r \<in> set releases. eligible params r \<and> P (rel_version r) \<longrightarrow> version_key (rel_version r) \<le> app_key v)"

lemma try_from_response_ok:
  assumes "try_from_response hex_decode params response = Inr info"
  shows "offered hex_decode params (rsp_releases response) (vi_stable info) \<and>
    newest params (rsp_releases response) (\<lambda>v. ver_pre_stable v = None) (vi_stable info) \<and>
    (case vi_beta info of
       None \<Rightarrow> \<forall>r \<in> set (rsp_releases response). eligible params r \<and> is_beta (rel_version r) \<longrightarrow>
         version_key (rel_version r) \<le> app_key (vi_stable info)
     | Some b \<Rightarrow> offered hex_decode params (rsp_releases response) b \<and> app_key (vi_stable info) < app_key b \<and>
         newest params (rsp_releases response) is_beta b)"
proof -
  let ?rs = "filter (\<lambda>r. \<not> is_dev (rel_version r)) (filter (\<lambda>r. vp_rollout params \<le> rel_rollout r) (rsp_releases response))"
  obtain vs where vs: "try_collect (List.map_filter (release_version hex_decode params) ?rs) = Inr vs"
    using assms by (auto simp: try_from_response_def split: if_splits)
  have all: "Inr ` set vs = set (List.map_filter (release_version hex_decode params) ?rs)"
    using try_collect_Inr [OF vs] by simp
  have from_release: "\<exists>r \<in> set ?rs. release_version hex_decode params r = Some (Inr v)" if "v \<in> set vs" for v
  proof -
    have "Inr v \<in> set (List.map_filter (release_version hex_decode params) ?rs)"
      using that by (subst all [symmetric]) simp
    then show ?thesis by (simp only: set_map_filter)
  qed
  have to_version: "\<exists>v \<in> set vs. av_version v = rel_version r" if r: "r \<in> set (rsp_releases response)" "eligible params r" for r
  proof -
    obtain x where x: "release_version hex_decode params r = Some x"
      using r(2) release_version_None [of hex_decode params r] by (auto simp: eligible_def)
    then have "x \<in> Inr ` set vs" unfolding all set_map_filter using r by (auto simp: eligible_def)
    with x obtain v where "v \<in> set vs" and "release_version hex_decode params r = Some (Inr v)" by auto
    then show ?thesis using release_version_version by blast
  qed
  have no_dev: "\<not> is_dev (av_version v)" if "v \<in> set vs" for v
    using from_release [OF that] release_version_version by fastforce
  have is_offered: "offered hex_decode params (rsp_releases response) v" if "v \<in> set vs" for v
    using from_release [OF that] release_version_offered by fastforce
  let ?stable = "filter (\<lambda>v. ver_pre_stable (av_version v) = None) vs"
  obtain latest where latest: "max_by version_order ?stable = Some latest"
    and info: "info = \<lparr>vi_stable = latest, vi_beta = max_by version_order
      (filter (\<lambda>v. version_partial_cmp (av_version v) (av_version latest) = Some Greater)
        (filter (\<lambda>v. is_beta (av_version v)) vs))\<rparr>"
    using assms vs by (auto simp: try_from_response_def is_beta_def split: if_splits option.splits)
  let ?beta = "filter (\<lambda>v. version_partial_cmp (av_version v) (av_version latest) = Some Greater)
    (filter (\<lambda>v. is_beta (av_version v)) vs)"
  have stable: "latest \<in> set ?stable" "\<forall>v \<in> set ?stable. app_key v \<le> app_key latest"
    using max_by_version [of ?stable] latest no_dev by auto
  have newer: "version_partial_cmp (av_version v) (av_version latest) = Some Greater \<longleftrightarrow> app_key latest < app_key v"
    if "v \<in> set vs" for v
    using that stable(1) no_dev by (simp add: version_cmp_key)
  have "newest params (rsp_releases response) (\<lambda>v. ver_pre_stable v = None) latest"
    using stable to_version by (fastforce simp: newest_def)
  moreover have "case max_by version_order ?beta of
       None \<Rightarrow> \<forall>r \<in> set (rsp_releases response). eligible params r \<and> is_beta (rel_version r) \<longrightarrow>
         version_key (rel_version r) \<le> app_key latest
     | Some b \<Rightarrow> offered hex_decode params (rsp_releases response) b \<and> app_key latest < app_key b \<and>
         newest params (rsp_releases response) is_beta b"
  proof (cases "max_by version_order ?beta")
    case None
    have "?beta = []" using max_by_version [of ?beta] None no_dev by auto
    then have "\<not> app_key latest < app_key v" if "v \<in> set vs" "is_beta (av_version v)" for v
      using that newer by (auto simp: filter_empty_conv)
    then show ?thesis using None to_version by (fastforce simp: not_less)
  next
    case (Some b)
    have b: "b \<in> set ?beta" "\<forall>v \<in> set ?beta. app_key v \<le> app_key b"
      using max_by_version [of ?beta] Some no_dev by auto
    have "app_key v \<le> app_key b" if "v \<in> set vs" "is_beta (av_version v)" for v
      using b that newer by (cases "app_key latest < app_key v") auto
    then have "newest params (rsp_releases response) is_beta b"
      using b(1) to_version by (fastforce simp: newest_def)
    with Some b(1) show ?thesis using is_offered newer by auto
  qed
  moreover have "offered hex_decode params (rsp_releases response) latest"
    using stable(1) is_offered by simp
  ultimately show ?thesis unfolding info version_info.simps by (intro conjI)
qed

lemma find_map_signature:
  assumes "find_map (\<lambda>s. case s of Ed25519 keyid sig \<Rightarrow> if keyid \<in> set keys then Some (keyid, sig) else None
      | OtherSignature _ _ \<Rightarrow> None) signatures = Some (key, sig)"
  shows "Ed25519 key sig \<in> set signatures \<and> key \<in> set keys"
proof -
  obtain s where s: "s \<in> set signatures" "(case s of Ed25519 keyid sig \<Rightarrow> if keyid \<in> set keys then Some (keyid, sig) else None
      | OtherSignature _ _ \<Rightarrow> None) = Some (key, sig)"
    using find_map_Some [OF assms] by blast
  show ?thesis
  proof (cases s)
    case (Ed25519 a b)
    with s show ?thesis by (auto split: if_splits)
  next
    case (OtherSignature a b)
    with s show ?thesis by simp
  qed
qed

lemma verified_metadata:
  assumes "deserialize_and_verify_at_time lib keys bytes current_time min_metadata_version = Inr r"
  shows "\<exists>signatures signed_data key sig canon_data canon_value. ml_from_slice lib bytes = Some (signatures, signed_data) \<and>
    Ed25519 key sig \<in> set signatures \<and> key \<in> set keys \<and> ml_to_canon lib signed_data = Some canon_data \<and>
    ml_verify_strict lib key canon_data sig \<and> ml_value_from_slice lib canon_data = Some canon_value \<and>
    ml_from_value lib canon_value = Some (sr_signed r) \<and> current_time < rsp_metadata_expiry (sr_signed r) \<and>
    min_metadata_version \<le> rsp_metadata_version (sr_signed r)"
proof -
  obtain signatures canon_value where v: "verify_signatures lib keys bytes = Inr (signatures, canon_value)"
    and r: "ml_from_value lib canon_value = Some (sr_signed r)" "current_time < rsp_metadata_expiry (sr_signed r)"
      "min_metadata_version \<le> rsp_metadata_version (sr_signed r)"
    using assms by (auto simp: deserialize_and_verify_at_time_def split: option.splits if_splits)
  obtain signed_data key sig canon_data where "ml_from_slice lib bytes = Some (signatures, signed_data)"
    and k: "find_map (\<lambda>s. case s of Ed25519 keyid sig \<Rightarrow> if keyid \<in> set keys then Some (keyid, sig) else None
      | OtherSignature _ _ \<Rightarrow> None) signatures = Some (key, sig)"
    and "ml_to_canon lib signed_data = Some canon_data" "ml_verify_strict lib key canon_data sig"
      "ml_value_from_slice lib canon_data = Some canon_value"
    using v by (auto simp: verify_signatures_def split: option.splits prod.splits if_splits)
  with r find_map_signature [OF k] show ?thesis by blast
qed

section \<open>Properties\<close>

text \<open>
  C32. An update that is offered is authentic and the newest one: what was downloaded carries the
  signature of a trusted key on exactly the bytes that the releases are read from, has not expired
  and is not older than the metadata already seen; the stable version is the newest of the stable
  releases that are rolled out to this client and have an installer for its architecture, with that
  installer's checksum; and a beta version is offered exactly if there is a newer one, the newest.
\<close>

theorem offered_update_is_authentic_and_newest:
  assumes "get_version_info lib hex_decode keys current_time params raw_json = Inr info"
  shows "\<exists>signatures signed_data key sig canon_data canon_value response.
    ml_from_slice lib raw_json = Some (signatures, signed_data) \<and> Ed25519 key sig \<in> set signatures \<and> key \<in> set keys \<and>
    ml_to_canon lib signed_data = Some canon_data \<and> ml_verify_strict lib key canon_data sig \<and>
    ml_value_from_slice lib canon_data = Some canon_value \<and> ml_from_value lib canon_value = Some response \<and>
    current_time < rsp_metadata_expiry response \<and> vp_lowest_metadata_version params \<le> rsp_metadata_version response \<and>
    offered hex_decode params (rsp_releases response) (vi_stable info) \<and>
    newest params (rsp_releases response) (\<lambda>v. ver_pre_stable v = None) (vi_stable info) \<and>
    (case vi_beta info of
       None \<Rightarrow> \<forall>r \<in> set (rsp_releases response). eligible params r \<and> is_beta (rel_version r) \<longrightarrow>
         version_key (rel_version r) \<le> version_key (av_version (vi_stable info))
     | Some b \<Rightarrow> offered hex_decode params (rsp_releases response) b \<and>
         version_key (av_version (vi_stable info)) < version_key (av_version b) \<and>
         newest params (rsp_releases response) is_beta b)"
proof -
  obtain r where r: "deserialize_and_verify_at_time lib keys raw_json current_time (vp_lowest_metadata_version params) = Inr r"
    and info: "try_from_response hex_decode params (sr_signed r) = Inr info"
    using assms by (auto simp: get_version_info_def)
  from verified_metadata [OF r] try_from_response_ok [OF info] show ?thesis by blast
qed

text \<open>A list of releases as its own JSON, with the number of releases as signature.\<close>

definition sample_version :: "u32 \<Rightarrow> u32 \<Rightarrow> pre_stable_type option \<Rightarrow> version" where
  "sample_version y i p = \<lparr>ver_year = y, ver_incremental = i, ver_pre_stable = p, ver_dev = None\<rparr>"

definition sample_release :: "version \<Rightarrow> release" where
  "sample_release v = \<lparr>rel_version = v, rel_changelog = ''fixes'',
     rel_installers = [\<lparr>in_architecture = X86, in_urls = [''url''], in_size = 7, in_sha256 = ''00''\<rparr>], rel_rollout = 1\<rparr>"

definition sample_response :: response where
  "sample_response = \<lparr>rsp_metadata_version = 5, rsp_metadata_expiry = 100,
     rsp_releases = map sample_release [sample_version 2025 1 None, sample_version 2025 3 None, sample_version 2025 2 None,
       sample_version 2025 4 (Some (Beta 1))]\<rparr>"

definition sample_library :: "(response, nat, nat) metadata_library" where
  "sample_library = \<lparr>ml_from_slice = (\<lambda>bytes. Some ([Ed25519 7 (length bytes)], sample_response)),
     ml_to_canon = (\<lambda>r. Some [1, 2]), ml_value_from_slice = (\<lambda>bs. Some sample_response),
     ml_from_value = Some, ml_verify_strict = (\<lambda>key bs sig. sig = length bs)\<rparr>"

definition sample_params :: version_parameters where
  "sample_params = \<lparr>vp_architecture = X86, vp_rollout = 1 / 2, vp_allow_empty = False, vp_lowest_metadata_version = 5\<rparr>"

lemma sample_offer:
  "\<exists>info. get_version_info sample_library (\<lambda>_. Some (replicate 32 0)) [7] 99 sample_params [0, 0] = Inr info \<and>
     av_version (vi_stable info) = sample_version 2025 3 None"
  by (simp add: get_version_info_def deserialize_and_verify_at_time_def verify_signatures_def sample_library_def
      sample_response_def sample_params_def try_from_response_def sample_release_def sample_version_def is_dev_def
      release_version_def map_filter_simps max_by_def version_order_def version_partial_cmp_def ord_cmp_def ordering_then_def)

theorem offered_update_is_authentic_and_newest_witness:
  "\<exists>info (response :: response). get_version_info sample_library (\<lambda>_. Some (replicate 32 0)) [7] 99 sample_params [0, 0] = Inr info \<and>
     av_version (vi_stable info) = sample_version 2025 3 None \<and>
     99 < rsp_metadata_expiry response \<and> newest sample_params (rsp_releases response) (\<lambda>v. ver_pre_stable v = None) (vi_stable info)"
proof -
  obtain info where info: "get_version_info sample_library (\<lambda>_. Some (replicate 32 0)) [7] 99 sample_params [0, 0] = Inr info"
    and v: "av_version (vi_stable info) = sample_version 2025 3 None"
    using sample_offer by blast
  have "\<exists>response :: response. 99 < rsp_metadata_expiry response \<and>
    newest sample_params (rsp_releases response) (\<lambda>v. ver_pre_stable v = None) (vi_stable info)"
    using offered_update_is_authentic_and_newest [OF info] by (elim exE conjE) (intro exI conjI)
  with info v show ?thesis by blast
qed

text \<open>
  Printing and parsing versions: the text of a version whose numbers are in the range of the
  format is parsed to that version again.
\<close>

theorem version_text_roundtrip:
  assumes "version_wf v"
  shows "version_from_str (version_to_string v) = Some v"
  using assms by (rule version_to_string_parses)

theorem version_text_roundtrip_witness:
  "version_from_str (version_to_string \<lparr>ver_year = 2025, ver_incremental = 14, ver_pre_stable = Some (Beta 3),
     ver_dev = Some ''0b60e4''\<rparr>) =
   Some \<lparr>ver_year = 2025, ver_incremental = 14, ver_pre_stable = Some (Beta 3), ver_dev = Some ''0b60e4''\<rparr>"
  by (rule version_text_roundtrip) (simp add: version_wf_def is_hex_def is_digit_def)

end
