(* ===== verification/Settings_Patch.thy ===== *)
theory Settings_Patch
  imports Prelude "HOL-Library.AList"
begin

text \<open>
  Patches of the settings, \<^verbatim>\<open>mullvad-daemon/src/settings/patch.rs\<close>: validation of a patch against the
  keys that may be changed, and the merge with the current settings. Settings are seen as JSON; how
  they are turned into it and back is the library's, and comes as arguments. The lemmas relate the
  merge to the contract that \<^verbatim>\<open>docs/settings-patch-format.md\<close> gives for patches.
\<close>

section \<open>JSON\<close>

text \<open>
  Numbers are their text. The entries of an object are in the order in which \<^verbatim>\<open>serde_json::Map\<close>
  iterates over them, except that a new one comes last; the order matters for nothing but which of
  several errors is reported.
\<close>

datatype json =
  JNull
| JBool bool
| JNumber string
| JString string
| JArray "json list"
| JObject "(string \<times> json) list"

definition as_array :: "json \<Rightarrow> json list option" where
  "as_array j = (case j of JArray js \<Rightarrow> Some js | _ \<Rightarrow> None)"

definition as_object :: "json \<Rightarrow> (string \<times> json) list option" where
  "as_object j = (case j of JObject es \<Rightarrow> Some es | _ \<Rightarrow> None)"

definition as_str :: "json \<Rightarrow> string option" where
  "as_str j = (case j of JString s \<Rightarrow> Some s | _ \<Rightarrow> None)"

datatype patch_error =
  InvalidOrMissingValue string
| UnknownOrProhibitedKey string
| ParsePatch
| DeserializePatched
| SerializeSettings
| SerializeValue
| RecursionLimit

definition ok_or_missing :: "'a option \<Rightarrow> string \<Rightarrow> (patch_error, 'a) result" where
  "ok_or_missing x what = (case x of Some a \<Rightarrow> Inr a | None \<Rightarrow> Inl (InvalidOrMissingValue what))"

section \<open>Permitted keys\<close>

datatype merge_strategy =
  Replace
| CustomMerge "json \<Rightarrow> json \<Rightarrow> (patch_error, json) result"

datatype permitted_key = PermittedKey (pk_key_type: permitted_key_value) (pk_merge_strategy: merge_strategy)
and permitted_key_value = PkObject "(string \<times> permitted_key) list" | PkArray permitted_key | PkAny

definition pk_object :: "(string \<times> permitted_key) list \<Rightarrow> permitted_key" where
  "pk_object keys = PermittedKey (PkObject keys) Replace"

definition pk_array :: "permitted_key \<Rightarrow> permitted_key" where
  "pk_array key = PermittedKey (PkArray key) Replace"

definition pk_any :: permitted_key where
  "pk_any = PermittedKey PkAny Replace"

definition pk_with_strategy :: "permitted_key \<Rightarrow> merge_strategy \<Rightarrow> permitted_key" where
  "pk_with_strategy key strategy = PermittedKey (pk_key_type key) strategy"

section \<open>Merging overrides\<close>

definition override_hostname :: "json \<Rightarrow> string option" where
  "override_hostname entry = Option.bind (as_object entry) (\<lambda>obj. Option.bind (map_of obj ''hostname'') as_str)"

text \<open>The loop's body: the entry of the same host is extended, or a new one appended.\<close>

fun replace_first :: "('a \<Rightarrow> bool) \<Rightarrow> ('a \<Rightarrow> 'a) \<Rightarrow> 'a list \<Rightarrow> 'a list" where
  "replace_first p f [] = []"
| "replace_first p f (x # xs) = (if p x then f x # xs else x # replace_first p f xs)"

definition insert_all :: "(string \<times> json) list \<Rightarrow> (string \<times> json) list \<Rightarrow> (string \<times> json) list" where
  "insert_all patch obj = fold (\<lambda>(k, v) obj. AList.update k v obj) patch obj"

definition merge_override :: "json \<Rightarrow> json list \<Rightarrow> (patch_error, json list) result" where
  "merge_override patch_override new_array =
     and_then (ok_or_missing (as_object patch_override) ''override entry'') (\<lambda>patch_obj.
     and_then (ok_or_missing (Option.bind (map_of patch_obj ''hostname'') as_str) ''hostname'') (\<lambda>patch_hostname.
     case find (\<lambda>entry. override_hostname entry = Some patch_hostname) new_array of
       Some (JObject current) \<Rightarrow>
         Inr (replace_first (\<lambda>entry. override_hostname entry = Some patch_hostname)
           (\<lambda>_. JObject (insert_all patch_obj current)) new_array)
     | Some _ \<Rightarrow> Inl (InvalidOrMissingValue ''all override entries must be objects'')
     | None \<Rightarrow> Inr (new_array @ [patch_override])))"

definition merge_relay_overrides :: "json \<Rightarrow> json \<Rightarrow> (patch_error, json) result" where
  "merge_relay_overrides current_settings patch =
     (if current_settings = JNull then Inr patch
      else and_then (ok_or_missing (as_array patch) ''relay overrides must be array'') (\<lambda>patch_array.
           and_then (ok_or_missing (as_array current_settings) ''existing overrides should be an array'') (\<lambda>current_array.
           and_then (fold_result merge_override patch_array current_array) (\<lambda>new_array. Inr (JArray new_array)))))"

definition PERMITTED_SUBKEYS :: permitted_key where
  "PERMITTED_SUBKEYS = pk_object [(''relay_overrides'',
     pk_with_strategy
       (pk_array (pk_object [(''hostname'', pk_any), (''ipv4_addr_in'', pk_any), (''ipv6_addr_in'', pk_any)]))
       (CustomMerge merge_relay_overrides))]"

section \<open>Validating and merging\<close>

definition RECURSE_LIMIT :: nat where
  "RECURSE_LIMIT = 15"

function validate_patch_value :: "permitted_key \<Rightarrow> json \<Rightarrow> nat \<Rightarrow> (patch_error, unit) result" where
  "validate_patch_value permitted_key json_value recurse_level =
     (if RECURSE_LIMIT \<le> recurse_level then Inl RecursionLimit
      else case pk_key_type permitted_key of
             PkObject subkeys \<Rightarrow>
               and_then (ok_or_missing (as_object json_value) ''expected JSON object in patch'') (\<lambda>obj.
                 fold_result (\<lambda>(k, v) _.
                   case map_of subkeys k of
                     None \<Rightarrow> Inl (UnknownOrProhibitedKey k)
                   | Some subkey \<Rightarrow> validate_patch_value subkey v (recurse_level + 1)) obj ())
           | PkArray subkey \<Rightarrow>
               and_then (ok_or_missing (as_array json_value) ''expected JSON array in patch'') (\<lambda>values.
                 fold_result (\<lambda>v _. validate_patch_value subkey v (recurse_level + 1)) values ())
           | PkAny \<Rightarrow> Inr ())"
  by pat_completeness auto
termination
  by (relation "measure (\<lambda>(key, j, level). RECURSE_LIMIT - level)") auto

function merge_patch_to_value :: "permitted_key \<Rightarrow> json \<Rightarrow> json \<Rightarrow> nat \<Rightarrow> (patch_error, json) result" where
  "merge_patch_to_value permitted_key current_value patch_value recurse_level =
     (if RECURSE_LIMIT \<le> recurse_level then Inl RecursionLimit
      else case pk_merge_strategy permitted_key of
             Replace \<Rightarrow>
               (case (pk_key_type permitted_key, current_value, patch_value) of
                  (PkObject sub_permitted, JObject current, JObject patch) \<Rightarrow>
                    and_then
                      (fold_result (\<lambda>(k, sub_patch) current.
                         case map_of sub_permitted k of
                           None \<Rightarrow> Inl (UnknownOrProhibitedKey k)
                         | Some sub \<Rightarrow>
                             and_then (merge_patch_to_value sub
                                 (case map_of current k of Some v \<Rightarrow> v | None \<Rightarrow> JNull) sub_patch (recurse_level + 1))
                               (\<lambda>v. Inr (AList.update k v current))) patch current)
                      (\<lambda>current. Inr (JObject current))
                | _ \<Rightarrow> Inr patch_value)
           | CustomMerge merge_function \<Rightarrow> merge_function current_value patch_value)"
  by pat_completeness auto
termination
  by (relation "measure (\<lambda>(key, c, p, level). RECURSE_LIMIT - level)") auto

declare validate_patch_value.simps [simp del] merge_patch_to_value.simps [simp del]

definition merge_validate_patch_inner ::
  "('s \<Rightarrow> json option) \<Rightarrow> (string \<Rightarrow> json option) \<Rightarrow> (json \<Rightarrow> 's option) \<Rightarrow> 's \<Rightarrow> string \<Rightarrow> (patch_error, 's) result" where
  "merge_validate_patch_inner to_value from_str from_value settings json_patch =
     (case to_value settings of
        None \<Rightarrow> Inl SerializeSettings
      | Some settings_value \<Rightarrow>
          case from_str json_patch of
            None \<Rightarrow> Inl ParsePatch
          | Some patch_value \<Rightarrow>
              and_then (validate_patch_value PERMITTED_SUBKEYS patch_value 0) (\<lambda>_.
              and_then (merge_patch_to_value PERMITTED_SUBKEYS settings_value patch_value 0) (\<lambda>settings_value.
              case from_value settings_value of
                None \<Rightarrow> Inl DeserializePatched
              | Some new_settings \<Rightarrow> Inr new_settings)))"

text \<open>\<^verbatim>\<open>export_settings_inner\<close>, on the overrides as JSON.\<close>

definition export_override :: "json \<Rightarrow> json option" where
  "export_override relay_override =
     (case relay_override of
        JObject obj \<Rightarrow>
          let pruned = filter (\<lambda>(k, v). v \<noteq> JNull) obj
          in if list_ex (\<lambda>(k, v). k \<noteq> ''hostname'') pruned then Some (JObject pruned) else None
      | _ \<Rightarrow> Some relay_override)"

definition export_settings_inner :: "('o \<Rightarrow> json option) \<Rightarrow> 'o list \<Rightarrow> (patch_error, json) result" where
  "export_settings_inner override_to_value relay_overrides =
     and_then
       (fold_result (\<lambda>relay_override overrides.
          case override_to_value relay_override of
            None \<Rightarrow> Inl SerializeValue
          | Some j \<Rightarrow> Inr (overrides @ (case export_override j of Some e \<Rightarrow> [e] | None \<Rightarrow> []))) relay_overrides [])
       (\<lambda>overrides. Inr (JObject (if overrides = [] then [] else [(''relay_overrides'', JArray overrides)])))"


section \<open>The contract of patches\<close>

text \<open>The value that an array of overrides has for a host, and the value that a patch gives for it.\<close>

definition override_value :: "json list \<Rightarrow> string \<Rightarrow> string \<Rightarrow> json option" where
  "override_value overrides host field =
     (case find (\<lambda>e. override_hostname e = Some host) overrides of
        Some e \<Rightarrow> Option.bind (as_object e) (\<lambda>obj. map_of obj field)
      | None \<Rightarrow> None)"

definition entry_value :: "json \<Rightarrow> string \<Rightarrow> string \<Rightarrow> json option" where
  "entry_value e host field =
     (if override_hostname e = Some host then Option.bind (as_object e) (\<lambda>obj. map_of obj field) else None)"

definition overridden :: "json option \<Rightarrow> json option \<Rightarrow> json option" where
  "overridden old new = (case new of Some v \<Rightarrow> Some v | None \<Rightarrow> old)"

definition patched_value :: "json list \<Rightarrow> string \<Rightarrow> string \<Rightarrow> json option" where
  "patched_value patch host field = fold (\<lambda>e old. overridden old (entry_value e host field)) patch None"

text \<open>What the parser guarantees: an object has no key twice.\<close>

fun json_wf :: "json \<Rightarrow> bool" where
  "json_wf (JArray js) = list_all json_wf js"
| "json_wf (JObject es) = (distinct (map fst es) \<and> list_all (\<lambda>(k, v). json_wf v) es)"
| "json_wf j = True"

lemma map_of_insert_all: "map_of (insert_all patch obj) = map_of obj ++ map_of (rev patch)"
proof (induction patch arbitrary: obj)
  case (Cons e patch)
  obtain k v where e: "e = (k, v)" by fastforce
  have "insert_all (e # patch) obj = insert_all patch (AList.update k v obj)" by (simp add: insert_all_def e)
  with Cons show ?case by (auto simp: e update_conv map_add_def fun_eq_iff split: option.splits)
qed (simp add: insert_all_def)

lemma map_of_rev: "distinct (map fst xs) \<Longrightarrow> map_of (rev xs) = map_of xs"
proof (induction xs)
  case (Cons x xs)
  then have "map_of (rev (x # xs)) = [fst x \<mapsto> snd x] ++ map_of xs" by (cases x) simp
  moreover have "fst x \<notin> dom (map_of xs)" using Cons.prems by (simp add: dom_map_of_conv_image_fst)
  ultimately show ?case by (cases x) (auto simp: map_add_def fun_eq_iff dom_def split: option.splits)
qed simp

lemma find_replace_first:
  assumes "\<And>x. p x \<Longrightarrow> p (f x)" and "list_ex p xs"
  shows "find p (replace_first p f xs) = map_option f (find p xs)"
  using assms(2) by (induction xs) (auto simp: assms(1))

lemma find_replace_other:
  assumes "\<And>x. p x \<Longrightarrow> \<not> q x" and "\<And>x. p x \<Longrightarrow> \<not> q (f x)"
  shows "find q (replace_first p f xs) = find q xs"
  by (induction xs) (auto simp: assms)

lemma find_append: "find p (xs @ ys) = (case find p xs of Some x \<Rightarrow> Some x | None \<Rightarrow> find p ys)"
  by (induction xs) auto

text \<open>The entry that is found has a host, and so is an object.\<close>

lemma find_override:
  assumes "find (\<lambda>entry. override_hostname entry = Some h) es = Some e"
  obtains current where "e = JObject current"
proof -
  from assms have "override_hostname e = Some h" by (auto simp: find_Some_iff)
  then show thesis using that by (auto simp: override_hostname_def as_object_def bind_eq_Some_conv split: json.splits)
qed

lemma replace_first_found: "find p es = Some e \<Longrightarrow> replace_first p (\<lambda>_. f e) es = replace_first p f es"
  by (induction es) (auto split: if_splits)

lemma merge_override_eq:
  "merge_override patch_override new_array =
     and_then (ok_or_missing (as_object patch_override) ''override entry'') (\<lambda>patch_obj.
     and_then (ok_or_missing (Option.bind (map_of patch_obj ''hostname'') as_str) ''hostname'') (\<lambda>patch_hostname.
     if list_ex (\<lambda>entry. override_hostname entry = Some patch_hostname) new_array
     then Inr (replace_first (\<lambda>entry. override_hostname entry = Some patch_hostname)
            (\<lambda>entry. case entry of JObject current \<Rightarrow> JObject (insert_all patch_obj current) | _ \<Rightarrow> entry) new_array)
     else Inr (new_array @ [patch_override])))"
proof -
  let ?is = "\<lambda>h entry. override_hostname entry = Some h"
  have "(case find (?is h) es of
       Some (JObject current) \<Rightarrow> Inr (replace_first (?is h) (\<lambda>_. JObject (insert_all obj current)) es)
     | Some _ \<Rightarrow> Inl (InvalidOrMissingValue ''all override entries must be objects'')
     | None \<Rightarrow> Inr (es @ [patch_override])) =
    (if list_ex (?is h) es
     then Inr (replace_first (?is h)
            (\<lambda>entry. case entry of JObject current \<Rightarrow> JObject (insert_all obj current) | _ \<Rightarrow> entry) es)
     else Inr (es @ [patch_override]))" for h obj es
  proof (cases "find (?is h) es")
    case None
    moreover from this have "\<not> list_ex (?is h) es" by (simp add: find_None_iff list_ex_iff)
    ultimately show ?thesis by simp
  next
    case (Some e)
    moreover from this have "list_ex (?is h) es" by (auto simp: find_Some_iff list_ex_iff)
    moreover from Some obtain current where "e = JObject current" by (rule find_override)
    ultimately show ?thesis
      using replace_first_found [OF Some, of "\<lambda>entry. case entry of JObject current \<Rightarrow> JObject (insert_all obj current) | _ \<Rightarrow> entry"]
      by simp
  qed
  then show ?thesis by (simp only: merge_override_def)
qed

lemma merge_override_value:
  assumes "merge_override e overrides = Inr overrides'" and "json_wf e"
  shows "override_value overrides' host field = overridden (override_value overrides host field) (entry_value e host field)"
proof -
  from assms(1) obtain obj name where e: "e = JObject obj" and name: "override_hostname e = Some name"
    and result: "overrides' = (if list_ex (\<lambda>e. override_hostname e = Some name) overrides
      then replace_first (\<lambda>e. override_hostname e = Some name)
        (\<lambda>e. case e of JObject current \<Rightarrow> JObject (insert_all obj current) | _ \<Rightarrow> e) overrides
      else overrides @ [e])"
    by (auto simp: merge_override_eq ok_or_missing_def as_object_def override_hostname_def
        split: option.splits json.splits if_splits)
  let ?p = "\<lambda>e. override_hostname e = Some name"
  let ?f = "\<lambda>e. case e of JObject current \<Rightarrow> JObject (insert_all obj current) | _ \<Rightarrow> e"
  have obj: "map_of (insert_all obj current) = map_of current ++ map_of obj" for current
    using assms(2) by (simp add: e map_of_insert_all map_of_rev)
  have hostname: "override_hostname (?f x) = Some name" if x: "override_hostname x = Some name" for x
  proof -
    from x obtain current where "x = JObject current" by (auto simp: override_hostname_def as_object_def split: json.splits)
    with name show ?thesis by (auto simp: override_hostname_def as_object_def e obj map_add_def split: option.splits)
  qed
  show ?thesis
  proof (cases "list_ex ?p overrides")
    case True
    show ?thesis
    proof (cases "host = name")
      case eq: True
      obtain x where x: "find ?p overrides = Some x"
        using True by (cases "find ?p overrides") (auto simp: find_None_iff list_ex_iff)
      then have "override_hostname x = Some name" by (auto simp: find_Some_iff)
      then obtain current where current: "x = JObject current"
        by (auto simp: override_hostname_def as_object_def split: json.splits)
      have "find ?p (replace_first ?p ?f overrides) = map_option ?f (find ?p overrides)"
        by (rule find_replace_first [OF hostname True])
      then have "find ?p overrides' = Some (JObject (insert_all obj current))"
        using True by (simp add: result x current)
      then have "override_value overrides' host field = (map_of current ++ map_of obj) field"
        by (simp add: override_value_def eq as_object_def obj)
      moreover have "override_value overrides host field = map_of current field"
        using x by (simp add: override_value_def eq current as_object_def)
      moreover have "entry_value e host field = map_of obj field"
        using name by (simp add: entry_value_def eq) (simp add: e as_object_def)
      ultimately show ?thesis by (simp add: overridden_def map_add_def)
    next
      case False
      have "find (\<lambda>e. override_hostname e = Some host) overrides' = find (\<lambda>e. override_hostname e = Some host) overrides"
      proof -
        have "find (\<lambda>e. override_hostname e = Some host) (replace_first ?p ?f overrides) = find (\<lambda>e. override_hostname e = Some host) overrides"
          using hostname False by (intro find_replace_other) simp_all
        with True show ?thesis by (simp add: result)
      qed
      with False name show ?thesis by (simp add: override_value_def entry_value_def overridden_def)
    qed
  next
    case none: False
    then have r: "overrides' = overrides @ [e]" by (simp add: result)
    show ?thesis
    proof (cases "host = name")
      case True
      have "find ?p overrides = None" using none by (auto simp: find_None_iff list_ex_iff)
      with True name show ?thesis
        by (simp add: r override_value_def entry_value_def find_append overridden_def split: option.splits)
    next
      case False
      with name show ?thesis
        by (simp add: r override_value_def entry_value_def find_append overridden_def split: option.splits)
    qed
  qed
qed

lemma overridden_None [simp]: "overridden old None = old" "overridden None new = new"
  by (simp_all add: overridden_def split: option.splits)

lemma overridden_assoc: "overridden (overridden a b) c = overridden a (overridden b c)"
  by (simp add: overridden_def split: option.splits)

lemma fold_overridden:
  "fold (\<lambda>e old. overridden old (entry_value e host field)) patch old =
     overridden old (patched_value patch host field)"
proof -
  let ?f = "\<lambda>e old. overridden old (entry_value e host field)"
  have "fold ?f patch old = overridden old (fold ?f patch None)"
  proof (induction patch arbitrary: old)
    case (Cons e patch)
    have "fold ?f (e # patch) old = overridden (overridden old (entry_value e host field)) (fold ?f patch None)"
      using Cons [of "overridden old (entry_value e host field)"] by simp
    moreover have "fold ?f (e # patch) None = overridden (entry_value e host field) (fold ?f patch None)"
      using Cons [of "entry_value e host field"] by simp
    ultimately show ?case by (simp only: overridden_assoc)
  qed simp
  then show ?thesis by (simp only: patched_value_def)
qed

lemma merge_overrides_value:
  assumes "fold_result merge_override patch overrides = Inr overrides'" and "list_all json_wf patch"
  shows "override_value overrides' host field = overridden (override_value overrides host field) (patched_value patch host field)"
proof -
  have "override_value overrides' host field =
      fold (\<lambda>e old. overridden old (entry_value e host field)) patch (override_value overrides host field)"
    using assms
  proof (induction patch arbitrary: overrides)
    case (Cons e patch)
    then obtain overrides1 where "merge_override e overrides = Inr overrides1"
      and rest: "fold_result merge_override patch overrides1 = Inr overrides'" by auto
    with Cons.prems have "override_value overrides1 host field =
        overridden (override_value overrides host field) (entry_value e host field)"
      by (intro merge_override_value) simp_all
    with Cons.IH [OF rest] Cons.prems show ?case by simp
  qed simp
  then show ?thesis by (simp add: fold_overridden)
qed


definition patch_overrides :: "(string \<times> json) list \<Rightarrow> json list" where
  "patch_overrides patch = (case map_of patch ''relay_overrides'' of Some (JArray js) \<Rightarrow> js | _ \<Rightarrow> [])"

definition overrides_key :: permitted_key where
  "overrides_key = pk_with_strategy
     (pk_array (pk_object [(''hostname'', pk_any), (''ipv4_addr_in'', pk_any), (''ipv6_addr_in'', pk_any)]))
     (CustomMerge merge_relay_overrides)"

lemma permitted_simps [simp]:
  "pk_key_type PERMITTED_SUBKEYS = PkObject [(''relay_overrides'', overrides_key)]"
  "pk_merge_strategy PERMITTED_SUBKEYS = Replace"
  "pk_merge_strategy overrides_key = CustomMerge merge_relay_overrides"
  by (simp_all add: PERMITTED_SUBKEYS_def pk_object_def overrides_key_def pk_with_strategy_def)

lemma validated_patch:
  assumes "validate_patch_value PERMITTED_SUBKEYS j 0 = Inr ()"
  shows "\<exists>patch. j = JObject patch \<and> fst ` set patch \<subseteq> {''relay_overrides''}"
proof -
  let ?check = "\<lambda>(k, v) _. case map_of [(''relay_overrides'', overrides_key)] k of
      None \<Rightarrow> Inl (UnknownOrProhibitedKey k) | Some subkey \<Rightarrow> validate_patch_value subkey v (0 + 1)"
  from assms validate_patch_value.simps [of PERMITTED_SUBKEYS j 0] obtain patch where j: "j = JObject patch"
    and valid: "fold_result ?check patch () = Inr ()"
    by (auto simp: RECURSE_LIMIT_def ok_or_missing_def as_object_def split: json.splits)
  have "fst e = ''relay_overrides''" if "e \<in> set patch" for e
    using valid that by (induction patch) (auto split: if_splits)
  with j show ?thesis by auto
qed

lemma merge_permitted:
  assumes "merge_patch_to_value PERMITTED_SUBKEYS (JObject fields) (JObject patch) 0 = Inr v"
    and "fst ` set patch \<subseteq> {''relay_overrides''}" and "distinct (map fst patch)"
    and "map_of fields ''relay_overrides'' = Some (JArray overrides)"
  shows "\<exists>fields' overrides'. v = JObject fields' \<and> (\<forall>key. key \<noteq> ''relay_overrides'' \<longrightarrow> map_of fields' key = map_of fields key) \<and>
    map_of fields' ''relay_overrides'' = Some (JArray overrides') \<and>
    fold_result merge_override (patch_overrides patch) overrides = Inr overrides'"
proof (cases patch)
  case Nil
  then show ?thesis using assms merge_patch_to_value.simps [of PERMITTED_SUBKEYS "JObject fields" "JObject patch" 0]
    by (auto simp: RECURSE_LIMIT_def patch_overrides_def)
next
  case (Cons e es)
  with assms(2,3) have es: "es = []" by (cases es) auto
  obtain j where e: "e = (''relay_overrides'', j)" using assms(2) Cons by (cases e) auto
  from assms(1) obtain new where new: "merge_relay_overrides (JArray overrides) j = Inr new"
    and v: "v = JObject (AList.update ''relay_overrides'' new fields)"
  proof -
    have "merge_patch_to_value overrides_key (JArray overrides) j (0 + 1) = merge_relay_overrides (JArray overrides) j"
      by (subst merge_patch_to_value.simps) (simp add: RECURSE_LIMIT_def)
    then have "merge_patch_to_value PERMITTED_SUBKEYS (JObject fields) (JObject patch) 0 =
        and_then (merge_relay_overrides (JArray overrides) j) (\<lambda>v. Inr (JObject (AList.update ''relay_overrides'' v fields)))"
      by (subst merge_patch_to_value.simps) (simp add: RECURSE_LIMIT_def assms(4) Cons es e and_then_def split: sum.splits)
    with assms(1) that show ?thesis by auto
  qed
  from new obtain js overrides' where "j = JArray js" and "new = JArray overrides'"
    and "fold_result merge_override js overrides = Inr overrides'"
    by (auto simp: merge_relay_overrides_def ok_or_missing_def as_array_def split: json.splits option.splits)
  then show ?thesis by (auto simp: v Cons es e patch_overrides_def update_conv)
qed

text \<open>
  C38. The contract of patches: a patch that is applied names no key but the overrides, and all
  other settings keep their values; every override that the patch gives for a host has the value
  given last, and every other override of every host the value it had.
\<close>

theorem settings_patch_contract:
  assumes "merge_validate_patch_inner to_value from_str from_value settings json_patch = Inr new"
    and "to_value settings = Some (JObject fields)" and "map_of fields ''relay_overrides'' = Some (JArray overrides)"
    and "\<And>s j. from_str s = Some j \<Longrightarrow> json_wf j"
  shows "\<exists>patch fields' overrides'. from_str json_patch = Some (JObject patch) \<and> fst ` set patch \<subseteq> {''relay_overrides''} \<and>
    from_value (JObject fields') = Some new \<and>
    (\<forall>key. key \<noteq> ''relay_overrides'' \<longrightarrow> map_of fields' key = map_of fields key) \<and>
    map_of fields' ''relay_overrides'' = Some (JArray overrides') \<and>
    (\<forall>host field. override_value overrides' host field =
       (case patched_value (patch_overrides patch) host field of
          Some v \<Rightarrow> Some v | None \<Rightarrow> override_value overrides host field))"
proof -
  from assms(1,2) obtain j v where j: "from_str json_patch = Some j"
    and valid: "validate_patch_value PERMITTED_SUBKEYS j 0 = Inr ()"
    and v: "merge_patch_to_value PERMITTED_SUBKEYS (JObject fields) j 0 = Inr v" and new: "from_value v = Some new"
    by (auto simp: merge_validate_patch_inner_def split: option.splits)
  from validated_patch [OF valid] obtain patch where patch: "j = JObject patch" "fst ` set patch \<subseteq> {''relay_overrides''}" by blast
  have wf: "json_wf (JObject patch)" using assms(4) [OF j] patch(1) by simp
  from merge_permitted [OF v [unfolded patch(1)] patch(2) _ assms(3)] wf obtain fields' overrides' where
    r: "v = JObject fields'" "\<forall>key. key \<noteq> ''relay_overrides'' \<longrightarrow> map_of fields' key = map_of fields key"
      "map_of fields' ''relay_overrides'' = Some (JArray overrides')"
    and merged: "fold_result merge_override (patch_overrides patch) overrides = Inr overrides'" by auto
  have "list_all json_wf (patch_overrides patch)"
  proof (cases "map_of patch ''relay_overrides''")
    case (Some x)
    from map_of_SomeD [OF this] wf have "json_wf x" by (auto simp: list_all_iff)
    with Some show ?thesis by (cases x) (auto simp: patch_overrides_def)
  qed (simp add: patch_overrides_def)
  note merged_values = merge_overrides_value [OF merged this, unfolded overridden_def]
  from j patch r new merged_values show ?thesis by (intro exI [of _ patch] exI [of _ fields'] exI [of _ overrides'] conjI) simp_all
qed

definition sample_json_settings :: json where
  "sample_json_settings = JObject [(''allow_lan'', JBool False),
     (''relay_overrides'', JArray [JObject [(''hostname'', JString ''a''), (''ipv4_addr_in'', JString ''1.1.1.1''), (''ipv6_addr_in'', JNull)]])]"

definition sample_patch :: json where
  "sample_patch = JObject [(''relay_overrides'', JArray [
     JObject [(''hostname'', JString ''a''), (''ipv6_addr_in'', JString ''::1'')],
     JObject [(''hostname'', JString ''b''), (''ipv4_addr_in'', JString ''1.2.3.4'')]])]"

definition sample_patched :: json where
  "sample_patched = JObject [(''allow_lan'', JBool False),
     (''relay_overrides'', JArray [
        JObject [(''hostname'', JString ''a''), (''ipv4_addr_in'', JString ''1.1.1.1''), (''ipv6_addr_in'', JString ''::1'')],
        JObject [(''hostname'', JString ''b''), (''ipv4_addr_in'', JString ''1.2.3.4'')]])]"

theorem settings_patch_contract_witness:
  "merge_validate_patch_inner Some (\<lambda>_. Some sample_patch) Some sample_json_settings ''patch'' = Inr sample_patched \<and>
   (\<exists>fields' overrides'. sample_patched = JObject fields' \<and> map_of fields' ''allow_lan'' = Some (JBool False) \<and>
     map_of fields' ''relay_overrides'' = Some (JArray overrides') \<and>
     override_value overrides' ''a'' ''ipv4_addr_in'' = Some (JString ''1.1.1.1''))"
proof -
  let ?overrides = "[JObject [(''hostname'', JString ''a''), (''ipv4_addr_in'', JString ''1.1.1.1''), (''ipv6_addr_in'', JNull)]]"
  let ?fields = "[(''allow_lan'', JBool False), (''relay_overrides'', JArray ?overrides)]"
  have new: "merge_validate_patch_inner Some (\<lambda>_. Some sample_patch) Some sample_json_settings ''patch'' = Inr sample_patched"
    by code_simp
  have settings: "Some sample_json_settings = Some (JObject ?fields)" by (simp add: sample_json_settings_def)
  have overrides: "map_of ?fields ''relay_overrides'' = Some (JArray ?overrides)" by simp
  have wf: "json_wf j" if "Some sample_patch = Some j" for j using that by (auto simp: sample_patch_def)
  note contract = settings_patch_contract [OF new settings overrides, rotated]
  obtain patch fields' overrides' where
    r: "Some sample_patch = Some (JObject patch)" "Some (JObject fields') = Some sample_patched"
      "\<forall>key. key \<noteq> ''relay_overrides'' \<longrightarrow> map_of fields' key = map_of ?fields key"
      "map_of fields' ''relay_overrides'' = Some (JArray overrides')"
      "\<forall>host field. override_value overrides' host field =
         (case patched_value (patch_overrides patch) host field of
            Some v \<Rightarrow> Some v | None \<Rightarrow> override_value ?overrides host field)"
    by (rule contract [OF wf, THEN exE]) (assumption, elim exE conjE, rule that)
  have "patched_value (patch_overrides patch) ''a'' ''ipv4_addr_in'' = None"
  proof -
    from r(1) have "patch = [(''relay_overrides'', JArray [
       JObject [(''hostname'', JString ''a''), (''ipv6_addr_in'', JString ''::1'')],
       JObject [(''hostname'', JString ''b''), (''ipv4_addr_in'', JString ''1.2.3.4'')]])]" by (simp add: sample_patch_def)
    then show ?thesis
      by (simp add: patched_value_def patch_overrides_def entry_value_def override_hostname_def as_object_def as_str_def)
  qed
  moreover have "override_value ?overrides ''a'' ''ipv4_addr_in'' = Some (JString ''1.1.1.1'')"
    by (simp add: override_value_def override_hostname_def as_object_def as_str_def)
  ultimately have "override_value overrides' ''a'' ''ipv4_addr_in'' = Some (JString ''1.1.1.1'')" using r(5) by simp
  moreover have "map_of fields' ''allow_lan'' = Some (JBool False)" using r(3) by simp
  moreover have "sample_patched = JObject fields'" using r(2) by (simp only: option.inject)
  ultimately show ?thesis using new r(4) by blast
qed

text \<open>
  The format says that no override can be removed by a patch; one whose value is null can.
\<close>

lemma null_removes_override:
  "merge_validate_patch_inner Some
     (\<lambda>_. Some (JObject [(''relay_overrides'', JArray [JObject [(''hostname'', JString ''a''), (''ipv4_addr_in'', JNull)]])]))
     Some sample_json_settings ''patch'' =
   Inr (JObject [(''allow_lan'', JBool False),
     (''relay_overrides'', JArray [JObject [(''hostname'', JString ''a''), (''ipv4_addr_in'', JNull), (''ipv6_addr_in'', JNull)]])])"
  by code_simp

end
