(* ===== verification/Encrypted_Dns.thy ===== *)
theory Encrypted_Dns
  imports Net_Types
begin

text \<open>
  The proxy whose addresses are looked up over encrypted DNS, \<^verbatim>\<open>mullvad-encrypted-dns-proxy/src\<close>:
  configurations hidden in IPv6 addresses (\<^verbatim>\<open>config/mod.rs\<close>, \<^verbatim>\<open>config/plain.rs\<close>,
  \<^verbatim>\<open>config/xor.rs\<close>), the order in which they are tried (\<^verbatim>\<open>state.rs\<close>), and the forwarder that hides
  the traffic (\<^verbatim>\<open>forwarder.rs\<close>). The lookup itself is I/O, and its addresses come as an argument.
\<close>

section \<open>Configurations\<close>

datatype edp_error =
  UnknownProxyType u16
| XorV1Unsupported
| InvalidPort u16
| EmptyXorKey

datatype edp_proxy_type = Plain | XorV1 | XorV2

record xor_key =
  xk_data :: "u8 list"
  xk_len :: nat

datatype obfuscation_config = ObfXorV2 xor_key

record edp_config =
  ec_addr :: "u32 \<times> u16"
  ec_obfuscation :: "obfuscation_config option"

text \<open>The bytes of an IPv6 address, and numbers from bytes: addresses big-endian, ports little-endian.\<close>

definition ipv6_octets :: "u128 \<Rightarrow> u8 list" where
  "ipv6_octets a = map (\<lambda>i. ucast (drop_bit (8 * (15 - i)) a)) [0..<16]"

definition ipv4_from_octets :: "u8 list \<Rightarrow> u32" where
  "ipv4_from_octets bs = fold (\<lambda>b acc. push_bit 8 acc OR ucast b) bs 0"

definition u16_from_le_bytes :: "u8 list \<Rightarrow> u16" where
  "u16_from_le_bytes bs = foldr (\<lambda>b acc. push_bit 8 acc OR ucast b) bs 0"

definition proxy_type_try_from :: "u8 list \<Rightarrow> (edp_error, edp_proxy_type) result" where
  "proxy_type_try_from bytes =
     (let n = u16_from_le_bytes bytes
      in if n = 1 then Inr Plain else if n = 2 then Inr XorV1 else if n = 3 then Inr XorV2
         else Inl (UnknownProxyType n))"

definition parse_plain :: "u8 list \<Rightarrow> (edp_error, edp_config) result" where
  "parse_plain bytes =
     (let ip_bytes = take 4 bytes; tail = drop 4 bytes; port_bytes = take 2 tail;
          ip = ipv4_from_octets ip_bytes; port = u16_from_le_bytes port_bytes
      in if port = 0 then Inl (InvalidPort 0)
         else Inr \<lparr>ec_addr = (ip, port), ec_obfuscation = None\<rparr>)"

definition xor_key_try_from :: "u8 list \<Rightarrow> (edp_error, xor_key) result" where
  "xor_key_try_from key_bytes =
     (let key_len = length (takeWhile (\<lambda>b. b \<noteq> 0) key_bytes)
      in if key_len = 0 then Inl EmptyXorKey
         else Inr \<lparr>xk_data = take key_len key_bytes @ replicate (length key_bytes - key_len) 0, xk_len = key_len\<rparr>)"

definition parse_xor :: "u8 list \<Rightarrow> (edp_error, edp_config) result" where
  "parse_xor bytes =
     (let ip_bytes = take 4 bytes; tail = drop 4 bytes; port_bytes = take 2 tail; key_bytes = drop 2 tail;
          ip = ipv4_from_octets ip_bytes; port = u16_from_le_bytes port_bytes
      in if port = 0 then Inl (InvalidPort port)
         else and_then (xor_key_try_from key_bytes) (\<lambda>key.
           Inr \<lparr>ec_addr = (ip, port), ec_obfuscation = Some (ObfXorV2 key)\<rparr>))"

definition edp_config_try_from :: "u128 \<Rightarrow> (edp_error, edp_config) result" where
  "edp_config_try_from ip =
     (let octets = ipv6_octets ip; proxy_type_bytes = take 2 (drop 2 octets); payload = drop 4 octets
      in and_then (proxy_type_try_from proxy_type_bytes) (\<lambda>proxy_type.
           case proxy_type of
             Plain \<Rightarrow> parse_plain payload
           | XorV1 \<Rightarrow> Inl XorV1Unsupported
           | XorV2 \<Rightarrow> parse_xor payload))"

text \<open>\<^verbatim>\<open>resolve_config_with_resolverconfig\<close>, on the addresses that were found: the others are skipped.\<close>

definition resolve_configs :: "('e, u128 list) result \<Rightarrow> ('e, edp_config list) result" where
  "resolve_configs lookup =
     and_then lookup (\<lambda>addrs. Inr (List.map_filter (\<lambda>a. ok_of (edp_config_try_from a)) addrs))"

section \<open>Obfuscation\<close>

text \<open>A slice that does not exist, and a remainder by zero, are panics: \<^const>\<open>None\<close>.\<close>

definition key_data :: "xor_key \<Rightarrow> u8 list option" where
  "key_data k = (if xk_len k \<le> length (xk_data k) then Some (take (xk_len k) (xk_data k)) else None)"

record xor_obfuscator =
  xo_key :: xor_key
  xo_key_index :: nat


fun xor_bytes :: "u8 list \<Rightarrow> nat \<Rightarrow> u8 list \<Rightarrow> u8 list \<times> nat" where
  "xor_bytes kd i [] = ([], i)"
| "xor_bytes kd i (b # bs) =
     (let (bs', j) = xor_bytes kd ((i + 1) mod length kd) bs
      in ((b XOR kd ! (i mod length kd)) # bs', j))"

definition obfuscate :: "u8 list \<Rightarrow> xor_obfuscator \<Rightarrow> (u8 list \<times> xor_obfuscator) option" where
  "obfuscate buffer ob =
     (case key_data (xo_key ob) of
        None \<Rightarrow> None
      | Some kd \<Rightarrow>
          if buffer \<noteq> [] \<and> kd = [] then None
          else let (bytes, i) = xor_bytes kd (xo_key_index ob) buffer
               in Some (bytes, ob\<lparr>xo_key_index := i\<rparr>))"

definition obfuscate_opt ::
  "u8 list \<Rightarrow> xor_obfuscator option \<Rightarrow> (u8 list \<times> xor_obfuscator option) option" where
  "obfuscate_opt buffer ob =
     (case ob of
        None \<Rightarrow> Some (buffer, None)
      | Some ob \<Rightarrow> map_option (\<lambda>(bytes, ob). (bytes, Some ob)) (obfuscate buffer ob))"


text \<open>
  The forwarder as a stream. Of a write the wrapped stream takes some bytes, or none yet
  (\<^verbatim>\<open>Poll::Pending\<close>), or fails; of a read, the buffer already holds what earlier reads put there.
\<close>

datatype write_poll = WritePending | WriteReady nat | WriteError

record forwarder =
  fo_read_obfuscator :: "xor_obfuscator option"
  fo_write_obfuscator :: "xor_obfuscator option"


definition poll_write :: "u8 list \<Rightarrow> write_poll \<Rightarrow> forwarder \<Rightarrow> (u8 list \<times> forwarder) option" where
  "poll_write buf inner fw =
     map_option (\<lambda>(owned_buf, ob).
       (case inner of WriteReady n \<Rightarrow> take n owned_buf | _ \<Rightarrow> [], fw\<lparr>fo_write_obfuscator := ob\<rparr>))
       (obfuscate_opt buf (fo_write_obfuscator fw))"

definition poll_read :: "u8 list \<Rightarrow> u8 list \<Rightarrow> forwarder \<Rightarrow> (u8 list \<times> forwarder) option" where
  "poll_read filled received fw =
     map_option (\<lambda>(bytes, ob). (bytes, fw\<lparr>fo_read_obfuscator := ob\<rparr>))
       (obfuscate_opt (filled @ received) (fo_read_obfuscator fw))"

section \<open>The order of attempts\<close>

text \<open>
  A hash set is the list of its elements in the order in which it iterates. What a new set
  iterates over is the argument \<open>hash_order\<close>.
\<close>

record edp_state =
  es_configurations :: "edp_config list"
  es_tried_configurations :: "edp_config list"

definition edp_difference :: "edp_state \<Rightarrow> edp_config list" where
  "edp_difference st = filter (\<lambda>c. c \<notin> set (es_tried_configurations st)) (es_configurations st)"

definition should_reset :: "edp_state \<Rightarrow> bool" where
  "should_reset st \<longleftrightarrow> length (edp_difference st) = 0"

definition next_configuration :: "edp_state \<Rightarrow> edp_config option \<times> edp_state" where
  "next_configuration st =
     (let st = (if should_reset st then st\<lparr>es_tried_configurations := []\<rparr> else st)
      in case edp_difference st of
           [] \<Rightarrow> (None, st)
         | first_config # rest \<Rightarrow>
             let selected_config = (case find (\<lambda>c. ec_obfuscation c \<noteq> None) rest of
                   Some c \<Rightarrow> c | None \<Rightarrow> first_config)
             in (Some selected_config,
                 st\<lparr>es_tried_configurations := List.insert selected_config (es_tried_configurations st)\<rparr>))"

definition fetch_configs ::
  "(edp_config list \<Rightarrow> edp_config list) \<Rightarrow> ('e, edp_config list) result \<Rightarrow> edp_state \<Rightarrow>
   ('e, unit) result \<times> edp_state" where
  "fetch_configs hash_order resolved st =
     (case resolved of
        Inr new_configs \<Rightarrow> (Inr (), st\<lparr>es_configurations := hash_order new_configs\<rparr>)
      | Inl err \<Rightarrow> if es_configurations st = [] then (Inl err, st) else (Inr (), st))"


section \<open>What a configuration holds\<close>

definition xor_key_wf :: "xor_key \<Rightarrow> bool" where
  "xor_key_wf k \<longleftrightarrow> length (xk_data k) = 6 \<and> 0 < xk_len k \<and> xk_len k \<le> 6 \<and>
     (\<forall>i < 6. xk_data k ! i = 0 \<longleftrightarrow> xk_len k \<le> i)"



section \<open>Hidden traffic\<close>


lemma length_xor_bytes [simp]: "length (fst (xor_bytes kd i bs)) = length bs"
  by (induction bs arbitrary: i) (simp_all add: case_prod_beta)


definition hide :: "xor_obfuscator option \<Rightarrow> u8 list \<Rightarrow> u8 list" where
  "hide ob bs = (case ob of None \<Rightarrow> bs
     | Some ob \<Rightarrow> fst (xor_bytes (take (xk_len (xo_key ob)) (xk_data (xo_key ob))) (xo_key_index ob) bs))"

definition advance :: "xor_obfuscator option \<Rightarrow> u8 list \<Rightarrow> xor_obfuscator option" where
  "advance ob bs = map_option (\<lambda>ob. ob\<lparr>xo_key_index :=
     snd (xor_bytes (take (xk_len (xo_key ob)) (xk_data (xo_key ob))) (xo_key_index ob) bs)\<rparr>) ob"

definition obfuscator_wf :: "xor_obfuscator option \<Rightarrow> bool" where
  "obfuscator_wf ob \<longleftrightarrow> (\<forall>o'. ob = Some o' \<longrightarrow> xor_key_wf (xo_key o'))"


lemma advance_wf [simp]: "obfuscator_wf (advance ob bs) \<longleftrightarrow> obfuscator_wf ob"
  by (cases ob) (auto simp: obfuscator_wf_def advance_def)


lemma hide_Nil [simp]: "hide ob [] = []"
  by (cases ob) (simp_all add: hide_def)


lemma advance_Nil [simp]: "advance ob [] = ob"
  by (cases ob) (simp_all add: advance_def)




text \<open>
  Written through the forwarder itself the key runs ahead of the stream: it advances over the whole
  buffer when the wrapped stream takes less of it, and when a read finds bytes in its buffer they
  are hidden a second time.
\<close>

lemma partial_write_corrupts:
  "let key = \<lparr>xk_data = [1, 2, 0, 0, 0, 0], xk_len = 2\<rparr>; ob = Some \<lparr>xo_key = key, xo_key_index = 0\<rparr>;
       fw = \<lparr>fo_read_obfuscator = ob, fo_write_obfuscator = ob\<rparr>
   in map_option fst (Option.bind (poll_write [7, 7] (WriteReady 1) fw) (\<lambda>(sent, fw).
        map_option (\<lambda>(sent', fw). (sent @ sent', fw)) (poll_write [7] (WriteReady 1) fw))) = Some [6, 6] \<and>
      hide ob [7, 7] = [6, 5]"
  by code_simp

lemma pending_write_corrupts:
  "let key = \<lparr>xk_data = [1, 2, 0, 0, 0, 0], xk_len = 2\<rparr>; ob = Some \<lparr>xo_key = key, xo_key_index = 0\<rparr>;
       fw = \<lparr>fo_read_obfuscator = ob, fo_write_obfuscator = ob\<rparr>
   in map_option fst (Option.bind (poll_write [7] WritePending fw) (\<lambda>(sent, fw).
        map_option (\<lambda>(sent', fw). (sent @ sent', fw)) (poll_write [7] (WriteReady 1) fw))) = Some [5] \<and>
      hide ob [7] = [6]"
  by code_simp

lemma second_read_corrupts:
  "let key = \<lparr>xk_data = [1, 2, 0, 0, 0, 0], xk_len = 2\<rparr>; ob = Some \<lparr>xo_key = key, xo_key_index = 0\<rparr>;
       fw = \<lparr>fo_read_obfuscator = ob, fo_write_obfuscator = ob\<rparr>
   in map_option fst (Option.bind (poll_read [] [6] fw) (\<lambda>(filled, fw). poll_read filled [5] fw)) = Some [5, 4] \<and>
      hide ob [6, 5] = [7, 7]"
  by code_simp

text \<open>A key of length zero, which can be read from a file but not from an address, panics.\<close>

lemma empty_key_panics:
  "obfuscate (b # bs) \<lparr>xo_key = \<lparr>xk_data = [0, 0, 0, 0, 0, 0], xk_len = 0\<rparr>, xo_key_index = 0\<rparr> = None"
  by (simp add: obfuscate_def key_data_def)


section \<open>Rounds of attempts\<close>

fun attempts :: "nat \<Rightarrow> edp_state \<Rightarrow> edp_config option list \<times> edp_state" where
  "attempts 0 st = ([], st)"
| "attempts (Suc n) st =
     (let (c, st) = next_configuration st; (cs, st) = attempts n st in (c # cs, st))"

lemma next_configuration_round:
  assumes "edp_difference st \<noteq> []" and "distinct (es_configurations st)"
  obtains c st' where "next_configuration st = (Some c, st')" and "c \<in> set (edp_difference st)"
    and "edp_difference st' = remove1 c (edp_difference st)"
    and "es_configurations st' = es_configurations st"
    and "ec_obfuscation c = None \<longrightarrow> (\<forall>d \<in> set (edp_difference st). ec_obfuscation d = None)"
proof -
  obtain x xs where d: "edp_difference st = x # xs" using assms(1) by (cases "edp_difference st") auto
  define c where "c = (case find (\<lambda>c. ec_obfuscation c \<noteq> None) xs of Some c \<Rightarrow> c | None \<Rightarrow> x)"
  let ?st' = "st\<lparr>es_tried_configurations := List.insert c (es_tried_configurations st)\<rparr>"
  have "next_configuration st = (Some c, ?st')"
    using d by (simp add: next_configuration_def should_reset_def c_def Let_def)
  moreover have c: "c \<in> set (edp_difference st)"
    by (auto simp: d c_def find_Some_iff split: option.splits)
  moreover have "edp_difference ?st' = remove1 c (edp_difference st)"
  proof -
    have "distinct (edp_difference st)" using assms(2) by (simp add: edp_difference_def)
    then have "remove1 c (edp_difference st) = filter (\<lambda>d. d \<noteq> c) (edp_difference st)"
      by (rule distinct_remove1_removeAll [THEN trans]) (simp add: removeAll_filter_not_eq eq_commute)
    then show ?thesis by (auto simp: edp_difference_def intro!: filter_cong)
  qed
  moreover have "\<forall>e \<in> set (edp_difference st). ec_obfuscation e = None" if "ec_obfuscation c = None"
    using that by (auto simp: d c_def find_None_iff find_Some_iff split: option.splits)
  ultimately show ?thesis by (intro that [of c ?st']) auto
qed

lemma attempts_round:
  assumes "distinct (es_configurations st)" and "length (edp_difference st) = n"
  shows "\<exists>obfuscated plain st'. attempts n st = (map Some (obfuscated @ plain), st') \<and>
    distinct (obfuscated @ plain) \<and> set (obfuscated @ plain) = set (edp_difference st) \<and>
    (\<forall>c \<in> set obfuscated. ec_obfuscation c \<noteq> None) \<and> (\<forall>c \<in> set plain. ec_obfuscation c = None) \<and>
    edp_difference st' = [] \<and> es_configurations st' = es_configurations st"
  using assms
proof (induction n arbitrary: st)
  case (Suc n)
  then have "edp_difference st \<noteq> []" by auto
  then obtain c st1 where st1: "next_configuration st = (Some c, st1)" "c \<in> set (edp_difference st)"
    "edp_difference st1 = remove1 c (edp_difference st)" "es_configurations st1 = es_configurations st"
    and c: "ec_obfuscation c = None \<longrightarrow> (\<forall>d \<in> set (edp_difference st). ec_obfuscation d = None)"
    by (rule next_configuration_round [OF _ Suc.prems(1)])
  have dist: "distinct (edp_difference st)" using Suc.prems(1) by (simp add: edp_difference_def)
  have "distinct (es_configurations st1)" and "length (edp_difference st1) = n"
    using Suc.prems st1 by (simp_all add: length_remove1)
  from Suc.IH [OF this] obtain os ps st2 where IH: "attempts n st1 = (map Some (os @ ps), st2)"
    "distinct (os @ ps)" "set (os @ ps) = set (edp_difference st1)"
    "\<forall>c \<in> set os. ec_obfuscation c \<noteq> None" "\<forall>c \<in> set ps. ec_obfuscation c = None"
    "edp_difference st2 = []" "es_configurations st2 = es_configurations st1" by blast
  have rest: "set (os @ ps) = set (edp_difference st) - {c}" using IH(3) st1(3) dist by simp
  show ?case
  proof (cases "ec_obfuscation c")
    case None
    have "os = []"
    proof (rule ccontr)
      assume "os \<noteq> []"
      then obtain o' where "o' \<in> set os" by (cases os) auto
      then have "o' \<in> set (edp_difference st)" using rest by (metis DiffD1 UnI1 set_append)
      with c None have "ec_obfuscation o' = None" by blast
      with IH(4) \<open>o' \<in> set os\<close> show False by blast
    qed
    with None IH rest st1 show ?thesis
      by (intro exI [of _ "[]"] exI [of _ "c # ps"] exI [of _ st2]) auto
  next
    case (Some x)
    with IH rest st1 show ?thesis
      by (intro exI [of _ "c # os"] exI [of _ ps] exI [of _ st2]) auto
  qed
qed simp

lemma next_configuration_reset:
  assumes "edp_difference st = []"
  shows "next_configuration st = next_configuration (st\<lparr>es_tried_configurations := []\<rparr>)"
  using assms by (simp add: next_configuration_def should_reset_def Let_def)

text \<open>
  C36. Every configuration gets its turn, hidden ones first: in the calls that a round still takes,
  each configuration that has not been tried in it is returned exactly once, the obfuscated ones
  before the plain ones, and when all have been tried the next call starts a round with all of them.
\<close>

theorem every_configuration_is_tried:
  assumes "distinct (es_configurations st)" and "es_configurations st \<noteq> []"
    and "untried = (if edp_difference st = [] then es_configurations st else edp_difference st)"
  shows "\<exists>obfuscated plain st'. attempts (length untried) st = (map Some (obfuscated @ plain), st') \<and>
    distinct (obfuscated @ plain) \<and> set (obfuscated @ plain) = set untried \<and>
    (\<forall>c \<in> set obfuscated. ec_obfuscation c \<noteq> None) \<and> (\<forall>c \<in> set plain. ec_obfuscation c = None) \<and>
    edp_difference st' = [] \<and> es_configurations st' = es_configurations st"
proof (cases "edp_difference st = []")
  case False
  with assms(3) attempts_round [OF assms(1) refl] show ?thesis by simp
next
  case True
  let ?st0 = "st\<lparr>es_tried_configurations := []\<rparr>"
  have d: "edp_difference ?st0 = untried" using True assms(3) by (simp add: edp_difference_def)
  have "untried \<noteq> []" using True assms(2,3) by simp
  then obtain n where n: "length untried = Suc n" by (cases untried) simp_all
  have "attempts (length untried) st = attempts (length untried) ?st0"
    by (simp add: n next_configuration_reset [OF True])
  with attempts_round [of ?st0 "length untried"] assms(1) d show ?thesis by simp
qed

definition sample_edp_state :: edp_state where
  "sample_edp_state =
     \<lparr>es_configurations =
        [\<lparr>ec_addr = (1, 443), ec_obfuscation = None\<rparr>,
         \<lparr>ec_addr = (2, 443), ec_obfuscation = Some (ObfXorV2 \<lparr>xk_data = [7, 0, 0, 0, 0, 0], xk_len = 1\<rparr>)\<rparr>],
      es_tried_configurations = []\<rparr>"

theorem every_configuration_is_tried_witness:
  "\<exists>a b st'. attempts 2 sample_edp_state = ([Some a, Some b], st') \<and> ec_obfuscation a \<noteq> None \<and> edp_difference st' = []"
proof -
  let ?cs = "es_configurations sample_edp_state"
  have "edp_difference sample_edp_state = ?cs" by (simp add: edp_difference_def sample_edp_state_def)
  then obtain os ps st' where r: "attempts (length ?cs) sample_edp_state = (map Some (os @ ps), st')"
    "distinct (os @ ps)" "set (os @ ps) = set ?cs" "\<forall>c \<in> set os. ec_obfuscation c \<noteq> None"
    "\<forall>c \<in> set ps. ec_obfuscation c = None" "edp_difference st' = []"
    using every_configuration_is_tried [of sample_edp_state ?cs] by (auto simp: sample_edp_state_def)
  have len: "length (os @ ps) = 2" using r(2,3) distinct_card [OF r(2)] by (simp add: sample_edp_state_def)
  have "os \<noteq> []"
  proof
    assume "os = []"
    with r(3,5) have "\<forall>c \<in> set ?cs. ec_obfuscation c = None" by simp
    then show False by (simp add: sample_edp_state_def)
  qed
  then obtain a rest where os: "os = a # rest" by (cases os) auto
  with len obtain b where ab: "os @ ps = [a, b]" by (cases "rest @ ps") auto
  have "length ?cs = 2" by (simp add: sample_edp_state_def)
  with r(1) have "attempts 2 sample_edp_state = ([Some a, Some b], st')" by (simp only: ab list.map)
  with r(4,6) os show ?thesis by auto
qed




end
