(* ===== verification/Api_Access.thy ===== *)
theory Api_Access
  imports Relay_Selection Encrypted_Dns
begin

text \<open>
  How the app reaches its API. The settings of access methods are those of
  \<^verbatim>\<open>mullvad-types/src/access_method.rs\<close>; the selector that rotates through them is the actor of
  \<^verbatim>\<open>mullvad-api/src/access_mode.rs\<close>, with the connection modes of \<^verbatim>\<open>mullvad-api/src/proxy.rs\<close>; and
  the resolver that turns a method into an endpoint, for which the firewall is opened, is the one
  of \<^verbatim>\<open>mullvad-daemon/src/api.rs\<close>. The selector relies on the resolver through the trait
  \<^verbatim>\<open>AccessMethodResolver\<close>, the locale \<open>access_resolver\<close> below.
\<close>

section \<open>Settings of access methods\<close>

datatype built_in_access_method = Direct | Bridge | EncryptedDnsProxy

datatype access_method = BuiltIn built_in_access_method | Custom custom_proxy

record access_method_setting =
  am_id :: u128
  am_name :: string
  am_enabled :: bool
  am_access_method :: access_method

record access_settings =
  as_direct :: access_method_setting
  as_mullvad_bridges :: access_method_setting
  as_encrypted_dns_proxy :: access_method_setting
  as_custom :: "access_method_setting list"

datatype access_method_error = DuplicateAccessName | RemoveBuiltin built_in_access_method

definition canonical_name :: "built_in_access_method \<Rightarrow> string" where
  "canonical_name m =
     (case m of Direct \<Rightarrow> ''Direct'' | Bridge \<Rightarrow> ''Mullvad Bridges'' | EncryptedDnsProxy \<Rightarrow> ''Encrypted DNS proxy'')"

text \<open>The settings of a new installation; the identifiers are fresh ones.\<close>

definition create_built_in :: "u128 \<Rightarrow> built_in_access_method \<Rightarrow> access_method_setting" where
  "create_built_in fresh m = \<lparr>am_id = fresh, am_name = canonical_name m, am_enabled = True, am_access_method = BuiltIn m\<rparr>"

definition access_settings_default :: "u128 \<Rightarrow> u128 \<Rightarrow> u128 \<Rightarrow> access_settings" where
  "access_settings_default a b c =
     \<lparr>as_direct = create_built_in a Direct, as_mullvad_bridges = create_built_in b Bridge,
      as_encrypted_dns_proxy = create_built_in c EncryptedDnsProxy, as_custom = []\<rparr>"

definition access_iter :: "access_settings \<Rightarrow> access_method_setting list" where
  "access_iter s = as_direct s # as_mullvad_bridges s # as_encrypted_dns_proxy s # as_custom s"

definition ensure_consistent_state :: "access_settings \<Rightarrow> access_settings" where
  "ensure_consistent_state s =
     (if list_all (\<lambda>m. \<not> am_enabled m) (access_iter s)
      then s\<lparr>as_direct := (as_direct s)\<lparr>am_enabled := True\<rparr>\<rparr> else s)"

definition check_custom_access_method_name_is_unique ::
  "access_settings \<Rightarrow> access_method_setting \<Rightarrow> (access_method_error, unit) result" where
  "check_custom_access_method_name_is_unique s new_method =
     (if list_ex (\<lambda>m. am_id m \<noteq> am_id new_method \<and> am_name m = am_name new_method) (as_custom s)
      then Inl DuplicateAccessName else Inr ())"

definition access_append ::
  "access_method_setting \<Rightarrow> access_settings \<Rightarrow> (access_method_error, access_settings) result" where
  "access_append m s =
     and_then (check_custom_access_method_name_is_unique s m) (\<lambda>_. Inr (s\<lparr>as_custom := as_custom s @ [m]\<rparr>))"

definition access_remove :: "u128 \<Rightarrow> access_settings \<Rightarrow> (access_method_error, access_settings) result" where
  "access_remove i s =
     (case find (\<lambda>m. am_id m = i) (as_custom s) of
        Some x \<Rightarrow>
          (case am_access_method x of
             BuiltIn built_in \<Rightarrow> Inl (RemoveBuiltin built_in)
           | Custom _ \<Rightarrow> Inr (ensure_consistent_state (s\<lparr>as_custom := filter (\<lambda>m. am_id m \<noteq> i) (as_custom s)\<rparr>)))
      | None \<Rightarrow> Inr s)"

text \<open>\<^verbatim>\<open>Iterator::position\<close>, and the mutable reference that \<^verbatim>\<open>iter_mut\<close> gives at a position.\<close>

fun position :: "('a \<Rightarrow> bool) \<Rightarrow> 'a list \<Rightarrow> nat option" where
  "position p [] = None"
| "position p (x # xs) = (if p x then Some 0 else map_option Suc (position p xs))"

definition access_set :: "nat \<Rightarrow> access_method_setting \<Rightarrow> access_settings \<Rightarrow> access_settings" where
  "access_set i m s =
     (if i = 0 then s\<lparr>as_direct := m\<rparr> else if i = 1 then s\<lparr>as_mullvad_bridges := m\<rparr>
      else if i = 2 then s\<lparr>as_encrypted_dns_proxy := m\<rparr> else s\<lparr>as_custom := (as_custom s)[i - 3 := m]\<rparr>)"

definition access_update ::
  "(access_method_setting \<Rightarrow> bool) \<Rightarrow> (access_method_setting \<Rightarrow> access_method_setting) \<Rightarrow> access_settings \<Rightarrow>
   (access_method_error, bool \<times> access_settings) result" where
  "access_update pred f s =
     (case position pred (access_iter s) of
        Some i \<Rightarrow>
          let new_method = f (access_iter s ! i)
          in and_then (check_custom_access_method_name_is_unique s new_method)
               (\<lambda>_. Inr (True, ensure_consistent_state (access_set i new_method s)))
      | None \<Rightarrow> Inr (False, ensure_consistent_state s))"

definition clear_custom :: "access_settings \<Rightarrow> access_settings" where
  "clear_custom s = ensure_consistent_state (s\<lparr>as_custom := []\<rparr>)"

section \<open>Connection modes\<close>

datatype api_proxy_config =
  ApiShadowsocks shadowsocks
| ApiSocks5Local socks5_local
| ApiSocks5Remote socks5_remote
| ApiEncryptedDnsProxy edp_config

datatype api_connection_mode = ApiDirect | ApiProxied api_proxy_config






section \<open>The daemon's resolver\<close>





section \<open>The selector\<close>

text \<open>The trait \<^verbatim>\<open>AccessMethodResolver\<close>: the two calls, on what they meet and on the resolver's state.\<close>

record ('e, 'r) resolver =
  ar_resolve :: "'e \<Rightarrow> access_method \<Rightarrow> 'r \<Rightarrow> (allowed_endpoint \<times> api_connection_mode) option \<times> 'r"
  ar_default :: "'e \<Rightarrow> 'r \<Rightarrow> allowed_endpoint"


record resolved_connection_mode =
  rm_connection_mode :: api_connection_mode
  rm_endpoint :: allowed_endpoint
  rm_setting :: access_method_setting

text \<open>
  The actor, with what it has announced: the events \<^verbatim>\<open>AccessMethodEvent::New\<close> for the daemon, and
  the connection modes for the REST client.
\<close>

record 'r access_mode_selector =
  sl_method_resolver :: 'r
  sl_access_method_settings :: access_settings
  sl_current :: resolved_connection_mode
  sl_index :: nat
  sl_events :: "resolved_connection_mode list"
  sl_modes :: "api_connection_mode list"




definition resolve_with_default ::
  "('e, 'r) resolver \<Rightarrow> 'e \<Rightarrow> access_method_setting \<Rightarrow> 'r \<Rightarrow> resolved_connection_mode \<times> 'r" where
  "resolve_with_default R env setting r =
     (case ar_resolve R env (am_access_method setting) r of
        (Some (endpoint, mode), r) \<Rightarrow> (\<lparr>rm_connection_mode = mode, rm_endpoint = endpoint, rm_setting = setting\<rparr>, r)
      | (None, r) \<Rightarrow>
          (\<lparr>rm_connection_mode = ApiDirect, rm_endpoint = ar_default R env r, rm_setting = setting\<rparr>, r))"


definition set_current ::
  "('e, 'r) resolver \<Rightarrow> 'e \<Rightarrow> access_method_setting \<Rightarrow> 'r access_mode_selector \<Rightarrow> 'r access_mode_selector" where
  "set_current R env setting s =
     (let (resolved, r) = resolve_with_default R env setting (sl_method_resolver s)
      in s\<lparr>sl_method_resolver := r, sl_events := sl_events s @ [resolved],
           sl_modes := sl_modes s @ [rm_connection_mode resolved], sl_current := resolved\<rparr>)"








section \<open>Methods stay usable\<close>

lemma position_Some: "position p xs = Some i \<Longrightarrow> i < length xs \<and> p (xs ! i) \<and> (\<forall>j < i. \<not> p (xs ! j))"
proof (induction xs arbitrary: i)
  case (Cons x xs)
  then show ?case by (cases i) (auto split: if_splits simp: less_Suc_eq_0_disj)
qed simp

lemma position_None: "position p xs = None \<longleftrightarrow> (\<forall>x \<in> set xs. \<not> p x)"
  by (induction xs) auto

lemma length_access_iter: "length (access_iter s) = 3 + length (as_custom s)"
  by (simp add: access_iter_def)

lemma access_iter_set: "i < length (access_iter s) \<Longrightarrow> access_iter (access_set i m s) = (access_iter s)[i := m]"
  by (auto simp: access_iter_def access_set_def numeral_3_eq_3 numeral_2_eq_2 split: nat.splits)


definition some_enabled :: "access_settings \<Rightarrow> bool" where
  "some_enabled s \<longleftrightarrow> list_ex am_enabled (access_iter s)"

text \<open>Different custom methods have different names, and all methods different identifiers.\<close>

definition access_names_ok :: "access_settings \<Rightarrow> bool" where
  "access_names_ok s \<longleftrightarrow> distinct (map am_id (access_iter s)) \<and> distinct (map am_name (as_custom s))"

lemma ensure_some_enabled [simp]: "some_enabled (ensure_consistent_state s)"
  by (auto simp: some_enabled_def ensure_consistent_state_def access_iter_def list_ex_iff list_all_iff)

lemma ensure_custom [simp]: "as_custom (ensure_consistent_state s) = as_custom s"
  by (simp add: ensure_consistent_state_def)

lemma ensure_ids [simp]: "map am_id (access_iter (ensure_consistent_state s)) = map am_id (access_iter s)"
  by (simp add: ensure_consistent_state_def access_iter_def)

lemma ensure_names_ok [simp]: "access_names_ok (ensure_consistent_state s) \<longleftrightarrow> access_names_ok s"
  by (simp add: access_names_ok_def)

lemma access_append_ok:
  assumes "access_append m s = Inr s'" and "access_names_ok s" and "am_id m \<notin> am_id ` set (access_iter s)"
  shows "access_names_ok s' \<and> (some_enabled s \<longrightarrow> some_enabled s') \<and> access_iter s' = access_iter s @ [m]"
proof -
  have new: "\<forall>x \<in> set (as_custom s). am_id x \<noteq> am_id m" 
  proof
    show "am_id x \<noteq> am_id m" if "x \<in> set (as_custom s)" for x
    proof -
      have "am_id x \<in> am_id ` set (access_iter s)" using that by (auto simp: access_iter_def)
      with assms(3) show ?thesis by metis
    qed
  qed
  with assms(1) have s': "s' = s\<lparr>as_custom := as_custom s @ [m]\<rparr>" and name: "am_name m \<notin> am_name ` set (as_custom s)"
    by (auto simp: access_append_def check_custom_access_method_name_is_unique_def list_ex_iff split: if_splits)
  with assms(2,3) show ?thesis by (auto simp: access_names_ok_def access_iter_def some_enabled_def)
qed

lemma access_remove_ok:
  assumes "access_remove i s = Inr s'" and "access_names_ok s" and "some_enabled s"
  shows "access_names_ok s' \<and> some_enabled s'"
proof (cases "find (\<lambda>m. am_id m = i) (as_custom s)")
  case None
  with assms show ?thesis by (simp add: access_remove_def)
next
  case (Some x)
  have "distinct (map am_id (access_iter s)) \<Longrightarrow>
      distinct (map am_id (access_iter (s\<lparr>as_custom := filter (\<lambda>m. am_id m \<noteq> i) (as_custom s)\<rparr>)))"
    by (auto simp: access_iter_def intro: distinct_map_filter)
  with assms Some show ?thesis
    by (auto simp: access_remove_def access_names_ok_def split: access_method.splits intro: distinct_map_filter)
qed

lemma access_update_ok:
  assumes "access_update p f s = Inr (b, s')" and ok: "access_names_ok s" and f: "\<And>m. p m \<Longrightarrow> am_id (f m) = am_id m"
  shows "access_names_ok s' \<and> some_enabled s' \<and> b = list_ex p (access_iter s)"
proof (cases "position p (access_iter s)")
  case None
  then have "\<not> list_ex p (access_iter s)" by (simp add: position_None list_ex_iff)
  with None assms(1) ok show ?thesis by (auto simp: access_update_def)
next
  case (Some i)
  let ?m = "access_iter s ! i"
  have i: "i < length (access_iter s)" "p ?m" using position_Some [OF Some] by simp_all
  then have fm: "am_id (f ?m) = am_id ?m" using f by simp
  from assms(1) Some have unique: "check_custom_access_method_name_is_unique s (f ?m) = Inr ()"
    and s': "s' = ensure_consistent_state (access_set i (f ?m) s)" and b: "b"
    by (auto simp: access_update_def Let_def)
  have "map am_id (access_iter (access_set i (f ?m) s)) = map am_id (access_iter s)"
  proof -
    have "am_id (f ?m) = map am_id (access_iter s) ! i" using i(1) fm by simp
    with i(1) show ?thesis by (simp only: access_iter_set map_update list_update_id)
  qed
  moreover have "distinct (map am_name (as_custom (access_set i (f ?m) s)))"
  proof (cases "i < 3")
    case True
    then show ?thesis using ok by (auto simp: access_set_def access_names_ok_def)
  next
    case False
    let ?k = "i - 3"
    have k: "?k < length (as_custom s)" "as_custom s ! ?k = ?m"
      using False i(1) by (simp_all add: length_access_iter) (simp add: access_iter_def nth_Cons' numeral_3_eq_3)
    have other: "am_name (as_custom s ! j) \<noteq> am_name (f ?m)" if "j < length (as_custom s)" "j \<noteq> ?k" for j
    proof -
      have "am_id (as_custom s ! j) \<noteq> am_id ?m"
      proof -
        have "distinct (map am_id (as_custom s))" using ok by (simp add: access_names_ok_def access_iter_def)
        with that k show ?thesis by (metis distinct_conv_nth length_map nth_map)
      qed
      with unique that(1) show ?thesis
        by (auto simp: check_custom_access_method_name_is_unique_def list_ex_iff fm split: if_splits)
    qed
    let ?names = "map am_name (as_custom s)"
    have "am_name (f ?m) \<notin> set ?names - {?names ! ?k}"
    proof
      assume "am_name (f ?m) \<in> set ?names - {?names ! ?k}"
      then obtain j where j: "j < length ?names" "?names ! j = am_name (f ?m)" and "am_name (f ?m) \<noteq> ?names ! ?k"
        by (metis DiffE in_set_conv_nth singletonI)
      then have "j \<noteq> ?k" by auto
      with j other [of j] show False by simp
    qed
    with ok have "distinct (?names[?k := am_name (f ?m)])"
      by (intro distinct_list_update) (simp_all add: access_names_ok_def)
    then show ?thesis using False by (simp add: access_set_def map_update)
  qed
  ultimately have "access_names_ok (access_set i (f ?m) s)" using ok by (simp add: access_names_ok_def)
  moreover have "list_ex p (access_iter s)" using i nth_mem by (auto simp: list_ex_iff)
  ultimately show ?thesis using b by (simp add: s')
qed

lemma clear_custom_ok:
  assumes "access_names_ok s"
  shows "access_names_ok (clear_custom s) \<and> some_enabled (clear_custom s) \<and> as_custom (clear_custom s) = []"
proof -
  have "access_names_ok (s\<lparr>as_custom := []\<rparr>)" using assms by (simp add: access_names_ok_def access_iter_def)
  then show ?thesis by (simp add: clear_custom_def)
qed

text \<open>
  A built-in method is never among the custom ones that the daemon makes: asking to remove one is
  no error, and nothing happens.
\<close>

lemma remove_built_in_is_ignored:
  assumes "access_names_ok s" and "m \<in> {as_direct s, as_mullvad_bridges s, as_encrypted_dns_proxy s}"
  shows "access_remove (am_id m) s = Inr s"
proof -
  have "am_id m \<notin> am_id ` set (as_custom s)" using assms by (auto simp: access_names_ok_def access_iter_def)
  then have "find (\<lambda>x. am_id x = am_id m) (as_custom s) = None" by (simp add: find_None_iff image_iff) metis
  then show ?thesis by (simp add: access_remove_def)
qed


section \<open>Rotation\<close>







lemma sl_set_current [simp]:
  "sl_index (set_current R env m s) = sl_index s"
  "sl_access_method_settings (set_current R env m s) = sl_access_method_settings s"
  by (simp_all add: set_current_def split: prod.splits)




section \<open>What the selector announces\<close>






text \<open>The relay selector always answers the resolver: it neither panics nor fails.\<close>

lemma get_bridge_forced_answers: "outcomes (get_bridge_forced config parsed) (\<lambda>_. True) (\<lambda>_. False)"
  unfolding get_bridge_forced_def Let_def
  by (rule outcomes_bind [where Q = "\<lambda>_. True"])
    (auto simp: get_relay_midpoint_def Let_def split: specialized_selector_config.splits sum.splits
      intro!: outcomes_ok outcomes_bind [where Q = "\<lambda>_. True"] outcomes_forget_err
        outcomes_mono [OF outcomes_matching] outcomes_mono [OF outcomes_proxy_settings])


section \<open>Properties\<close>






text \<open>
  The settings that the daemon's handlers can reach: a new installation, and the operations, with
  fresh identifiers for new methods.
\<close>

inductive access_reachable :: "access_settings \<Rightarrow> bool" where
  new_installation: "distinct [a, b, c] \<Longrightarrow> access_reachable (access_settings_default a b c)"
| method_added: "access_reachable s \<Longrightarrow> am_id m \<notin> am_id ` set (access_iter s) \<Longrightarrow> access_append m s = Inr s' \<Longrightarrow> access_reachable s'"
| method_removed: "access_reachable s \<Longrightarrow> access_remove i s = Inr s' \<Longrightarrow> access_reachable s'"
| method_enabled: "access_reachable s \<Longrightarrow>
    access_update (\<lambda>x. am_id x = i) (\<lambda>x. x\<lparr>am_enabled := True\<rparr>) s = Inr (b, s') \<Longrightarrow> access_reachable s'"
| method_replaced: "access_reachable s \<Longrightarrow>
    access_update (\<lambda>x. am_id x = am_id m) (\<lambda>x. m) s = Inr (b, s') \<Longrightarrow> access_reachable s'"
| customs_cleared: "access_reachable s \<Longrightarrow> access_reachable (clear_custom s)"

text \<open>
  C35. Access methods stay usable: in all settings that can be reached, some method is enabled, all
  identifiers are different, and so are the names of custom methods.
\<close>

theorem access_methods_stay_usable:
  assumes "access_reachable s"
  shows "(\<exists>m \<in> set (access_iter s). am_enabled m) \<and> distinct (map am_id (access_iter s)) \<and>
    distinct (map am_name (as_custom s))"
proof -
  have "some_enabled s \<and> access_names_ok s"
    using assms
  proof (induction rule: access_reachable.induct)
    case (new_installation a b c)
    then show ?case
      by (auto simp: some_enabled_def access_names_ok_def access_settings_default_def access_iter_def create_built_in_def)
  next
    case (method_added s m s')
    then show ?case using access_append_ok by blast
  next
    case (method_removed s i s')
    then show ?case using access_remove_ok by blast
  next
    case (method_enabled s i b s')
    then show ?case using access_update_ok [OF method_enabled.hyps(2)] by simp
  next
    case (method_replaced s m b s')
    then show ?case using access_update_ok [OF method_replaced.hyps(2)] by simp
  next
    case (customs_cleared s)
    then show ?case using clear_custom_ok by blast
  qed
  then show ?thesis by (simp add: some_enabled_def access_names_ok_def list_ex_iff)
qed

theorem access_methods_stay_usable_witness:
  "let off = (create_built_in 3 EncryptedDnsProxy)\<lparr>am_enabled := False\<rparr>
   in access_update (\<lambda>x. am_id x = am_id off) (\<lambda>x. off) (access_settings_default 1 2 3) =
        Inr (True, (access_settings_default 1 2 3)\<lparr>as_encrypted_dns_proxy := off\<rparr>) \<and>
      (\<exists>m \<in> set (access_iter ((access_settings_default 1 2 3)\<lparr>as_encrypted_dns_proxy := off\<rparr>)). am_enabled m)"
proof -
  let ?off = "(create_built_in 3 EncryptedDnsProxy)\<lparr>am_enabled := False\<rparr>"
  have u: "access_update (\<lambda>x. am_id x = am_id ?off) (\<lambda>x. ?off) (access_settings_default 1 2 3) =
      Inr (True, (access_settings_default 1 2 3)\<lparr>as_encrypted_dns_proxy := ?off\<rparr>)"
    by (simp add: access_update_def access_settings_default_def access_iter_def create_built_in_def Let_def
        check_custom_access_method_name_is_unique_def access_set_def ensure_consistent_state_def)
  have "access_reachable (access_settings_default 1 2 3)" by (rule new_installation) simp
  from access_methods_stay_usable [OF method_replaced [OF this u]] u show ?thesis by (simp add: Let_def)
qed

end
