(* ===== verification/Daemon_Settings.thy ===== *)
theory Daemon_Settings
  imports Api_Access Firewall_Policy "HOL-Library.Stream" "HOL-Library.Multiset"
begin

text \<open>
  The settings of the daemon (\<^verbatim>\<open>src/mullvad-types/src/settings/\<close>, \<^verbatim>\<open>wireguard.rs\<close>, \<^verbatim>\<open>features.rs\<close>), the
  name servers they stand for (\<^verbatim>\<open>src/mullvad-daemon/src/dns.rs\<close>), and what keeps the settings and the
  target state in files (\<^verbatim>\<open>settings/mod.rs\<close>, \<^verbatim>\<open>target_state.rs\<close>, \<^verbatim>\<open>src/mullvad-fs/src/lib.rs\<close>). A file
  system is the files and the outcomes of the system calls to come: each may fail, or be the last
  because the process is killed. How settings are written as JSON is a parameter.
\<close>

section \<open>Options\<close>

datatype dns_state = DnsStateDefault | DnsStateCustom

record default_dns_options =
  block_ads :: bool
  block_trackers :: bool
  block_malware :: bool
  block_adult_content :: bool
  block_gambling :: bool
  block_social_media :: bool

record custom_dns_options =
  cd_addresses :: "ip_addr list"

record dns_options =
  do_state :: dns_state
  do_default_options :: default_dns_options
  do_custom_options :: custom_dns_options

definition dns_options_default :: dns_options where
  "dns_options_default =
     \<lparr>do_state = DnsStateDefault,
      do_default_options = \<lparr>block_ads = False, block_trackers = False, block_malware = False,
        block_adult_content = False, block_gambling = False, block_social_media = False\<rparr>,
      do_custom_options = \<lparr>cd_addresses = []\<rparr>\<rparr>"

definition any_blockers_enabled :: "default_dns_options \<Rightarrow> bool" where
  "any_blockers_enabled d \<longleftrightarrow>
     block_ads d \<or> block_trackers d \<or> block_malware d \<or> block_adult_content d \<or> block_gambling d \<or>
     block_social_media d"

definition DNS_BLOCKING_IP_BASE :: u32 where "DNS_BLOCKING_IP_BASE = ipv4_addr 100 64 0 0"
definition DNS_AD_BLOCKING_IP_BIT :: u8 where "DNS_AD_BLOCKING_IP_BIT = push_bit 0 1"
definition DNS_TRACKER_BLOCKING_IP_BIT :: u8 where "DNS_TRACKER_BLOCKING_IP_BIT = push_bit 1 1"
definition DNS_MALWARE_BLOCKING_IP_BIT :: u8 where "DNS_MALWARE_BLOCKING_IP_BIT = push_bit 2 1"
definition DNS_ADULT_BLOCKING_IP_BIT :: u8 where "DNS_ADULT_BLOCKING_IP_BIT = push_bit 3 1"
definition DNS_GAMBLING_BLOCKING_IP_BIT :: u8 where "DNS_GAMBLING_BLOCKING_IP_BIT = push_bit 4 1"
definition DNS_SOCIAL_MEDIA_BLOCKING_IP_BIT :: u8 where "DNS_SOCIAL_MEDIA_BLOCKING_IP_BIT = push_bit 5 1"

definition blocking_last_byte :: "default_dns_options \<Rightarrow> u8" where
  "blocking_last_byte d =
     (let b = 0;
          b = (if block_ads d then b OR DNS_AD_BLOCKING_IP_BIT else b);
          b = (if block_trackers d then b OR DNS_TRACKER_BLOCKING_IP_BIT else b);
          b = (if block_malware d then b OR DNS_MALWARE_BLOCKING_IP_BIT else b);
          b = (if block_adult_content d then b OR DNS_ADULT_BLOCKING_IP_BIT else b);
          b = (if block_gambling d then b OR DNS_GAMBLING_BLOCKING_IP_BIT else b)
      in if block_social_media d then b OR DNS_SOCIAL_MEDIA_BLOCKING_IP_BIT else b)"

text \<open>The last byte of the base address is the low byte of the address.\<close>

definition addresses_from_options :: "dns_options \<Rightarrow> dns_config" where
  "addresses_from_options options =
     (case do_state options of
        DnsStateDefault \<Rightarrow>
          let last_byte = blocking_last_byte (do_default_options options)
          in if last_byte \<noteq> 0
             then dns_from_addresses [V4 (DNS_BLOCKING_IP_BASE OR ucast last_byte)] []
             else DnsDefault
      | DnsStateCustom \<Rightarrow>
          let addresses = cd_addresses (do_custom_options options)
          in if addresses = [] then DnsDefault
             else dns_from_addresses (filter (\<lambda>a. \<not> is_local_address a) addresses) (filter is_local_address addresses))"

record daita_settings =
  da_enabled :: bool
  da_use_multihop_if_necessary :: bool

definition daita_settings_default :: daita_settings where
  "daita_settings_default = \<lparr>da_enabled = False, da_use_multihop_if_necessary = True\<rparr>"

text \<open>Intervals in seconds.\<close>

datatype rotation_interval_error = IntervalTooSmall | IntervalTooLarge

definition MIN_ROTATION_INTERVAL :: nat where "MIN_ROTATION_INTERVAL = 1 * 24 * 60 * 60"
definition MAX_ROTATION_INTERVAL :: nat where "MAX_ROTATION_INTERVAL = 30 * 24 * 60 * 60"

definition rotation_interval_new :: "nat \<Rightarrow> (rotation_interval_error, nat) result" where
  "rotation_interval_new interval =
     (if interval < MIN_ROTATION_INTERVAL then Inl IntervalTooSmall
      else if interval > MAX_ROTATION_INTERVAL then Inl IntervalTooLarge else Inr interval)"

record wireguard_options =
  wgo_mtu :: "u16 option"
  wgo_quantum_resistant :: quantum_resistant_state
  wgo_daita :: daita_settings
  wgo_rotation_interval :: "nat option"

definition wireguard_options_default :: wireguard_options where
  "wireguard_options_default =
     \<lparr>wgo_mtu = None, wgo_quantum_resistant = QrAuto, wgo_daita = daita_settings_default,
      wgo_rotation_interval = None\<rparr>"

definition into_talpid_tunnel_options :: "wireguard_options \<Rightarrow> wg_tunnel_options" where
  "into_talpid_tunnel_options o' =
     \<lparr>wo_mtu = wgo_mtu o', wo_quantum_resistant = quantum_enabled (wgo_quantum_resistant o'),
      wo_daita = da_enabled (wgo_daita o')\<rparr>"

text \<open>Of the options of OpenVPN there is only \<^verbatim>\<open>mssfix\<close>.\<close>

record tunnel_options =
  to_openvpn_mssfix :: "u16 option"
  to_wireguard :: wireguard_options
  to_generic :: generic_tunnel_options
  to_dns_options :: dns_options

definition tunnel_options_default :: tunnel_options where
  "tunnel_options_default =
     \<lparr>to_openvpn_mssfix = None, to_wireguard = wireguard_options_default,
      to_generic = \<lparr>enable_ipv6 = False\<rparr>, to_dns_options = dns_options_default\<rparr>"

section \<open>Settings\<close>

datatype recent = RecentSinglehop location_constraint | RecentMultihop location_constraint location_constraint

record daemon_settings =
  st_relay_settings :: relay_settings
  st_bridge_settings :: bridge_settings
  st_obfuscation_settings :: obfuscation_settings
  st_bridge_state :: bridge_state
  st_custom_lists :: custom_lists
  st_api_access_methods :: access_settings
  st_update_default_location :: bool
  st_allow_lan :: bool
  st_lockdown_mode :: bool
  st_auto_connect :: bool
  st_tunnel_options :: tunnel_options
  st_relay_overrides :: "relay_override list"
  st_show_beta_releases :: bool
  st_settings_version :: nat
  st_recents :: "recent list option"
  st_rollout_threshold_seed :: "u32 option"

definition CURRENT_SETTINGS_VERSION :: nat where "CURRENT_SETTINGS_VERSION = 12"

definition constraints_for_country :: "string \<Rightarrow> relay_constraints" where
  "constraints_for_country country_code =
     \<lparr>rc_location = Only (Location (Country country_code)), rc_providers = Any, rc_ownership = Any,
      rc_tunnel_protocol = TypeWireguard,
      rc_wireguard_constraints = \<lparr>wgc_port = Any, wgc_ip_version = Any, wgc_allowed_ips = Any,
        wgc_use_multihop = False, wgc_entry_location = Only (Location (Country country_code))\<rparr>,
      rc_openvpn_constraints = \<lparr>ovc_port = Any\<rparr>\<rparr>"

text \<open>The access methods carry identifiers made at random, which come from outside.\<close>

definition settings_default :: "access_settings \<Rightarrow> daemon_settings" where
  "settings_default access_methods =
     \<lparr>st_relay_settings = Normal (constraints_for_country ''se''),
      st_bridge_settings = bridge_settings_default,
      st_obfuscation_settings = obfuscation_settings_default\<lparr>ob_selected := SelAuto\<rparr>,
      st_bridge_state = BridgeStateAuto, st_custom_lists = [], st_api_access_methods = access_methods,
      st_update_default_location = False, st_allow_lan = False, st_lockdown_mode = False, st_auto_connect = False,
      st_tunnel_options = tunnel_options_default, st_relay_overrides = [], st_show_beta_releases = False,
      st_settings_version = CURRENT_SETTINGS_VERSION, st_recents = Some [], st_rollout_threshold_seed = None\<rparr>"

definition set_relay_settings :: "relay_settings \<Rightarrow> daemon_settings \<Rightarrow> daemon_settings" where
  "set_relay_settings new_settings s =
     (if st_relay_settings s \<noteq> new_settings then
        let s = (if \<not> supports_bridge new_settings \<and> st_bridge_state s = BridgeStateOn
                 then s\<lparr>st_bridge_state := BridgeStateAuto\<rparr> else s)
        in s\<lparr>st_relay_settings := new_settings\<rparr>
      else s)"

text \<open>\<^verbatim>\<open>Vec::swap_remove\<close>: the last element takes the place of the removed one.\<close>

definition swap_remove :: "nat \<Rightarrow> 'a list \<Rightarrow> 'a list" where
  "swap_remove i xs = butlast (xs[i := last xs])"

definition set_relay_override :: "relay_override \<Rightarrow> daemon_settings \<Rightarrow> daemon_settings" where
  "set_relay_override ov s =
     (case position (\<lambda>elem. ro_hostname elem = ro_hostname ov) (st_relay_overrides s) of
        None \<Rightarrow> s\<lparr>st_relay_overrides := st_relay_overrides s @ [ov]\<rparr>
      | Some index \<Rightarrow>
          if override_is_empty ov then s\<lparr>st_relay_overrides := swap_remove index (st_relay_overrides s)\<rparr>
          else s\<lparr>st_relay_overrides := (st_relay_overrides s)[index := ov]\<rparr>)"

definition is_hostname :: "location_constraint \<Rightarrow> bool" where
  "is_hostname l = (case l of Location (Hostname _ _ _) \<Rightarrow> True | _ \<Rightarrow> False)"

definition recent_try_from :: "relay_settings \<Rightarrow> (string, recent) result" where
  "recent_try_from rs =
     (case rs of
        CustomTunnelEndpoint _ \<Rightarrow> Inl ''Cannot convert CustomTunnelEndpoint to Recent''
      | Normal constraints \<Rightarrow>
          (case rc_location constraints of
             Any \<Rightarrow> Inl ''Location must be Constraint::Only''
           | Only location \<Rightarrow>
               if wgc_use_multihop (rc_wireguard_constraints constraints) then
                 (case wgc_entry_location (rc_wireguard_constraints constraints) of
                    Any \<Rightarrow> Inl ''Location must be Constraint::Only''
                  | Only entry \<Rightarrow>
                      if is_hostname entry \<and> is_hostname location \<and> entry = location
                      then Inl ''Multihop recent cannot have identical (country, city, host) triple.''
                      else Inr (RecentMultihop entry location))
               else Inr (RecentSinglehop location)))"

definition RECENTS_MAX_COUNT :: nat where "RECENTS_MAX_COUNT = 50"

definition update_recents :: "daemon_settings \<Rightarrow> daemon_settings" where
  "update_recents s =
     (case st_recents s of
        None \<Rightarrow> s
      | Some recents \<Rightarrow>
          (case recent_try_from (st_relay_settings s) of
             Inl e \<Rightarrow> s
           | Inr new_recent \<Rightarrow>
               s\<lparr>st_recents := Some (take RECENTS_MAX_COUNT (new_recent # filter (\<lambda>r. r \<noteq> new_recent) recents))\<rparr>))"

definition selector_config_from_settings :: "daemon_settings \<Rightarrow> selector_config" where
  "selector_config_from_settings s =
     (let wg = to_wireguard (st_tunnel_options s)
      in \<lparr>sc_relay_settings = st_relay_settings s,
          sc_additional_constraints =
            \<lparr>ad_daita = da_enabled (wgo_daita wg),
             ad_daita_use_multihop_if_necessary = da_use_multihop_if_necessary (wgo_daita wg),
             ad_quantum_resistant = wgo_quantum_resistant wg\<rparr>,
          sc_custom_lists = st_custom_lists s, sc_relay_overrides = st_relay_overrides s,
          sc_obfuscation_settings = st_obfuscation_settings s, sc_bridge_state = st_bridge_state s,
          sc_bridge_settings = st_bridge_settings s\<rparr>)"

section \<open>Feature indicators\<close>

datatype feature_indicator =
  FiQuantumResistance | FiMultihop | FiBridgeMode | FiSplitTunneling | FiLockdownMode | FiUdp2Tcp | FiShadowsocks
| FiQuic | FiLwo | FiLanSharing | FiDnsContentBlockers | FiCustomDns | FiServerIpOverride | FiCustomMtu | FiCustomMssFix
| FiDaita | FiDaitaMultihop

definition has_obfuscation :: "tunnel_endpoint \<Rightarrow> obfuscation_type \<Rightarrow> bool" where
  "has_obfuscation ep obfs =
     (case te_obfuscation ep of
        Some (InfoSingle e) \<Rightarrow> oe_type e = obfs
      | Some (InfoMultiplexer _ obfuscators) \<Rightarrow> list_ex (\<lambda>single. oe_type single = obfs) obfuscators
      | None \<Rightarrow> False)"

definition compute_feature_indicators :: "daemon_settings \<Rightarrow> tunnel_endpoint \<Rightarrow> bool \<Rightarrow> feature_indicator set" where
  "compute_feature_indicators s ep server_ip_override =
     (let generic_features =
            [(False, FiSplitTunneling), (st_allow_lan s, FiLanSharing),
             (any_blockers_enabled (do_default_options (to_dns_options (st_tunnel_options s))), FiDnsContentBlockers),
             (do_state (to_dns_options (st_tunnel_options s)) = DnsStateCustom, FiCustomDns),
             (server_ip_override, FiServerIpOverride), (st_lockdown_mode s, FiLockdownMode)];
          protocol_features =
            (case te_tunnel_type ep of
               TypeOpenVpn \<Rightarrow>
                 [(te_proxy ep \<noteq> None, FiBridgeMode), (to_openvpn_mssfix (st_tunnel_options s) \<noteq> None, FiCustomMssFix)]
             | TypeWireguard \<Rightarrow>
                 let (multihop, daita_multihop) =
                       (case st_relay_settings s of
                          Normal constraints \<Rightarrow>
                            (te_entry_endpoint ep \<noteq> None \<and> wgc_use_multihop (rc_wireguard_constraints constraints),
                             te_daita ep \<and> te_entry_endpoint ep \<noteq> None \<and>
                               \<not> wgc_use_multihop (rc_wireguard_constraints constraints))
                        | CustomTunnelEndpoint _ \<Rightarrow> (False, False))
                 in [(te_quantum_resistant ep, FiQuantumResistance), (multihop, FiMultihop),
                     (has_obfuscation ep ObfTypeUdp2Tcp, FiUdp2Tcp), (has_obfuscation ep ObfTypeShadowsocks, FiShadowsocks),
                     (has_obfuscation ep ObfTypeQuic, FiQuic), (has_obfuscation ep ObfTypeLwo, FiLwo),
                     (wgo_mtu (to_wireguard (st_tunnel_options s)) \<noteq> None, FiCustomMtu),
                     (te_daita ep \<and> \<not> daita_multihop, FiDaita), (daita_multihop, FiDaitaMultihop)])
      in snd ` {f \<in> set (generic_features @ protocol_features). fst f})"

section \<open>Files\<close>

datatype path = SettingsFile | TargetStateFile | TempFile

text \<open>
  A system call succeeds, fails, or is the last of the process; one that writes may have written
  some bytes before it failed or the process ended.
\<close>

datatype io_outcome = IoOk | IoFail nat | IoKilled nat

datatype io_error = NotFound | OtherIoError

record file_system =
  fs_files :: "path \<Rightarrow> string option"
  fs_alive :: bool
  fs_outcomes :: "io_outcome stream"

definition system_call ::
  "((path \<Rightarrow> string option) \<Rightarrow> path \<Rightarrow> string option) \<Rightarrow> (nat \<Rightarrow> (path \<Rightarrow> string option) \<Rightarrow> path \<Rightarrow> string option) \<Rightarrow>
   file_system \<Rightarrow> (io_error, unit) result \<times> file_system" where
  "system_call effect partly fs =
     (if \<not> fs_alive fs then (Inl OtherIoError, fs)
      else let fs1 = fs\<lparr>fs_outcomes := stl (fs_outcomes fs)\<rparr>
           in case shd (fs_outcomes fs) of
                IoOk \<Rightarrow> (Inr (), fs1\<lparr>fs_files := effect (fs_files fs)\<rparr>)
              | IoFail n \<Rightarrow> (Inl OtherIoError, fs1\<lparr>fs_files := partly n (fs_files fs)\<rparr>)
              | IoKilled n \<Rightarrow> (Inl OtherIoError, fs1\<lparr>fs_files := partly n (fs_files fs), fs_alive := False\<rparr>))"

definition unchanged :: "nat \<Rightarrow> (path \<Rightarrow> string option) \<Rightarrow> path \<Rightarrow> string option" where
  "unchanged n files = files"

text \<open>\<^verbatim>\<open>File::create\<close> truncates a file that exists.\<close>

definition fs_create :: "path \<Rightarrow> file_system \<Rightarrow> (io_error, unit) result \<times> file_system" where
  "fs_create p = system_call (\<lambda>files. files(p \<mapsto> [])) unchanged"

definition fs_write_all :: "path \<Rightarrow> string \<Rightarrow> file_system \<Rightarrow> (io_error, unit) result \<times> file_system" where
  "fs_write_all p data = system_call (\<lambda>files. files(p := map_option (\<lambda>old. old @ data) (files p)))
     (\<lambda>n files. files(p := map_option (\<lambda>old. old @ take n data) (files p)))"

definition fs_sync :: "path \<Rightarrow> file_system \<Rightarrow> (io_error, unit) result \<times> file_system" where
  "fs_sync p = system_call (\<lambda>files. files) unchanged"

definition fs_rename :: "path \<Rightarrow> path \<Rightarrow> file_system \<Rightarrow> (io_error, unit) result \<times> file_system" where
  "fs_rename p q = system_call (\<lambda>files. files(q := files p, p := None)) unchanged"

definition fs_remove :: "path \<Rightarrow> file_system \<Rightarrow> (io_error, unit) result \<times> file_system" where
  "fs_remove p fs =
     (case system_call (\<lambda>files. files(p := None)) unchanged fs of
        (Inr _, fs1) \<Rightarrow> (if fs_files fs p = None then Inl NotFound else Inr (), fs1)
      | r \<Rightarrow> r)"

definition fs_read :: "path \<Rightarrow> file_system \<Rightarrow> (io_error, string) result \<times> file_system" where
  "fs_read p fs =
     (case system_call (\<lambda>files. files) unchanged fs of
        (Inr _, fs1) \<Rightarrow> (case fs_files fs p of None \<Rightarrow> Inl NotFound | Some data \<Rightarrow> Inr data, fs1)
      | (Inl e, fs1) \<Rightarrow> (Inl e, fs1))"

text \<open>\<^verbatim>\<open>tokio::fs::write\<close>, which is not atomic.\<close>

definition fs_write :: "path \<Rightarrow> string \<Rightarrow> file_system \<Rightarrow> (io_error, unit) result \<times> file_system" where
  "fs_write p data fs =
     (case fs_create p fs of
        (Inl e, fs) \<Rightarrow> (Inl e, fs)
      | (Inr _, fs) \<Rightarrow> fs_write_all p data fs)"

text \<open>
  \<^verbatim>\<open>AtomicFile\<close>: a new temporary file, and its \<^verbatim>\<open>finalize\<close>. An instance that is dropped before it is
  finalized removes the temporary file, and so does a \<^verbatim>\<open>finalize\<close> that fails.
\<close>

definition atomic_file_new :: "file_system \<Rightarrow> (io_error, unit) result \<times> file_system" where
  "atomic_file_new = fs_create TempFile"

definition try_remove_file :: "path \<Rightarrow> file_system \<Rightarrow> file_system" where
  "try_remove_file p fs = snd (fs_remove p fs)"

definition atomic_file_finalize :: "path \<Rightarrow> file_system \<Rightarrow> (io_error, unit) result \<times> file_system" where
  "atomic_file_finalize target fs =
     (let (r, fs) =
        (case fs_sync TempFile fs of
           (Inl e, fs) \<Rightarrow> (Inl e, fs)
         | (Inr _, fs) \<Rightarrow> fs_rename TempFile target fs)
      in if is_err r then (r, try_remove_file TempFile fs) else (r, fs))"

section \<open>Settings in a file\<close>

text \<open>The conversions of settings and of the target state, which \<^verbatim>\<open>serde_json\<close> makes.\<close>

datatype target_state = Unsecured | Secured

record serde =
  sd_settings_to_string :: "daemon_settings \<Rightarrow> string option"
  sd_settings_from_slice :: "string \<Rightarrow> daemon_settings option"
  sd_target_to_string :: "target_state \<Rightarrow> string option"
  sd_target_from_str :: "string \<Rightarrow> target_state option"

datatype 'e settings_error =
  ReadError io_error | ParseError | DeleteError io_error | SerializeError | WriteError io_error | UpdateFailed 'e

definition save_inner :: "serde \<Rightarrow> daemon_settings \<Rightarrow> file_system \<Rightarrow> ('e settings_error, unit) result \<times> file_system" where
  "save_inner sd s fs =
     (case sd_settings_to_string sd s of
        None \<Rightarrow> (Inl SerializeError, fs)
      | Some buffer \<Rightarrow>
          (case atomic_file_new fs of
             (Inl e, fs) \<Rightarrow> (Inl (WriteError e), fs)
           | (Inr _, fs) \<Rightarrow>
               (case fs_write_all TempFile buffer fs of
                  (Inl e, fs) \<Rightarrow> (Inl (WriteError e), try_remove_file TempFile fs)
                | (Inr _, fs) \<Rightarrow>
                    (case atomic_file_finalize SettingsFile fs of
                       (Inl e, fs) \<Rightarrow> (Inl (WriteError e), fs)
                     | (Inr _, fs) \<Rightarrow> (Inr (), fs)))))"

text \<open>What the listeners have been told is part of the state.\<close>

record settings_persister =
  sp_settings :: daemon_settings
  sp_notified :: "daemon_settings list"

definition notify_listeners :: "settings_persister \<Rightarrow> settings_persister" where
  "notify_listeners p = p\<lparr>sp_notified := sp_notified p @ [sp_settings p]\<rparr>"

definition persister_default_settings :: "bool \<Rightarrow> access_settings \<Rightarrow> daemon_settings" where
  "persister_default_settings is_beta_version access_methods =
     (if is_beta_version then (settings_default access_methods)\<lparr>st_show_beta_releases := True\<rparr>
      else settings_default access_methods)"

definition load_from_file :: "serde \<Rightarrow> file_system \<Rightarrow> ('e settings_error, daemon_settings) result \<times> file_system" where
  "load_from_file sd fs =
     (case fs_read SettingsFile fs of
        (Inl e, fs) \<Rightarrow> (Inl (ReadError e), fs)
      | (Inr bytes, fs) \<Rightarrow>
          (case sd_settings_from_slice sd bytes of None \<Rightarrow> Inl ParseError | Some s \<Rightarrow> Inr s, fs))"

definition load_inner ::
  "bool \<Rightarrow> access_settings \<Rightarrow> ('e settings_error, daemon_settings) result \<Rightarrow> daemon_settings \<times> bool" where
  "load_inner is_beta_version access_methods loaded =
     (let (s, should_save) =
        (case loaded of
           Inr s \<Rightarrow> (s, False)
         | Inl (ReadError NotFound) \<Rightarrow> (persister_default_settings is_beta_version access_methods, True)
         | Inl _ \<Rightarrow> ((persister_default_settings is_beta_version access_methods)\<lparr>st_lockdown_mode := True\<rparr>, True))
      in if is_beta_version
         then (s\<lparr>st_show_beta_releases := True\<rparr>, should_save \<or> \<not> st_show_beta_releases s)
         else (s, should_save))"

definition persister_load :: "serde \<Rightarrow> bool \<Rightarrow> access_settings \<Rightarrow> file_system \<Rightarrow> settings_persister \<times> file_system" where
  "persister_load sd is_beta_version access_methods fs =
     (let (loaded :: (unit settings_error, daemon_settings) result, fs) = load_from_file sd fs;
          (s, should_save) = load_inner is_beta_version access_methods loaded;
          fs = (if should_save then snd (save_inner sd s fs :: (unit settings_error, unit) result \<times> file_system) else fs)
      in (\<lparr>sp_settings = s, sp_notified = []\<rparr>, fs))"

definition persister_reset ::
  "serde \<Rightarrow> bool \<Rightarrow> access_settings \<Rightarrow> settings_persister \<Rightarrow> file_system \<Rightarrow>
   ('e settings_error, unit) result \<times> settings_persister \<times> file_system" where
  "persister_reset sd is_beta_version access_methods p fs =
     (let p = p\<lparr>sp_settings := persister_default_settings is_beta_version access_methods\<rparr>
      in case save_inner sd (sp_settings p) fs :: ('e settings_error, unit) result \<times> file_system of
           (Inr _, fs) \<Rightarrow> (Inr (), notify_listeners p, fs)
         | (Inl _, fs) \<Rightarrow>
             (case fs_remove SettingsFile fs of
                (Inl e, fs) \<Rightarrow> (Inl (DeleteError e), p, fs)
              | (Inr _, fs) \<Rightarrow> (Inr (), notify_listeners p, fs)))"

definition try_update ::
  "serde \<Rightarrow> (daemon_settings \<Rightarrow> ('e, daemon_settings) result) \<Rightarrow> settings_persister \<Rightarrow> file_system \<Rightarrow>
   ('e settings_error, bool) result \<times> settings_persister \<times> file_system" where
  "try_update sd update_fn p fs =
     (case update_fn (sp_settings p) of
        Inl e \<Rightarrow> (Inl (UpdateFailed e), p, fs)
      | Inr new_settings \<Rightarrow>
          if sp_settings p = new_settings then (Inr False, p, fs)
          else case save_inner sd new_settings fs of
                 (Inl e, fs) \<Rightarrow> (Inl e, p, fs)
               | (Inr _, fs) \<Rightarrow> (Inr True, notify_listeners (p\<lparr>sp_settings := new_settings\<rparr>), fs))"

definition persister_update ::
  "serde \<Rightarrow> (daemon_settings \<Rightarrow> daemon_settings) \<Rightarrow> settings_persister \<Rightarrow> file_system \<Rightarrow>
   ('e settings_error, bool) result \<times> settings_persister \<times> file_system" where
  "persister_update sd update_fn p fs = try_update sd (\<lambda>s. Inr (update_fn s)) p fs"

section \<open>The target state in a file\<close>

record persistent_target_state =
  pt_state :: target_state
  pt_locked :: bool


definition target_save :: "serde \<Rightarrow> persistent_target_state \<Rightarrow> file_system \<Rightarrow> file_system" where
  "target_save sd t fs =
     (case sd_target_to_string sd (pt_state t) of
        Some data \<Rightarrow> snd (fs_write TargetStateFile data fs)
      | None \<Rightarrow> fs)"



definition target_new_secured :: "serde \<Rightarrow> file_system \<Rightarrow> persistent_target_state \<times> file_system" where
  "target_new_secured sd fs =
     (let t = \<lparr>pt_state = Secured, pt_locked = False\<rparr> in (t, target_save sd t fs))"


definition target_lock :: "persistent_target_state \<Rightarrow> persistent_target_state" where
  "target_lock t = t\<lparr>pt_locked := True\<rparr>"

text \<open>\<^verbatim>\<open>finalize\<close>; a process that is killed does not get here.\<close>

definition target_finalize :: "persistent_target_state \<Rightarrow> file_system \<Rightarrow> file_system" where
  "target_finalize t fs = (if pt_locked t then fs else snd (fs_remove TargetStateFile fs))"

section \<open>Name servers and settings\<close>

lemma bit_flag:
  assumes "k < 8"
  shows "bit (if c then b OR push_bit k 1 else b :: u8) n \<longleftrightarrow> bit b n \<or> c \<and> n = k"
  using assms by (auto simp: bit_or_iff bit_exp_iff)

lemma blocking_bits:
  "bit (blocking_last_byte d) n \<longleftrightarrow>
     (n = 0 \<and> block_ads d \<or> n = 1 \<and> block_trackers d \<or> n = 2 \<and> block_malware d \<or> n = 3 \<and> block_adult_content d \<or>
      n = 4 \<and> block_gambling d \<or> n = 5 \<and> block_social_media d)"
proof -
  have "bit (blocking_last_byte d) n \<longleftrightarrow>
     (((((bit (0 :: u8) n \<or> block_ads d \<and> n = 0) \<or> block_trackers d \<and> n = 1) \<or> block_malware d \<and> n = 2) \<or>
       block_adult_content d \<and> n = 3) \<or> block_gambling d \<and> n = 4) \<or> block_social_media d \<and> n = 5"
    unfolding blocking_last_byte_def Let_def DNS_AD_BLOCKING_IP_BIT_def DNS_TRACKER_BLOCKING_IP_BIT_def
      DNS_MALWARE_BLOCKING_IP_BIT_def DNS_ADULT_BLOCKING_IP_BIT_def DNS_GAMBLING_BLOCKING_IP_BIT_def
      DNS_SOCIAL_MEDIA_BLOCKING_IP_BIT_def
    by (subst bit_flag, simp)+ (rule refl)
  then show ?thesis by auto
qed

text \<open>Each choice of what to block has a resolver of its own, and the default one is used for none.\<close>

lemma blocking_resolver_inj:
  assumes "blocking_last_byte d = blocking_last_byte d'"
  shows "(d :: default_dns_options) = d'"
proof -
  have "bit (blocking_last_byte d) n = bit (blocking_last_byte d') n" for n using assms by simp
  from this [of 0] this [of 1] this [of 2] this [of 3] this [of 4] this [of 5] show ?thesis
    unfolding blocking_bits by (intro default_dns_options.equality) auto
qed

lemma blocking_last_byte_0: "blocking_last_byte d = 0 \<longleftrightarrow> \<not> any_blockers_enabled d"
proof
  assume "blocking_last_byte d = 0"
  then have "\<not> bit (blocking_last_byte d) n" for n by simp
  from this [of 0] this [of 1] this [of 2] this [of 3] this [of 4] this [of 5] show "\<not> any_blockers_enabled d"
    unfolding blocking_bits any_blockers_enabled_def by auto
next
  assume "\<not> any_blockers_enabled d"
  then show "blocking_last_byte d = 0" by (simp add: any_blockers_enabled_def blocking_last_byte_def)
qed

text \<open>
  Name servers that the user chose are all used, the private ones outside the tunnel and the others
  inside.
\<close>

lemma custom_dns_servers:
  assumes "do_state d = DnsStateCustom" and "cd_addresses (do_custom_options d) \<noteq> []"
  shows "\<exists>inside outside. addresses_from_options d = DnsOverride inside outside \<and>
    set inside \<union> set outside = set (cd_addresses (do_custom_options d)) \<and>
    (\<forall>a \<in> set inside. \<not> is_local_address a) \<and> (\<forall>a \<in> set outside. is_local_address a)"
  using assms by (auto simp: addresses_from_options_def Let_def dns_from_addresses_def)

lemma update_recents_ok:
  assumes "st_recents s = Some rs" and "distinct rs" and "length rs \<le> RECENTS_MAX_COUNT"
  obtains rs' where "st_recents (update_recents s) = Some rs'" and "distinct rs'" and "length rs' \<le> RECENTS_MAX_COUNT"
    and "\<And>r. recent_try_from (st_relay_settings s) = Inr r \<Longrightarrow> hd rs' = r \<and> rs' \<noteq> []"
proof (cases "recent_try_from (st_relay_settings s)")
  case (Inl e)
  with assms that show ?thesis by (auto simp: update_recents_def)
next
  case (Inr r)
  let ?rs = "take RECENTS_MAX_COUNT (r # filter (\<lambda>x. x \<noteq> r) rs)"
  have "distinct ?rs" using assms(2) by (intro distinct_take) simp
  with assms(1) Inr that [of ?rs] show ?thesis
    by (auto simp: update_recents_def RECENTS_MAX_COUNT_def)
qed

lemma swap_remove_perm: "i < length xs \<Longrightarrow> mset (swap_remove i xs) = mset xs - {#xs ! i#}"
proof -
  assume i: "i < length xs"
  then have ne: "xs \<noteq> []" by auto
  have "mset (xs[i := last xs]) = add_mset (last xs) (mset xs - {#xs ! i#})" using i by (simp add: mset_update)
  moreover have "xs[i := last xs] = swap_remove i xs @ [last xs]"
    using i ne by (metis append_butlast_last_id last_list_update length_list_update list_update_nonempty swap_remove_def)
  ultimately show ?thesis by simp
qed

lemma set_relay_override_distinct:
  assumes "distinct (map ro_hostname (st_relay_overrides s))"
  shows "distinct (map ro_hostname (st_relay_overrides (set_relay_override ov s)))"
proof (cases "position (\<lambda>e. ro_hostname e = ro_hostname ov) (st_relay_overrides s)")
  case None
  then have "ro_hostname ov \<notin> ro_hostname ` set (st_relay_overrides s)" by (auto simp: position_None)
  with None show ?thesis using assms by (simp add: set_relay_override_def)
next
  case (Some i)
  note i = position_Some [OF Some]
  show ?thesis
  proof (cases "override_is_empty ov")
    case True
    have "mset (swap_remove i (st_relay_overrides s) @ [st_relay_overrides s ! i]) = mset (st_relay_overrides s)"
      using i by (simp add: swap_remove_perm)
    then have "mset (map ro_hostname (swap_remove i (st_relay_overrides s) @ [st_relay_overrides s ! i])) =
        mset (map ro_hostname (st_relay_overrides s))" by (simp only: mset_map)
    from mset_eq_imp_distinct_iff [OF this] assms
    have "distinct (map ro_hostname (swap_remove i (st_relay_overrides s)))" by simp
    then show ?thesis using Some True by (simp add: set_relay_override_def)
  next
    case False
    have "map ro_hostname ((st_relay_overrides s)[i := ov]) = map ro_hostname (st_relay_overrides s)"
      using i by (metis list_update_id map_update nth_map)
    then show ?thesis using Some False assms by (simp add: set_relay_override_def)
  qed
qed

section \<open>What survives\<close>














text \<open>A daemon that cannot read its settings blocks traffic while it is disconnected.\<close>

lemma unreadable_settings_lock_down:
  assumes "persister_load sd is_beta_version access_methods fs = (p, fs')" and "fs_files fs SettingsFile = Some data"
  shows "st_lockdown_mode (sp_settings p) \<or>
    (\<exists>s. sd_settings_from_slice sd data = Some s \<and>
      sp_settings p = (if is_beta_version then s\<lparr>st_show_beta_releases := True\<rparr> else s))"
  using assms
  by (auto simp: persister_load_def load_from_file_def load_inner_def fs_read_def system_call_def unchanged_def Let_def
      split: prod.splits sum.splits io_outcome.splits option.splits if_splits)








text \<open>
  A reset that can neither save the defaults nor remove the file reports an error, but memory holds
  the defaults from then on, and the listeners have not been told.
\<close>

lemma failed_reset_is_silent:
  assumes "persister_reset sd is_beta_version access_methods p fs = (Inl e, p', fs')"
  shows "sp_settings p' = persister_default_settings is_beta_version access_methods \<and> sp_notified p' = sp_notified p"
  using assms by (auto simp: persister_reset_def Let_def split: prod.splits sum.splits)

end
