(* ===== verification/Spec2Isabelle.thy ===== *)
theory Spec2Isabelle
  imports Tunnel_Properties Relay_Properties Connectivity Masque App_Versions Settings_Patch Daemon_Settings
begin

text \<open>
  A verification of the VPN client's core.
\<close>

section \<open>From the state machine to packets\<close>



end
